(* ===== verification/Prelude.thy ===== *)
theory Prelude
  imports Main "HOL-Library.Word" "HOL-Library.Sublist"
begin

text \<open>
  Shared vocabulary of the development: the C integer types the sources use, as fixed-width
  words; the errno values the surgeon distinguishes; the named collections the component
  theories fill; and the generic facts on lists and words that several components need.
\<close>

unbundle bit_operations_syntax

type_synonym u8 = "8 word"
type_synonym u16 = "16 word"
type_synonym u32 = "32 word"
type_synonym u64 = "64 word"

text \<open>A C \<^verbatim>\<open>int\<close> on every target of the program is a 32-bit two's-complement word.\<close>

type_synonym c_int = "32 word"

text \<open>The errno values named by the sources, with their Linux numbers.\<close>

definition ENOENT :: c_int where "ENOENT = 2"

definition EIO :: c_int where "EIO = 5"

definition ENOMEM :: c_int where "ENOMEM = 12"

definition EEXIST :: c_int where "EEXIST = 17"

definition EINVAL :: c_int where "EINVAL = 22"

named_theorems c_string \<open>evaluation and structure of the C string routines\<close>

named_theorems errno_simps \<open>the errno constants as numerals\<close>

lemmas errno_defs [errno_simps] = ENOENT_def EIO_def ENOMEM_def EEXIST_def EINVAL_def

subsection \<open>Lists\<close>

lemma takeWhile_append_stop [c_string]:
  "(\<forall>x \<in> set xs. P x) \<Longrightarrow> \<not> P y \<Longrightarrow> takeWhile P (xs @ y # ys) = xs"
  by (induction xs) auto

lemma dropWhile_append_stop [c_string]:
  "(\<forall>x \<in> set xs. P x) \<Longrightarrow> \<not> P y \<Longrightarrow> dropWhile P (xs @ y # ys) = y # ys"
  by (induction xs) auto

lemma takeWhile_all: "(\<forall>x \<in> set xs. P x) \<Longrightarrow> takeWhile P xs = xs"
  by (induction xs) auto

lemma dropWhile_all: "(\<forall>x \<in> set xs. P x) \<Longrightarrow> dropWhile P xs = []"
  by (induction xs) auto

lemma length_dropWhile_le': "length (dropWhile P xs) \<le> length xs"
  by (induction xs) auto

subsection \<open>Words\<close>

text \<open>The sign extension of an \<^verbatim>\<open>int\<close> to \<^verbatim>\<open>uint64_t\<close> is zero only on zero.\<close>

lemma scast_int_u64_eq_0 [simp]: "(scast (x :: c_int) :: u64) = 0 \<longleftrightarrow> x = 0"
proof
  assume h: "(scast x :: u64) = 0"
  show "x = 0"
  proof (rule bit_word_eqI)
    fix n
    assume n: "n < LENGTH(32)"
    have "bit (scast x :: u64) n = bit x n"
      using n by (cases "n = 31") (auto simp: bit_signed_iff min_def)
    then show "bit x n = bit (0 :: c_int) n"
      using h by simp
  qed
qed simp

text \<open>Below \<open>2 ^ 63\<close> the signed reading of a 64-bit word is the unsigned one.\<close>

lemma sint_unat: "unat (w :: u64) < 2 ^ 63 \<Longrightarrow> sint w = int (unat w)"
proof -
  assume "unat w < 2 ^ 63"
  then have "int (unat w) < int (2 ^ 63)" by (simp only: of_nat_less_iff)
  then have "uint w < 2 ^ 63" by simp
  moreover have "- (2 ^ 63) \<le> uint w" by (rule order_trans [of _ 0]) simp_all
  ultimately have "sint w = uint w"
    unfolding sint_uint by (intro signed_take_bit_int_eq_self) simp_all
  then show ?thesis by simp
qed

end
