(* ===== verification/CString.thy ===== *)
theory CString
  imports Prelude
begin

text \<open>
  The C library string routines the surgeon calls, on NUL-free character lists: \<^verbatim>\<open>strstr\<close>,
  \<^verbatim>\<open>strtoull\<close> with base 0, \<^verbatim>\<open>strcasecmp\<close>, \<^verbatim>\<open>fgets\<close>, and decimal printing as
  Python's \<^verbatim>\<open>str(int)\<close> does it. A character list here is the contents of a C string
  before its terminating NUL; \<open>c_view\<close> cuts a raw buffer at its first NUL.
  The central facts are \<open>strtoull_dec\<close> (reading back a printed number) and the
  \<open>strstr\<close> skipping lemmas the plan-grammar round trip is built from.
\<close>

subsection \<open>Characters\<close>

abbreviation NUL :: char where "NUL \<equiv> CHR 0x00"

abbreviation TAB :: char where "TAB \<equiv> CHR 0x09"

abbreviation NL :: char where "NL \<equiv> CHR 0x0A"

abbreviation SP :: char where "SP \<equiv> CHR 0x20"

abbreviation DQ :: char where "DQ \<equiv> CHR 0x22"

text \<open>\<^verbatim>\<open>isspace\<close> in the C locale.\<close>

definition isspace :: "char \<Rightarrow> bool" where
  "isspace c \<longleftrightarrow> c \<in> {SP, TAB, NL, CHR 0x0B, CHR 0x0C, CHR 0x0D}"

definition tolower :: "char \<Rightarrow> char" where
  "tolower c = (let n = of_char c :: nat in
     if 65 \<le> n \<and> n \<le> 90 then char_of (n + 32) else c)"

text \<open>\<^verbatim>\<open>strcasecmp(a, b) == 0\<close> in the C locale.\<close>

definition strcaseeq :: "string \<Rightarrow> string \<Rightarrow> bool" where
  "strcaseeq a b \<longleftrightarrow> map tolower a = map tolower b"

lemma strcaseeq_refl [simp]: "strcaseeq a a"
  by (simp add: strcaseeq_def)

text \<open>The C string a buffer holds: the characters before the first NUL.\<close>

definition c_view :: "string \<Rightarrow> string" where
  "c_view buf = takeWhile (\<lambda>c. c \<noteq> NUL) buf"

lemma c_view_id: "NUL \<notin> set s \<Longrightarrow> c_view s = s"
  by (auto simp: c_view_def intro: takeWhile_all)

subsection \<open>strstr\<close>

text \<open>\<^verbatim>\<open>strstr(s, pat)\<close>: the suffix at the first occurrence, \<open>None\<close> for NULL.\<close>

fun strstr :: "string \<Rightarrow> string \<Rightarrow> string option" where
  "strstr pat [] = (if pat = [] then Some [] else None)"
| "strstr pat (c # s) = (if prefix pat (c # s) then Some (c # s) else strstr pat s)"

lemma strstr_prefix: "strstr pat s = Some r \<Longrightarrow> prefix pat r"
  by (induction s) (auto split: if_splits)

lemma strstr_suffix: "strstr pat s = Some r \<Longrightarrow> suffix r s"
  by (induction s) (auto split: if_splits simp: suffix_Cons)

lemma strstr_here: "prefix pat s \<Longrightarrow> strstr pat s = Some s"
  by (cases s) auto

lemma strstr_hit [c_string]: "strstr pat (pat @ s) = Some (pat @ s)"
  by (rule strstr_here) simp

text \<open>A run of characters that cannot start the pattern is skipped.\<close>

lemma strstr_skip [c_string]:
  "pat \<noteq> [] \<Longrightarrow> hd pat \<notin> set xs \<Longrightarrow> strstr pat (xs @ s) = strstr pat s"
  by (induction xs) (auto simp: prefix_Cons neq_Nil_conv)

text \<open>
  A field in which the pattern does not occur, closed by a character the pattern does not
  contain, is skipped: no occurrence can straddle the closing character.
\<close>

lemma prefix_straddle:
  assumes "prefix pat (xs @ c # s)" and "c \<notin> set pat"
  shows "prefix pat xs"
  using assms by (auto simp: prefix_append prefix_Cons)

lemma strstr_skip_field:
  assumes "strstr pat xs = None" and "c \<notin> set pat" and "pat \<noteq> []"
  shows "strstr pat (xs @ c # s) = strstr pat (c # s)"
  using assms
proof (induction xs)
  case Nil
  then show ?case by simp
next
  case (Cons x xs)
  then have np: "\<not> prefix pat (x # xs)" and none: "strstr pat xs = None"
    by (simp_all split: if_splits)
  from np have "\<not> prefix pat ((x # xs) @ c # s)"
    using prefix_straddle [of pat "x # xs" c s] Cons.prems(2) by auto
  then have "strstr pat ((x # xs) @ c # s) = strstr pat (xs @ c # s)" by simp
  also have "\<dots> = strstr pat (c # s)"
    using none Cons.prems(2,3) by (rule Cons.IH)
  finally show ?case .
qed

subsection \<open>strtoull\<close>

text \<open>The value of a digit in the bases up to 36.\<close>

definition digit_val :: "char \<Rightarrow> nat option" where
  "digit_val c = (let n = of_char c :: nat in
     if 48 \<le> n \<and> n \<le> 57 then Some (n - 48)
     else if 97 \<le> n \<and> n \<le> 122 then Some (n - 87)
     else if 65 \<le> n \<and> n \<le> 90 then Some (n - 55)
     else None)"

definition is_digit_in :: "nat \<Rightarrow> char \<Rightarrow> bool" where
  "is_digit_in b c = (case digit_val c of None \<Rightarrow> False | Some d \<Rightarrow> d < b)"

definition digits_value :: "nat \<Rightarrow> string \<Rightarrow> nat" where
  "digits_value b = foldl (\<lambda>acc c. acc * b + the (digit_val c)) 0"

text \<open>
  \<^verbatim>\<open>strtoull(p, &end, 0)\<close>: leading white space, an optional sign, then a \<^verbatim>\<open>0x\<close> prefix
  that a hexadecimal digit follows selects base 16, a leading \<^verbatim>\<open>0\<close> base 8, and anything
  else base 10. \<open>None\<close> is the case \<^verbatim>\<open>end == p\<close>, no conversion; otherwise the value, the
  rest of the string at \<^verbatim>\<open>end\<close> and whether \<^verbatim>\<open>errno\<close> became ERANGE. A minus sign
  negates modulo \<open>2 ^ 64\<close>.
\<close>

definition scan_sign :: "string \<Rightarrow> bool \<times> string" where
  "scan_sign s = (case s of
      [] \<Rightarrow> (False, s)
    | c # t \<Rightarrow> if c = CHR ''-'' then (True, t) else if c = CHR ''+'' then (False, t) else (False, s))"

definition scan_base :: "string \<Rightarrow> nat \<times> string" where
  "scan_base s = (case s of
      c # x # h # t \<Rightarrow>
        (if c = CHR ''0'' \<and> (x = CHR ''x'' \<or> x = CHR ''X'') \<and> is_digit_in 16 h then (16, h # t)
         else if c = CHR ''0'' then (8, s) else (10, s))
    | c # t \<Rightarrow> (if c = CHR ''0'' then 8 else 10, s)
    | [] \<Rightarrow> (10, s))"

definition strtoull :: "string \<Rightarrow> (u64 \<times> string \<times> bool) option" where
  "strtoull p =
    (let (neg, s) = scan_sign (dropWhile isspace p);
         (b, t) = scan_base s;
         ds = takeWhile (is_digit_in b) t;
         rest = dropWhile (is_digit_in b) t;
         v = digits_value b ds
     in if ds = [] then None
        else if v \<ge> 2 ^ 64 then Some (- 1, rest, True)
        else Some (if neg then - of_nat v else of_nat v, rest, False))"

subsection \<open>Decimal printing\<close>

definition digit_char :: "nat \<Rightarrow> char" where
  "digit_char d = char_of (48 + d)"

text \<open>Python's \<^verbatim>\<open>str(n)\<close> for a non-negative integer.\<close>

fun dec :: "nat \<Rightarrow> string" where
  "dec n = (if n < 10 then [digit_char n] else dec (n div 10) @ [digit_char (n mod 10)])"

declare dec.simps [simp del]

lemma of_char_digit_char [simp]: "d < 10 \<Longrightarrow> (of_char (digit_char d) :: nat) = 48 + d"
  by (simp add: digit_char_def of_char_of)

lemma digit_val_digit_char [simp]: "d < 10 \<Longrightarrow> digit_val (digit_char d) = Some d"
  by (simp add: digit_val_def Let_def)

lemma is_digit_digit_char: "d < 10 \<Longrightarrow> is_digit_in 10 (digit_char d)"
  by (simp add: is_digit_in_def)

lemma dec_nonempty [simp]: "dec n \<noteq> []"
  by (subst dec.simps) simp

lemma dec_digits: "c \<in> set (dec n) \<Longrightarrow> \<exists>d < 10. c = digit_char d"
proof (induction n rule: dec.induct)
  case (1 n)
  show ?case
  proof (cases "n < 10")
    case True
    with "1.prems" show ?thesis by (subst (asm) dec.simps) auto
  next
    case False
    with "1.prems" have "c \<in> set (dec (n div 10)) \<or> c = digit_char (n mod 10)"
      by (subst (asm) dec.simps) auto
    moreover have "n mod 10 < 10" by simp
    ultimately show ?thesis using "1.IH" [OF False] by blast
  qed
qed

lemma dec_is_digit: "c \<in> set (dec n) \<Longrightarrow> is_digit_in 10 c"
  using dec_digits is_digit_digit_char by blast

lemma digits_value_snoc:
  "digits_value b (xs @ [c]) = digits_value b xs * b + the (digit_val c)"
  by (simp add: digits_value_def)

lemma digits_value_dec: "digits_value 10 (dec n) = n"
proof (induction n rule: dec.induct)
  case (1 n)
  show ?case
  proof (cases "n < 10")
    case True
    then show ?thesis by (subst dec.simps) (simp add: digits_value_def)
  next
    case False
    then have "digits_value 10 (dec n) = digits_value 10 (dec (n div 10)) * 10 + n mod 10"
      by (subst dec.simps) (simp add: digits_value_snoc)
    with "1.IH" [OF False] show ?thesis by simp
  qed
qed

lemma dec_hd: "\<exists>d ds. dec n = digit_char d # ds \<and> d < 10 \<and> (d = 0 \<longrightarrow> ds = [] \<and> n = 0)"
proof (induction n rule: dec.induct)
  case (1 n)
  show ?case
  proof (cases "n < 10")
    case True
    then show ?thesis by (subst dec.simps) auto
  next
    case False
    from "1.IH" [OF False] obtain d ds where
      d: "dec (n div 10) = digit_char d # ds" "d < 10" "d = 0 \<longrightarrow> ds = [] \<and> n div 10 = 0"
      by blast
    have "dec n = digit_char d # ds @ [digit_char (n mod 10)]"
      using False d(1) by (subst dec.simps) simp
    moreover have "d \<noteq> 0" using d(3) False by auto
    ultimately show ?thesis using d(2) by blast
  qed
qed

subsection \<open>Reading a printed number back\<close>

lemma digit_char_inject: "a < 10 \<Longrightarrow> b < 10 \<Longrightarrow> digit_char a = digit_char b \<longleftrightarrow> a = b"
  by (metis add_left_cancel of_char_digit_char)

lemma of_char_neq: "(of_char c :: nat) \<noteq> of_char d \<Longrightarrow> c \<noteq> d"
  by auto

lemma digit_char_not_special:
  assumes "d < 10"
  shows "\<not> isspace (digit_char d)" "digit_char d \<noteq> CHR ''-''" "digit_char d \<noteq> CHR ''+''"
    "digit_char d = CHR ''0'' \<longleftrightarrow> d = 0" "digit_char d \<noteq> CHR ''x''" "digit_char d \<noteq> CHR ''X''"
proof -
  have n: "(of_char (digit_char d) :: nat) = 48 + d" using assms by simp
  show "\<not> isspace (digit_char d)"
    unfolding isspace_def using n by (auto dest: arg_cong [where f = "of_char :: char \<Rightarrow> nat"])
  show "digit_char d \<noteq> CHR ''-''" "digit_char d \<noteq> CHR ''+''"
    "digit_char d \<noteq> CHR ''x''" "digit_char d \<noteq> CHR ''X''"
    by (rule of_char_neq, use n assms in simp)+
  have "digit_char 0 = CHR ''0''" by (simp add: digit_char_def char_of_def bit_0)
  then show "digit_char d = CHR ''0'' \<longleftrightarrow> d = 0"
    using digit_char_inject [of d 0] assms by simp
qed

lemma strtoull_plain:
  assumes "scan_sign (dropWhile isspace p) = (False, s)" and "scan_base s = (b, t)"
    and "takeWhile (is_digit_in b) t = ds" and "dropWhile (is_digit_in b) t = rest"
    and "ds \<noteq> []" and "digits_value b ds < 2 ^ 64"
  shows "strtoull p = Some (of_nat (digits_value b ds), rest, False)"
  using assms by (simp add: strtoull_def)

lemma strtoull_dec:
  assumes "n < 2 ^ 64" and "rest = [] \<or> \<not> is_digit_in 36 (hd rest)"
  shows "strtoull (dec n @ rest) = Some (of_nat n, rest, False)"
proof -
  obtain d ds where d: "dec n = digit_char d # ds" "d < 10" "d = 0 \<longrightarrow> ds = [] \<and> n = 0"
    using dec_hd by blast
  have stop: "rest = [] \<or> \<not> is_digit_in b (hd rest)" if "b \<le> 36" for b
    using assms(2) that by (auto simp: is_digit_in_def split: option.splits)
  have sign: "scan_sign (dropWhile isspace (dec n @ rest)) = (False, dec n @ rest)"
    using digit_char_not_special [OF d(2)] by (simp add: d(1) scan_sign_def)
  show ?thesis
  proof (cases "d = 0")
    case True
    with d have n: "n = 0" "dec n = [digit_char 0]" by auto
    have c0: "digit_char 0 = CHR ''0''" using digit_char_not_special(4) [of 0] by simp
    have "is_digit_in 36 (CHR ''x'')" "is_digit_in 36 (CHR ''X'')"
      by (simp_all add: is_digit_in_def digit_val_def)
    then have "x \<noteq> CHR ''x'' \<and> x \<noteq> CHR ''X''" if "rest = x # xs" for x xs
      using assms(2) that by auto
    then have base: "scan_base (dec n @ rest) = (8, dec n @ rest)"
      by (cases rest) (auto simp: n(2) c0 scan_base_def split: list.split)
    have d8: "is_digit_in 8 (CHR ''0'')" by (simp add: is_digit_in_def digit_val_def)
    have "takeWhile (is_digit_in 8) (dec n @ rest) = dec n"
      and "dropWhile (is_digit_in 8) (dec n @ rest) = rest"
      using stop [of 8] d8 by (cases rest; simp add: n(2) c0)+
    moreover have "digits_value 8 (dec n) = 0"
      unfolding n(2) c0 by (simp add: digits_value_def digit_val_def)
    ultimately show ?thesis
      using strtoull_plain [OF sign base] n(1) by simp
  next
    case False
    then have "digit_char d \<noteq> CHR ''0''" using digit_char_not_special(4) [OF d(2)] by simp
    then have base: "scan_base (dec n @ rest) = (10, dec n @ rest)"
      by (auto simp: d(1) scan_base_def split: list.splits)
    have tw: "takeWhile (is_digit_in 10) (dec n @ rest) = dec n"
      and dw: "dropWhile (is_digit_in 10) (dec n @ rest) = rest"
      using stop [of 10] dec_is_digit [of _ n] by (cases rest; simp)+
    show ?thesis
      using strtoull_plain [OF sign base tw dw] assms(1) by (simp add: digits_value_dec)
  qed
qed

subsection \<open>fgets\<close>

text \<open>
  \<^verbatim>\<open>fgets(buf, n, f)\<close> on the unread bytes of a file: up to \<open>n - 1\<close> bytes, stopping
  after a newline; \<open>None\<close> at end of file.
\<close>

fun line_chunk :: "nat \<Rightarrow> string \<Rightarrow> string \<times> string" where
  "line_chunk 0 s = ([], s)"
| "line_chunk (Suc k) [] = ([], [])"
| "line_chunk (Suc k) (c # s) =
     (if c = NL then ([c], s) else let (a, b) = line_chunk k s in (c # a, b))"

definition fgets :: "nat \<Rightarrow> string \<Rightarrow> (string \<times> string) option" where
  "fgets n s = (if s = [] then None else Some (line_chunk (n - 1) s))"

lemma line_chunk_append: "line_chunk k s = (a, b) \<Longrightarrow> a @ b = s"
  by (induction k s arbitrary: a b rule: line_chunk.induct)
    (auto split: if_splits prod.splits)

lemma line_chunk_length: "line_chunk k s = (a, b) \<Longrightarrow> length a \<le> k"
  by (induction k s arbitrary: a b rule: line_chunk.induct)
    (auto split: if_splits prod.splits)

lemma line_chunk_progress: "line_chunk (Suc k) s = (a, b) \<Longrightarrow> s \<noteq> [] \<Longrightarrow> length b < length s"
proof -
  assume c: "line_chunk (Suc k) s = (a, b)" and s: "s \<noteq> []"
  have "a \<noteq> []" using c s by (cases s) (auto split: if_splits prod.splits)
  moreover have "length s = length a + length b"
    using line_chunk_append [OF c] by auto
  ultimately show ?thesis by simp
qed

lemma fgets_decreases:
  "2 \<le> n \<Longrightarrow> fgets n s = Some (l, r) \<Longrightarrow> length r < length s"
  by (cases "n - 1") (auto simp: fgets_def line_chunk_progress split: if_splits)

lemma fgets_bound: "fgets n s = Some (l, r) \<Longrightarrow> length l \<le> n - 1"
  by (auto simp: fgets_def line_chunk_length split: if_splits)

text \<open>A complete short line is read whole.\<close>

lemma line_chunk_line:
  "NL \<notin> set xs \<Longrightarrow> length xs < k \<Longrightarrow> line_chunk k (xs @ NL # rest) = (xs @ [NL], rest)"
proof (induction xs arbitrary: k)
  case Nil
  then show ?case by (cases k) auto
next
  case (Cons x xs)
  then obtain j where "k = Suc j" by (cases k) auto
  with Cons show ?case by auto
qed

lemma fgets_line:
  "NL \<notin> set xs \<Longrightarrow> Suc (length xs) < n \<Longrightarrow> fgets n (xs @ NL # rest) = Some (xs @ [NL], rest)"
  by (simp add: fgets_def line_chunk_line)

end
