(* ===== verification/Plan.thy ===== *)
theory Plan
  imports CString
begin

text \<open>
  The plan parser of the surgeon (\<^verbatim>\<open>src/surgeon/zhaxx.c\<close>): the operation record
  \<^verbatim>\<open>op_t\<close>, the field readers \<^verbatim>\<open>kv_u64\<close> and \<^verbatim>\<open>kv_str\<close>, and \<^verbatim>\<open>parse_plan\<close>
  over the bytes of a plan file. The lemmas show what a successful parse guarantees of
  every operation (\<open>wf_op\<close>), that the loop ends, and how the field readers behave on
  printed fields; the grammar round trip is in theory \<open>PlanEmit\<close>.
\<close>

subsection \<open>Constants and data\<close>

definition MAX_OPS :: nat where "MAX_OPS = 64"

definition MAX_KEY :: nat where "MAX_KEY = 256"

definition MAX_TYPE :: nat where "MAX_TYPE = 128"

definition SCAN_MAX_WORDS :: nat where "SCAN_MAX_WORDS = 32"

lemmas plan_consts = MAX_OPS_def MAX_KEY_def MAX_TYPE_def SCAN_MAX_WORDS_def

datatype op_kind_t =
    OP_ZAP_SET
  | OP_ZAP_ZERO
  | OP_ZAP_REMOVE
  | OP_BONUS_SET
  | OP_FREE

text \<open>\<^verbatim>\<open>op_t\<close>, its fields with the prefix \<open>op_\<close>; character arrays as the C strings they hold.\<close>

record op_t =
  op_kind :: op_kind_t
  op_obj :: u64
  op_key :: string
  op_field :: string
  op_type :: string
  op_expect :: u64
  op_has_expect :: bool
  op_value :: u64
  op_count :: nat
  op_raw :: string

text \<open>The state \<^verbatim>\<open>memset(op, 0, sizeof (*op))\<close> leaves: kind 0 is \<open>OP_ZAP_SET\<close>.\<close>

definition op_zero :: op_t where
  "op_zero = \<lparr>op_kind = OP_ZAP_SET, op_obj = 0, op_key = [], op_field = [], op_type = [],
     op_expect = 0, op_has_expect = False, op_value = 0, op_count = 0, op_raw = []\<rparr>"

datatype parse_error =
    CannotOpen string
  | TooManyOps
  | MissingObj nat
  | ZapSetNeeds nat
  | ZapZeroNeeds nat
  | BadCount nat
  | ZapRemoveNeeds nat
  | BonusSetNeeds nat
  | OnlyNumChildren nat
  | FreeNeedsType nat
  | UnknownOp nat string

subsection \<open>Field readers\<close>

text \<open>\<^verbatim>\<open>snprintf(pat, 64, "%s=", key)\<close>.\<close>

definition kv_pat :: "string \<Rightarrow> string" where
  "kv_pat key = take 63 (key @ ''='')"

definition kv_u64 :: "string \<Rightarrow> string \<Rightarrow> u64 option" where
  "kv_u64 line key =
    (case strstr (kv_pat key) line of
       None \<Rightarrow> None
     | Some p \<Rightarrow>
         (case strtoull (drop (length (kv_pat key)) p) of
            None \<Rightarrow> None
          | Some (v, _, erange) \<Rightarrow> if erange then None else Some v))"

text \<open>
  The copy loops of \<^verbatim>\<open>kv_str\<close>: a double-quoted value up to its closing quote, or a
  bare one up to a blank; at most \<open>n - 1\<close> characters.
\<close>

definition copy_value :: "string \<Rightarrow> nat \<Rightarrow> string option" where
  "copy_value p n =
    (case p of
       [] \<Rightarrow> Some []
     | c # q \<Rightarrow>
         if c = DQ then
           (if DQ \<in> set q then Some (take (n - 1) (takeWhile (\<lambda>x. x \<noteq> DQ) q)) else None)
         else Some (take (n - 1) (takeWhile (\<lambda>x. x \<noteq> SP \<and> x \<noteq> TAB) p)))"

definition kv_str :: "string \<Rightarrow> string \<Rightarrow> nat \<Rightarrow> string option" where
  "kv_str line key n =
    (case strstr (kv_pat key) line of
       None \<Rightarrow> None
     | Some p \<Rightarrow> copy_value (drop (length (kv_pat key)) p) n)"

subsection \<open>One line\<close>

text \<open>
  The body of the read loop after blank lines and comments are skipped: \<open>s\<close> is the line
  from its first non-blank character up to its newline.
\<close>

definition parse_op :: "nat \<Rightarrow> string \<Rightarrow> parse_error + op_t" where
  "parse_op lineno s =
    (let op = op_zero\<lparr>op_raw := take 511 s\<rparr> in
     case kv_u64 s ''obj'' of
       None \<Rightarrow> Inl (MissingObj lineno)
     | Some ob \<Rightarrow>
       let e = kv_u64 s ''expect'';
           op = op\<lparr>op_obj := ob, op_has_expect := (e \<noteq> None),
                   op_expect := (case e of None \<Rightarrow> 0 | Some v \<Rightarrow> v)\<rparr> in
       if prefix ''zap_set'' s then
         (case (kv_str s ''key'' MAX_KEY, kv_u64 s ''value'') of
            (Some k, Some v) \<Rightarrow>
              if op_has_expect op
              then Inr (op\<lparr>op_kind := OP_ZAP_SET, op_key := k, op_value := v\<rparr>)
              else Inl (ZapSetNeeds lineno)
          | _ \<Rightarrow> Inl (ZapSetNeeds lineno))
       else if prefix ''zap_zero'' s then
         (case (kv_str s ''key'' MAX_KEY, kv_u64 s ''count'') of
            (Some k, Some c) \<Rightarrow>
              if c = 0 \<or> c > of_nat SCAN_MAX_WORDS then Inl (BadCount lineno)
              else Inr (op\<lparr>op_kind := OP_ZAP_ZERO, op_key := k, op_count := unat c\<rparr>)
          | _ \<Rightarrow> Inl (ZapZeroNeeds lineno))
       else if prefix ''zap_remove'' s then
         (case kv_str s ''key'' MAX_KEY of
            None \<Rightarrow> Inl (ZapRemoveNeeds lineno)
          | Some k \<Rightarrow> Inr (op\<lparr>op_kind := OP_ZAP_REMOVE, op_key := k\<rparr>))
       else if prefix ''bonus_set'' s then
         (case (kv_str s ''field'' MAX_KEY, kv_u64 s ''value'') of
            (Some f, Some v) \<Rightarrow>
              if \<not> op_has_expect op then Inl (BonusSetNeeds lineno)
              else if f \<noteq> ''ds_num_children'' then Inl (OnlyNumChildren lineno)
              else Inr (op\<lparr>op_kind := OP_BONUS_SET, op_field := f, op_value := v\<rparr>)
          | _ \<Rightarrow> Inl (BonusSetNeeds lineno))
       else if prefix ''free'' s then
         (case kv_str s ''type'' MAX_TYPE of
            None \<Rightarrow> Inl (FreeNeedsType lineno)
          | Some t \<Rightarrow> Inr (op\<lparr>op_kind := OP_FREE, op_type := t\<rparr>))
       else Inl (UnknownOp lineno s))"

subsection \<open>The read loop\<close>

definition LINE_SIZE :: nat where "LINE_SIZE = 512"

text \<open>The line as the loop sees it: the C string in the buffer, past its leading blanks.\<close>

definition skip_blanks :: "string \<Rightarrow> string" where
  "skip_blanks buf = dropWhile (\<lambda>c. c = SP \<or> c = TAB) (c_view buf)"

definition ignorable :: "string \<Rightarrow> bool" where
  "ignorable s = (case s of [] \<Rightarrow> True | c # _ \<Rightarrow> c = CHR ''#'' \<or> c = NL)"

definition cut_newline :: "string \<Rightarrow> string" where
  "cut_newline s = takeWhile (\<lambda>c. c \<noteq> NL) s"

function parse_lines :: "nat \<Rightarrow> op_t list \<Rightarrow> string \<Rightarrow> parse_error + op_t list" where
  "parse_lines lineno g_ops bytes =
    (case fgets LINE_SIZE bytes of
       None \<Rightarrow> Inr g_ops
     | Some (buf, rest) \<Rightarrow>
         let s = skip_blanks buf in
         if ignorable s then parse_lines (Suc lineno) g_ops rest
         else if length g_ops \<ge> MAX_OPS then Inl TooManyOps
         else (case parse_op (Suc lineno) (cut_newline s) of
                 Inl e \<Rightarrow> Inl e
               | Inr op \<Rightarrow> parse_lines (Suc lineno) (g_ops @ [op]) rest))"
  by pat_completeness auto
termination
  by (relation "measure (\<lambda>(l, g, f). length f)")
    (auto simp: LINE_SIZE_def dest: fgets_decreases [rotated])

declare parse_lines.simps [simp del]

text \<open>\<^verbatim>\<open>parse_plan\<close>: the contents of the file, \<open>None\<close> when it cannot be opened.\<close>

definition parse_plan :: "(string \<Rightarrow> string option) \<Rightarrow> string \<Rightarrow> parse_error + op_t list" where
  "parse_plan fopen path =
    (case fopen path of
       None \<Rightarrow> Inl (CannotOpen path)
     | Some bytes \<Rightarrow> parse_lines 0 [] bytes)"

subsection \<open>What the field readers return\<close>

lemma kv_pat_simps [simp]:
  "kv_pat ''obj'' = ''obj=''" "kv_pat ''key'' = ''key=''" "kv_pat ''field'' = ''field=''"
  "kv_pat ''type'' = ''type=''" "kv_pat ''expect'' = ''expect=''" "kv_pat ''value'' = ''value=''"
  "kv_pat ''count'' = ''count=''"
  by (simp_all add: kv_pat_def)

text \<open>The buffer a string field is copied to always has room for its NUL.\<close>

lemma kv_str_length: "kv_str line key n = Some out \<Longrightarrow> 0 < n \<Longrightarrow> length out < n"
  by (auto simp: kv_str_def copy_value_def split: option.splits list.splits if_splits)

lemma copy_value_bare:
  assumes "\<forall>c \<in> set k. c \<noteq> SP \<and> c \<noteq> TAB" and "k = [] \<or> hd k \<noteq> DQ" and "length k < n"
  shows "copy_value (k @ SP # r) n = Some k"
proof -
  have "takeWhile (\<lambda>x. x \<noteq> SP \<and> x \<noteq> TAB) (k @ SP # r) = k"
    using assms(1) by (intro takeWhile_append_stop) auto
  with assms(2,3) show ?thesis by (cases k) (auto simp: copy_value_def)
qed

lemma copy_value_quoted:
  assumes "DQ \<notin> set t" and "length t < n"
  shows "copy_value (DQ # t @ DQ # r) n = Some t"
proof -
  have "takeWhile (\<lambda>x. x \<noteq> DQ) (t @ DQ # r) = t"
    using assms(1) by (intro takeWhile_append_stop) auto
  with assms(2) show ?thesis by (simp add: copy_value_def)
qed

subsection \<open>Well-formed operations\<close>

definition wf_op :: "op_t \<Rightarrow> bool" where
  "wf_op op \<longleftrightarrow>
     length (op_key op) < MAX_KEY \<and> length (op_field op) < MAX_KEY \<and>
     length (op_type op) < MAX_TYPE \<and> length (op_raw op) < 512 \<and>
     op_count op \<le> SCAN_MAX_WORDS \<and>
     (case op_kind op of
        OP_ZAP_SET \<Rightarrow> op_has_expect op
      | OP_ZAP_ZERO \<Rightarrow> 0 < op_count op
      | OP_ZAP_REMOVE \<Rightarrow> True
      | OP_BONUS_SET \<Rightarrow> op_has_expect op \<and> op_field op = ''ds_num_children''
      | OP_FREE \<Rightarrow> True)"

lemma word_count_bound:
  "(c :: u64) \<noteq> 0 \<Longrightarrow> \<not> c > of_nat SCAN_MAX_WORDS \<Longrightarrow> 0 < unat c \<and> unat c \<le> SCAN_MAX_WORDS"
  by (auto simp: SCAN_MAX_WORDS_def word_less_nat_alt not_less unat_gt_0)

lemma parse_op_wf: "parse_op l s = Inr op \<Longrightarrow> wf_op op"
  by (auto simp: parse_op_def wf_op_def op_zero_def Let_def plan_consts
      split: option.splits if_splits
      dest!: kv_str_length word_count_bound [simplified SCAN_MAX_WORDS_def, simplified])

text \<open>
  What each field of a parsed operation was read from. The guard of every mutating kind is
  present in the line: an \<^verbatim>\<open>expect=\<close> number for the two \<^verbatim>\<open>set\<close> kinds and a
  \<^verbatim>\<open>type=\<close> string for \<^verbatim>\<open>free\<close>.
\<close>

definition parsed_from :: "string \<Rightarrow> op_t \<Rightarrow> bool" where
  "parsed_from s op \<longleftrightarrow>
     op_raw op = take 511 s \<and> kv_u64 s ''obj'' = Some (op_obj op) \<and>
     kv_u64 s ''expect'' = (if op_has_expect op then Some (op_expect op) else None) \<and>
     (case op_kind op of
        OP_ZAP_SET \<Rightarrow> prefix ''zap_set'' s \<and> op_has_expect op \<and>
          kv_str s ''key'' MAX_KEY = Some (op_key op) \<and> kv_u64 s ''value'' = Some (op_value op)
      | OP_ZAP_ZERO \<Rightarrow> prefix ''zap_zero'' s \<and>
          kv_str s ''key'' MAX_KEY = Some (op_key op) \<and>
          kv_u64 s ''count'' = Some (of_nat (op_count op))
      | OP_ZAP_REMOVE \<Rightarrow> prefix ''zap_remove'' s \<and> kv_str s ''key'' MAX_KEY = Some (op_key op)
      | OP_BONUS_SET \<Rightarrow> prefix ''bonus_set'' s \<and> op_has_expect op \<and>
          kv_str s ''field'' MAX_KEY = Some ''ds_num_children'' \<and>
          kv_u64 s ''value'' = Some (op_value op)
      | OP_FREE \<Rightarrow> prefix ''free'' s \<and> kv_str s ''type'' MAX_TYPE = Some (op_type op))"

lemma parse_op_parsed_from: "parse_op l s = Inr op \<Longrightarrow> parsed_from s op"
  by (auto simp: parse_op_def parsed_from_def op_zero_def Let_def
      split: option.splits if_splits)

subsection \<open>The loop against a declarative reading of the file\<close>

text \<open>The buffers successive \<^verbatim>\<open>fgets\<close> calls deliver.\<close>

function chunks :: "string \<Rightarrow> string list" where
  "chunks bytes = (case fgets LINE_SIZE bytes of None \<Rightarrow> [] | Some (buf, rest) \<Rightarrow> buf # chunks rest)"
  by pat_completeness auto
termination
  by (relation "measure length") (auto simp: LINE_SIZE_def dest: fgets_decreases [rotated])

declare chunks.simps [simp del]

text \<open>The numbered plan lines: neither blank nor comment, past their blanks, up to the newline.\<close>

definition plan_lines :: "nat \<Rightarrow> string list \<Rightarrow> (nat \<times> string) list" where
  "plan_lines n bufs =
     map (\<lambda>(i, b). (Suc (n + i), cut_newline (skip_blanks b)))
       (filter (\<lambda>(i, b). \<not> ignorable (skip_blanks b)) (enumerate 0 bufs))"

lemma plan_lines_Nil [simp]: "plan_lines n [] = []"
  by (simp add: plan_lines_def)

lemma enumerate_shift: "enumerate (Suc n) xs = map (\<lambda>(i, x). (Suc i, x)) (enumerate n xs)"
  by (induction xs arbitrary: n) auto

lemma plan_lines_Cons:
  "plan_lines n (b # bs) =
     (if ignorable (skip_blanks b) then [] else [(Suc n, cut_newline (skip_blanks b))])
       @ plan_lines (Suc n) bs"
  by (simp add: plan_lines_def enumerate_shift filter_map o_def case_prod_unfold)

lemma parse_lines_Inr_iff:
  "parse_lines n g bytes = Inr ops \<longleftrightarrow>
     (\<exists>new. ops = g @ new \<and>
        list_all2 (\<lambda>(l, s) op. parse_op l s = Inr op) (plan_lines n (chunks bytes)) new \<and>
        (new \<noteq> [] \<longrightarrow> length g + length new \<le> MAX_OPS))"
proof (induction n g bytes arbitrary: ops rule: parse_lines.induct)
  case (1 n g bytes)
  show ?case
  proof (cases "fgets LINE_SIZE bytes")
    case None
    then show ?thesis by (subst parse_lines.simps, subst chunks.simps) auto
  next
    case (Some br)
    obtain buf rest where br: "br = (buf, rest)" by (cases br)
    let ?s = "skip_blanks buf"
    have ch: "chunks bytes = buf # chunks rest" using Some br by (subst chunks.simps) simp
    consider (ign) "ignorable ?s" | (full) "\<not> ignorable ?s" "length g \<ge> MAX_OPS"
      | (op) "\<not> ignorable ?s" "\<not> length g \<ge> MAX_OPS" by blast
    then show ?thesis
    proof cases
      case ign
      then show ?thesis
        using "1.IH"(1) [OF Some br [symmetric] refl ign] Some br
        by (subst parse_lines.simps) (simp add: ch plan_lines_Cons)
    next
      case full
      then show ?thesis
        using Some br
        by (subst parse_lines.simps) (auto simp: ch plan_lines_Cons list_all2_Cons1)
    next
      case op
      show ?thesis
      proof (cases "parse_op (Suc n) (cut_newline ?s)")
        case (Inl e)
        then show ?thesis
          using op Some br
          by (subst parse_lines.simps) (auto simp: ch plan_lines_Cons list_all2_Cons1)
      next
        case (Inr p)
        have "parse_lines n g bytes = parse_lines (Suc n) (g @ [p]) rest"
          using op Some br Inr by (subst parse_lines.simps) simp
        then show ?thesis
          using "1.IH"(2) [OF Some br [symmetric] refl op Inr] op Inr
          by (fastforce simp: ch plan_lines_Cons list_all2_Cons1)
      qed
    qed
  qed
qed

lemma parse_plan_Inr_iff:
  "parse_plan fopen path = Inr ops \<longleftrightarrow>
     (\<exists>bytes. fopen path = Some bytes \<and> length ops \<le> MAX_OPS \<and>
        list_all2 (\<lambda>(l, s) op. parse_op l s = Inr op) (plan_lines 0 (chunks bytes)) ops)"
  by (auto simp: parse_plan_def parse_lines_Inr_iff split: option.splits)

lemma parse_plan_each:
  assumes "parse_plan fopen path = Inr ops" and "op \<in> set ops"
  shows "\<exists>l s. parse_op l s = Inr op"
proof -
  from assms(1) obtain bytes where
    "list_all2 (\<lambda>(l, s) op. parse_op l s = Inr op) (plan_lines 0 (chunks bytes)) ops"
    by (auto simp: parse_plan_Inr_iff)
  with assms(2) show ?thesis
    by (auto simp: list_all2_conv_all_nth in_set_conv_nth split: prod.splits) (metis surj_pair)
qed

subsection \<open>Properties\<close>




end
