(* ===== verification/Assert.thy ===== *)
theory Assert
  imports Prelude
begin

text \<open>
  The assertion macros of \<^verbatim>\<open>src/surgeon/compat/assert.h\<close>. A failing macro calls
  \<^verbatim>\<open>libspl_assertf\<close>, which is library code: what it is called with is the model's
  \<open>Report\<close>, and whether it returns is the parameter \<open>assert_ok\<close>, the flag
  \<^verbatim>\<open>libspl_set_assert_ok\<close> documents (non-zero avoids the abort).
\<close>

subsection \<open>What a failing assertion reports\<close>

datatype cmp_op = C_EQ | C_NE | C_LT | C_LE | C_GT | C_GE

datatype assert_msg =
    M_cond string
  | M_cmp string cmp_op string u64 u64
  | M_zero string u64
  | M_implies string string
  | M_equiv string string

datatype verdict = Pass | Report assert_msg

text \<open>Execution goes on after the macro when it passed, or when the library returns.\<close>

definition continues :: "bool \<Rightarrow> verdict \<Rightarrow> bool" where
  "continues assert_ok v \<longleftrightarrow> v = Pass \<or> assert_ok"

subsection \<open>The comparison operators\<close>

fun cmp_int :: "cmp_op \<Rightarrow> int \<Rightarrow> int \<Rightarrow> bool" where
  "cmp_int C_EQ a b = (a = b)"
| "cmp_int C_NE a b = (a \<noteq> b)"
| "cmp_int C_LT a b = (a < b)"
| "cmp_int C_LE a b = (a \<le> b)"
| "cmp_int C_GT a b = (a > b)"
| "cmp_int C_GE a b = (a \<ge> b)"

subsection \<open>VERIFY\<close>

definition VERIFY :: "bool \<Rightarrow> string \<Rightarrow> verdict" where
  "VERIFY cond text_cond = (if \<not> cond then Report (M_cond text_cond) else Pass)"

text \<open>
  \<^verbatim>\<open>VERIFY3B\<close> casts to \<^verbatim>\<open>boolean_t\<close>, an enumeration with the values 0 and 1 whose
  representation is a 32-bit unsigned integer; the cast keeps the low 32 bits.
\<close>

definition VERIFY3B :: "u64 \<Rightarrow> cmp_op \<Rightarrow> u64 \<Rightarrow> string \<Rightarrow> string \<Rightarrow> verdict" where
  "VERIFY3B l opr r ls rs =
    (let left = (ucast l :: u32); right = (ucast r :: u32)
     in if \<not> cmp_int opr (uint left) (uint right)
        then Report (M_cmp ls opr rs (ucast left) (ucast right)) else Pass)"

definition VERIFY3S :: "u64 \<Rightarrow> cmp_op \<Rightarrow> u64 \<Rightarrow> string \<Rightarrow> string \<Rightarrow> verdict" where
  "VERIFY3S l opr r ls rs =
    (if \<not> cmp_int opr (sint l) (sint r) then Report (M_cmp ls opr rs l r) else Pass)"

definition VERIFY3U :: "u64 \<Rightarrow> cmp_op \<Rightarrow> u64 \<Rightarrow> string \<Rightarrow> string \<Rightarrow> verdict" where
  "VERIFY3U l opr r ls rs =
    (if \<not> cmp_int opr (uint l) (uint r) then Report (M_cmp ls opr rs l r) else Pass)"

text \<open>\<^verbatim>\<open>uintptr_t\<close> is 64 bits wide on the LP64 targets.\<close>

definition VERIFY3P :: "u64 \<Rightarrow> cmp_op \<Rightarrow> u64 \<Rightarrow> string \<Rightarrow> string \<Rightarrow> verdict" where
  "VERIFY3P l opr r ls rs =
    (if \<not> cmp_int opr (uint l) (uint r) then Report (M_cmp ls opr rs l r) else Pass)"

definition VERIFY0 :: "u64 \<Rightarrow> string \<Rightarrow> verdict" where
  "VERIFY0 l ls = (if \<not> (l = 0) then Report (M_zero ls l) else Pass)"

definition VERIFY0P :: "u64 \<Rightarrow> string \<Rightarrow> verdict" where
  "VERIFY0P l ls = (if \<not> (l = 0) then Report (M_zero ls l) else Pass)"

subsection \<open>ASSERT: compiled out under NDEBUG\<close>

definition ASSERT3B :: "bool \<Rightarrow> u64 \<Rightarrow> cmp_op \<Rightarrow> u64 \<Rightarrow> string \<Rightarrow> string \<Rightarrow> verdict" where
  "ASSERT3B ndebug l opr r ls rs = (if ndebug then Pass else VERIFY3B l opr r ls rs)"

definition ASSERT3S :: "bool \<Rightarrow> u64 \<Rightarrow> cmp_op \<Rightarrow> u64 \<Rightarrow> string \<Rightarrow> string \<Rightarrow> verdict" where
  "ASSERT3S ndebug l opr r ls rs = (if ndebug then Pass else VERIFY3S l opr r ls rs)"

definition ASSERT3U :: "bool \<Rightarrow> u64 \<Rightarrow> cmp_op \<Rightarrow> u64 \<Rightarrow> string \<Rightarrow> string \<Rightarrow> verdict" where
  "ASSERT3U ndebug l opr r ls rs = (if ndebug then Pass else VERIFY3U l opr r ls rs)"

definition ASSERT3P :: "bool \<Rightarrow> u64 \<Rightarrow> cmp_op \<Rightarrow> u64 \<Rightarrow> string \<Rightarrow> string \<Rightarrow> verdict" where
  "ASSERT3P ndebug l opr r ls rs = (if ndebug then Pass else VERIFY3P l opr r ls rs)"

definition ASSERT0 :: "bool \<Rightarrow> u64 \<Rightarrow> string \<Rightarrow> verdict" where
  "ASSERT0 ndebug l ls = (if ndebug then Pass else VERIFY0 l ls)"

definition ASSERT0P :: "bool \<Rightarrow> u64 \<Rightarrow> string \<Rightarrow> verdict" where
  "ASSERT0P ndebug l ls = (if ndebug then Pass else VERIFY0P l ls)"

definition ASSERT :: "bool \<Rightarrow> bool \<Rightarrow> string \<Rightarrow> verdict" where
  "ASSERT ndebug cond text_cond = (if ndebug then Pass else VERIFY cond text_cond)"

definition IMPLY :: "bool \<Rightarrow> bool \<Rightarrow> bool \<Rightarrow> string \<Rightarrow> string \<Rightarrow> verdict" where
  "IMPLY ndebug a b ta tb =
    (if ndebug then Pass else if \<not> a \<or> b then Pass else Report (M_implies ta tb))"

definition EQUIV :: "bool \<Rightarrow> u64 \<Rightarrow> u64 \<Rightarrow> string \<Rightarrow> string \<Rightarrow> verdict" where
  "EQUIV ndebug a b ta tb =
    (if ndebug then Pass else if (a \<noteq> 0) = (b \<noteq> 0) then Pass else Report (M_equiv ta tb))"

subsection \<open>Facts\<close>

lemma VERIFY0_Pass [simp]: "VERIFY0 l ls = Pass \<longleftrightarrow> l = 0"
  by (simp add: VERIFY0_def)

lemma continues_VERIFY0 [simp]: "continues False (VERIFY0 l ls) \<longleftrightarrow> l = 0"
  by (simp add: continues_def)

lemma sint_lt_63: "sint (x :: u64) < 2 ^ 63" "- (2 ^ 63) \<le> sint x"
  using sint_lt [of x] sint_ge [of x] by simp_all

lemma uint_of_nonneg: "0 \<le> sint (x :: u64) \<Longrightarrow> uint x = sint x"
  using sint_lt_63 [of x] by (simp add: uint_sint take_bit_int_eq_self)

lemma uint_of_neg: "sint (x :: u64) < 0 \<Longrightarrow> uint x = sint x + 2 ^ 64"
proof -
  assume n: "sint x < 0"
  have "uint x = (sint x + 2 ^ 64) mod 2 ^ 64"
    by (simp add: uint_sint take_bit_eq_mod)
  also have "\<dots> = sint x + 2 ^ 64"
    using n sint_lt_63 [of x] by (intro mod_pos_pos_trivial) auto
  finally show ?thesis .
qed

text \<open>
  The signed and the unsigned assertion agree whenever both operands are non-negative as
  signed values; on a negative right operand they part: the unsigned macro sees a value of at
  least \<open>2 ^ 63\<close>, so its \<open><\<close> holds where the signed one reports.
\<close>

theorem verify3_signedness:
  assumes "0 \<le> sint l"
  shows "(0 \<le> sint r \<longrightarrow> VERIFY3S l opr r ls rs = VERIFY3U l opr r ls rs) \<and>
    (sint r < 0 \<longrightarrow> VERIFY3U l C_LT r ls rs = Pass \<and>
       VERIFY3S l C_LT r ls rs = Report (M_cmp ls C_LT rs l r))"
  using assms sint_lt_63 [of l] sint_lt_63 [of r]
  by (auto simp: VERIFY3S_def VERIFY3U_def uint_of_nonneg uint_of_neg)

theorem verify3_signedness_witness:
  "VERIFY3S 3 C_LE 5 ''a'' ''b'' = VERIFY3U 3 C_LE 5 ''a'' ''b'' \<and>
   VERIFY3U 0 C_LT (- 1) ''a'' ''b'' = Pass \<and>
   VERIFY3S 0 C_LT (- 1) ''a'' ''b'' = Report (M_cmp ''a'' C_LT ''b'' 0 (- 1))"
  using verify3_signedness [of 3 5 C_LE "''a''" "''b''"]
    verify3_signedness [of 0 "- 1" C_LE "''a''" "''b''"]
  by simp

end
