(* ===== verification/Libzpool.thy ===== *)
theory Libzpool
  imports Prelude
begin

text \<open>
  The part of libzpool the surgeon calls on the Meta Object Set. libzpool is not part of the
  repository, so each entry point is a field of a record the surgeon's definitions take as an
  argument, over an arbitrary type \<open>'m\<close> of MOS states. What the surgeon relies on is the
  locale \<open>mos_contract\<close>: the documented behaviour of the ZAP and DMU calls (a lookup after
  an update returns the words written, an update of one entry leaves the others alone, a freed
  object is gone). Theory \<open>MosStore\<close> interprets it.
\<close>

subsection \<open>The entry points\<close>

text \<open>
  Each call returns an errno value, 0 for success. A lookup asks for at most \<open>n\<close> 64-bit
  integers and returns the words it wrote to the caller's buffer. A held bonus buffer is seen
  through the one field the surgeon reads and writes, \<^verbatim>\<open>ds_num_children\<close>. The type table
  \<^verbatim>\<open>dmu_ot\<close> has \<open>numtypes\<close> entries.
\<close>

record 'm mos_ops =
  zap_lookup :: "'m \<Rightarrow> u64 \<Rightarrow> string \<Rightarrow> nat \<Rightarrow> c_int \<times> u64 list"
  zap_update :: "'m \<Rightarrow> u64 \<Rightarrow> string \<Rightarrow> u64 list \<Rightarrow> c_int \<times> 'm"
  zap_remove :: "'m \<Rightarrow> u64 \<Rightarrow> string \<Rightarrow> c_int \<times> 'm"
  dmu_bonus_hold :: "'m \<Rightarrow> u64 \<Rightarrow> c_int \<times> u64"
  set_num_children :: "'m \<Rightarrow> u64 \<Rightarrow> u64 \<Rightarrow> 'm"
  dmu_object_info :: "'m \<Rightarrow> u64 \<Rightarrow> c_int \<times> nat"
  dmu_object_free :: "'m \<Rightarrow> u64 \<Rightarrow> c_int \<times> 'm"
  dmu_ot_name :: "nat \<Rightarrow> string"
  dmu_ot_numtypes :: nat

subsection \<open>What the surgeon relies on\<close>

text \<open>
  The laws speak of successful calls only: a failing call may leave any state behind, since the
  surgeon never goes on after one. Two entries are apart when their objects or their names
  differ.
\<close>

locale mos_contract =
  fixes Z :: "'m mos_ops"
  assumes lookup_update:
      "zap_update Z m ob k vs = (0, m') \<Longrightarrow> length vs \<le> n \<Longrightarrow> zap_lookup Z m' ob k n = (0, vs)"
    and lookup_update_other:
      "zap_update Z m ob k vs = (0, m') \<Longrightarrow> ob' \<noteq> ob \<or> k' \<noteq> k \<Longrightarrow>
         zap_lookup Z m' ob' k' n = zap_lookup Z m ob' k' n"
    and update_bonus:
      "zap_update Z m ob k vs = (0, m') \<Longrightarrow> dmu_bonus_hold Z m' ob' = dmu_bonus_hold Z m ob'"
    and update_info:
      "zap_update Z m ob k vs = (0, m') \<Longrightarrow> dmu_object_info Z m' ob' = dmu_object_info Z m ob'"
    and lookup_remove:
      "zap_remove Z m ob k = (0, m') \<Longrightarrow> fst (zap_lookup Z m' ob k n) = ENOENT"
    and remove_ENOENT:
      "zap_remove Z m ob k = (ENOENT, m') \<Longrightarrow> m' = m \<and> fst (zap_lookup Z m ob k n) = ENOENT"
    and lookup_remove_other:
      "zap_remove Z m ob k = (0, m') \<Longrightarrow> ob' \<noteq> ob \<or> k' \<noteq> k \<Longrightarrow>
         zap_lookup Z m' ob' k' n = zap_lookup Z m ob' k' n"
    and remove_bonus:
      "zap_remove Z m ob k = (0, m') \<Longrightarrow> dmu_bonus_hold Z m' ob' = dmu_bonus_hold Z m ob'"
    and remove_info:
      "zap_remove Z m ob k = (0, m') \<Longrightarrow> dmu_object_info Z m' ob' = dmu_object_info Z m ob'"
    and bonus_set:
      "dmu_bonus_hold Z m ob = (0, c) \<Longrightarrow> dmu_bonus_hold Z (set_num_children Z m ob v) ob = (0, v)"
    and bonus_set_other:
      "ob' \<noteq> ob \<Longrightarrow>
         dmu_bonus_hold Z (set_num_children Z m ob v) ob' = dmu_bonus_hold Z m ob'"
    and bonus_set_lookup:
      "zap_lookup Z (set_num_children Z m ob v) ob' k n = zap_lookup Z m ob' k n"
    and bonus_set_info:
      "dmu_object_info Z (set_num_children Z m ob v) ob' = dmu_object_info Z m ob'"
    and free_info:
      "dmu_object_free Z m ob = (0, m') \<Longrightarrow> fst (dmu_object_info Z m' ob) = ENOENT"
    and free_ENOENT:
      "dmu_object_free Z m ob = (ENOENT, m') \<Longrightarrow>
         m' = m \<and> fst (dmu_object_info Z m ob) = ENOENT"
    and free_info_other:
      "dmu_object_free Z m ob = (0, m') \<Longrightarrow> ob' \<noteq> ob \<Longrightarrow>
         dmu_object_info Z m' ob' = dmu_object_info Z m ob'"
    and free_lookup_other:
      "dmu_object_free Z m ob = (0, m') \<Longrightarrow> ob' \<noteq> ob \<Longrightarrow>
         zap_lookup Z m' ob' k n = zap_lookup Z m ob' k n"
    and free_bonus_other:
      "dmu_object_free Z m ob = (0, m') \<Longrightarrow> ob' \<noteq> ob \<Longrightarrow>
         dmu_bonus_hold Z m' ob' = dmu_bonus_hold Z m ob'"
begin

lemmas update_laws = lookup_update lookup_update_other update_bonus update_info

lemmas remove_laws = lookup_remove lookup_remove_other remove_bonus remove_info

lemmas bonus_laws = bonus_set bonus_set_other bonus_set_lookup bonus_set_info

lemmas free_laws = free_info free_info_other free_lookup_other free_bonus_other

end

end
