(* ===== verification/Surgery.thy ===== *)
theory Surgery
  imports Plan Assert Libzpool
begin

text \<open>
  The surgeon's work on the MOS (\<^verbatim>\<open>src/surgeon/zhaxx.c\<close>): \<^verbatim>\<open>type_name_matches\<close>, the
  precondition check \<^verbatim>\<open>check_op\<close> with the diagnostics it prints, and the two-pass sync
  task \<^verbatim>\<open>apply_sync\<close>. Every definition takes the libzpool entry points \<open>Z\<close>. The lemmas
  show that the check decides what its comments say, that the first pass runs to the end or
  stops before any write, and, under \<open>mos_contract\<close>, what each operation establishes and
  what it leaves alone.
\<close>

subsection \<open>Types by name\<close>

definition type_name_matches :: "'m mos_ops \<Rightarrow> nat \<Rightarrow> string \<Rightarrow> bool" where
  "type_name_matches Z t name =
    (if t \<ge> dmu_ot_numtypes Z then False else strcaseeq (dmu_ot_name Z t) name)"

subsection \<open>Diagnostics\<close>

text \<open>One constructor per message \<^verbatim>\<open>check_op\<close> prints, with the values it prints.\<close>

datatype diag =
    D_check string
  | D_absent
  | D_lookup_fail u64 string c_int
  | D_value_fail string u64 u64
  | D_value_ok string u64
  | D_zero_absent
  | D_zero_fail string c_int
  | D_zero_ok string u64 u64
  | D_hold_fail u64 c_int
  | D_children_fail u64 u64
  | D_children_ok u64
  | D_freed
  | D_info_fail u64 c_int
  | D_type_fail u64 string nat string
  | D_type_ok u64 string

definition say :: "bool \<Rightarrow> diag \<Rightarrow> diag list" where
  "say quiet d = (if quiet then [] else [d])"

text \<open>The words a lookup left in a zeroed buffer of \<open>n\<close> words.\<close>

definition buf_word :: "u64 list \<Rightarrow> nat \<Rightarrow> u64" where
  "buf_word vs i = (if i < length vs then vs ! i else 0)"

subsection \<open>check\_op\<close>

definition check_op :: "'m mos_ops \<Rightarrow> 'm \<Rightarrow> op_t \<Rightarrow> bool \<Rightarrow> bool \<times> diag list" where
  "check_op Z mos op quiet =
    (let label = say quiet (D_check (op_raw op)) in
     case op_kind op of
       OP_ZAP_SET \<Rightarrow>
         (let (err, vs) = zap_lookup Z mos (op_obj op) (op_key op) 1; cur = buf_word vs 0 in
          if err \<noteq> 0 then (False, label @ [D_lookup_fail (op_obj op) (op_key op) err])
          else if op_has_expect op \<and> cur \<noteq> op_expect op
               then (False, label @ [D_value_fail (op_key op) cur (op_expect op)])
          else (True, label @ say quiet (D_value_ok (op_key op) cur)))
     | OP_ZAP_REMOVE \<Rightarrow>
         (let (err, vs) = zap_lookup Z mos (op_obj op) (op_key op) 1; cur = buf_word vs 0 in
          if err = ENOENT then (True, label @ say quiet D_absent)
          else if err \<noteq> 0 then (False, label @ [D_lookup_fail (op_obj op) (op_key op) err])
          else if op_has_expect op \<and> cur \<noteq> op_expect op
               then (False, label @ [D_value_fail (op_key op) cur (op_expect op)])
          else (True, label @ say quiet (D_value_ok (op_key op) cur)))
     | OP_ZAP_ZERO \<Rightarrow>
         (let (err, vs) = zap_lookup Z mos (op_obj op) (op_key op) (op_count op) in
          if err = ENOENT then (True, label @ say quiet D_zero_absent)
          else if err \<noteq> 0 then (False, label @ [D_zero_fail (op_key op) err])
          else (True, label @ say quiet (D_zero_ok (op_key op) (buf_word vs 0) (buf_word vs 1))))
     | OP_BONUS_SET \<Rightarrow>
         (let (err, cur) = dmu_bonus_hold Z mos (op_obj op) in
          if err \<noteq> 0 then (False, label @ [D_hold_fail (op_obj op) err])
          else if cur \<noteq> op_expect op then (False, label @ [D_children_fail cur (op_expect op)])
          else (True, label @ say quiet (D_children_ok cur)))
     | OP_FREE \<Rightarrow>
         (let (err, ty) = dmu_object_info Z mos (op_obj op) in
          if err = ENOENT then (True, label @ say quiet D_freed)
          else if err \<noteq> 0 then (False, label @ [D_info_fail (op_obj op) err])
          else if \<not> type_name_matches Z ty (op_type op)
               then (False, label @ [D_type_fail (op_obj op)
                       (if ty < dmu_ot_numtypes Z then dmu_ot_name Z ty else ''?'') ty (op_type op)])
          else (True, label @ say quiet (D_type_ok (op_obj op) (op_type op)))))"

text \<open>The verdict alone.\<close>

definition op_ok :: "'m mos_ops \<Rightarrow> 'm \<Rightarrow> op_t \<Rightarrow> bool" where
  "op_ok Z mos op = fst (check_op Z mos op True)"

subsection \<open>The sync task\<close>

text \<open>The \<^verbatim>\<open>switch\<close> of the second pass: the error and the MOS after one operation.\<close>

definition apply_op :: "'m mos_ops \<Rightarrow> 'm \<Rightarrow> op_t \<Rightarrow> c_int \<times> 'm" where
  "apply_op Z mos op =
    (case op_kind op of
       OP_ZAP_SET \<Rightarrow> zap_update Z mos (op_obj op) (op_key op) [op_value op]
     | OP_ZAP_ZERO \<Rightarrow> zap_update Z mos (op_obj op) (op_key op) (replicate (op_count op) 0)
     | OP_ZAP_REMOVE \<Rightarrow>
         (let (err, mos') = zap_remove Z mos (op_obj op) (op_key op)
          in (if err = ENOENT then 0 else err, mos'))
     | OP_BONUS_SET \<Rightarrow>
         (let (err, _) = dmu_bonus_hold Z mos (op_obj op)
          in if err = 0 then (err, set_num_children Z mos (op_obj op) (op_value op))
             else (err, mos))
     | OP_FREE \<Rightarrow>
         (let (err, mos') = dmu_object_free Z mos (op_obj op)
          in (if err = ENOENT then 0 else err, mos')))"

text \<open>What the sync task prints, besides the check's own failure messages.\<close>

datatype sync_msg =
    S_pass1
  | S_failed nat string
  | S_check diag
  | S_pass2
  | S_op nat string c_int
  | S_done

text \<open>A run of the task: the messages, and the MOS with whether the process was aborted.\<close>

datatype 'm sync_run = Sync (aborted: bool) (sync_mos: 'm) (sync_log: "sync_msg list")

fun pass1 :: "'m mos_ops \<Rightarrow> bool \<Rightarrow> 'm \<Rightarrow> nat \<Rightarrow> op_t list \<Rightarrow> bool \<times> sync_msg list" where
  "pass1 Z assert_ok mos i [] = (True, [])"
| "pass1 Z assert_ok mos i (op # ops) =
    (let (ok, ds) = check_op Z mos op True; log = map S_check ds in
     if ok then
       (let (go, log') = pass1 Z assert_ok mos (Suc i) ops in (go, log @ log'))
     else if continues assert_ok (VERIFY0 1 ''1'') then
       (let (go, log') = pass1 Z assert_ok mos (Suc i) ops
        in (go, log @ S_failed i (op_raw op) # log'))
     else (False, log @ [S_failed i (op_raw op)]))"

fun pass2 :: "'m mos_ops \<Rightarrow> bool \<Rightarrow> 'm \<Rightarrow> nat \<Rightarrow> op_t list \<Rightarrow> 'm sync_run" where
  "pass2 Z assert_ok mos i [] = Sync False mos [S_done]"
| "pass2 Z assert_ok mos i (op # ops) =
    (let (err, mos') = apply_op Z mos op; msg = S_op i (op_raw op) err in
     if continues assert_ok (VERIFY0 (scast err) ''err'') then
       (case pass2 Z assert_ok mos' (Suc i) ops of Sync a m log \<Rightarrow> Sync a m (msg # log))
     else Sync True mos' [msg])"

definition apply_sync :: "'m mos_ops \<Rightarrow> bool \<Rightarrow> op_t list \<Rightarrow> 'm \<Rightarrow> 'm sync_run" where
  "apply_sync Z assert_ok g_ops mos =
    (let (go, log) = pass1 Z assert_ok mos 0 g_ops in
     if \<not> go then Sync True mos (S_pass1 # log)
     else (case pass2 Z assert_ok mos 0 g_ops of
             Sync a m log' \<Rightarrow> Sync a m (S_pass1 # log @ S_pass2 # log')))"

subsection \<open>The check\<close>

lemma say_quiet [simp]: "say True d = []" "say False d = [d]"
  by (simp_all add: say_def)

lemma check_op_verdict: "fst (check_op Z mos op quiet) = op_ok Z mos op"
  by (cases "op_kind op") (auto simp: check_op_def op_ok_def Let_def split: prod.splits)

text \<open>What the verdict means, kind by kind.\<close>

definition entry_now :: "'m mos_ops \<Rightarrow> 'm \<Rightarrow> op_t \<Rightarrow> bool" where
  "entry_now Z mos op \<longleftrightarrow>
     (\<exists>vs. zap_lookup Z mos (op_obj op) (op_key op) 1 = (0, vs) \<and>
        (op_has_expect op \<longrightarrow> buf_word vs 0 = op_expect op))"

lemma op_ok_iff:
  "op_ok Z mos op \<longleftrightarrow>
    (case op_kind op of
       OP_ZAP_SET \<Rightarrow> entry_now Z mos op
     | OP_ZAP_REMOVE \<Rightarrow>
         fst (zap_lookup Z mos (op_obj op) (op_key op) 1) = ENOENT \<or> entry_now Z mos op
     | OP_ZAP_ZERO \<Rightarrow> fst (zap_lookup Z mos (op_obj op) (op_key op) (op_count op)) \<in> {0, ENOENT}
     | OP_BONUS_SET \<Rightarrow> dmu_bonus_hold Z mos (op_obj op) = (0, op_expect op)
     | OP_FREE \<Rightarrow> fst (dmu_object_info Z mos (op_obj op)) = ENOENT \<or>
         (\<exists>ty. dmu_object_info Z mos (op_obj op) = (0, ty) \<and> type_name_matches Z ty (op_type op)))"
  by (cases "op_kind op")
    (auto simp: op_ok_def check_op_def entry_now_def Let_def errno_simps split: prod.splits)

text \<open>The messages that report a failed check.\<close>

fun is_failure :: "diag \<Rightarrow> bool" where
  "is_failure (D_lookup_fail _ _ _) = True"
| "is_failure (D_value_fail _ _ _) = True"
| "is_failure (D_zero_fail _ _) = True"
| "is_failure (D_hold_fail _ _) = True"
| "is_failure (D_children_fail _ _) = True"
| "is_failure (D_info_fail _ _) = True"
| "is_failure (D_type_fail _ _ _ _) = True"
| "is_failure _ = False"

text \<open>
  The verdict of \<^verbatim>\<open>check_op\<close> does not depend on \<^verbatim>\<open>quiet\<close>; a failed check prints
  exactly one failure message whether quiet or not, a passed one none, and a quiet passed
  check prints nothing at all.
\<close>

theorem check_op_messages:
  "fst (check_op Z mos op quiet) = fst (check_op Z mos op True) \<and>
   length (filter is_failure (snd (check_op Z mos op quiet))) =
     (if fst (check_op Z mos op quiet) then 0 else 1) \<and>
   snd (check_op Z mos op True) = filter is_failure (snd (check_op Z mos op quiet))"
  by (cases "op_kind op"; cases quiet) (auto simp: check_op_def Let_def split: prod.splits)

subsection \<open>The first pass\<close>

lemma pass1_go: "fst (pass1 Z False mos i ops) \<longleftrightarrow> (\<forall>op \<in> set ops. op_ok Z mos op)"
  by (induction ops arbitrary: i) (auto simp: op_ok_def Let_def case_prod_beta)

text \<open>If the assertion library returned, the pass would never stop the task.\<close>

lemma pass1_go_assert_ok: "fst (pass1 Z True mos i ops)"
  by (induction ops arbitrary: i) (auto simp: continues_def Let_def case_prod_beta)

subsection \<open>The second pass\<close>

text \<open>The operations applied in order, stopping at the first error: its number, and the MOS.\<close>

fun apply_ops :: "'m mos_ops \<Rightarrow> 'm \<Rightarrow> op_t list \<Rightarrow> bool \<times> 'm" where
  "apply_ops Z mos [] = (True, mos)"
| "apply_ops Z mos (op # ops) =
    (case apply_op Z mos op of (err, mos') \<Rightarrow>
       if err = 0 then apply_ops Z mos' ops else (False, mos'))"

lemma pass2_apply_ops:
  "pass2 Z False mos i ops = Sync a m log \<Longrightarrow> apply_ops Z mos ops = (\<not> a, m)"
  by (induction ops arbitrary: i mos log)
    (auto simp: Let_def split: prod.splits if_splits sync_run.splits)

lemma pass2_no_abort_assert_ok: "\<not> aborted (pass2 Z True mos i ops)"
  by (induction ops arbitrary: i mos)
    (auto simp: Let_def continues_def case_prod_beta split: sync_run.split, metis sync_run.sel(1))

subsection \<open>All or nothing\<close>

lemma apply_sync_cases:
  "aborted (apply_sync Z False ops mos) = (\<not> (\<forall>op \<in> set ops. op_ok Z mos op) \<or>
     \<not> fst (apply_ops Z mos ops))"
  "sync_mos (apply_sync Z False ops mos) =
     (if \<forall>op \<in> set ops. op_ok Z mos op then snd (apply_ops Z mos ops) else mos)"
proof -
  obtain go log where p1: "pass1 Z False mos 0 ops = (go, log)" by force
  have go: "go \<longleftrightarrow> (\<forall>op \<in> set ops. op_ok Z mos op)"
    using pass1_go [of Z mos 0 ops] p1 by simp
  obtain a m log2 where p2: "pass2 Z False mos 0 ops = Sync a m log2"
    by (metis sync_run.exhaust)
  have ap: "apply_ops Z mos ops = (\<not> a, m)" using pass2_apply_ops [OF p2] .
  show "aborted (apply_sync Z False ops mos) = (\<not> (\<forall>op \<in> set ops. op_ok Z mos op) \<or>
     \<not> fst (apply_ops Z mos ops))"
    using go by (simp add: apply_sync_def p1 p2 ap)
  show "sync_mos (apply_sync Z False ops mos) =
     (if \<forall>op \<in> set ops. op_ok Z mos op then snd (apply_ops Z mos ops) else mos)"
    using go by (simp add: apply_sync_def p1 p2 ap)
qed


text \<open>
  The guarantee rests on the assertion being fatal: were \<^verbatim>\<open>libspl_assertf\<close> to return,
  the task would never stop, and would apply the operations whatever the checks said.
\<close>

theorem apply_sync_needs_fatal_assert:
  "\<not> aborted (apply_sync Z True ops mos) \<and>
   sync_mos (apply_sync Z True ops mos) = fold (\<lambda>op m. snd (apply_op Z m op)) ops mos"
proof -
  obtain a m log where p2: "pass2 Z True mos 0 ops = Sync a m log" by (metis sync_run.exhaust)
  have "\<not> a" using pass2_no_abort_assert_ok [of Z mos 0 ops] p2 by simp
  moreover have "sync_mos (pass2 Z True mos i ops) = fold (\<lambda>op m. snd (apply_op Z m op)) ops mos"
    for i mos
    by (induction ops arbitrary: i mos)
      (auto simp: Let_def continues_def case_prod_beta split: sync_run.split, metis sync_run.sel(2))
  ultimately show ?thesis
    using p2 pass1_go_assert_ok [of Z mos 0 ops]
    by (auto simp: apply_sync_def Let_def case_prod_beta) (metis sync_run.sel(2))
qed

subsection \<open>What an operation establishes and what it leaves alone\<close>

text \<open>The goal of each operation, as a later reader of the MOS sees it.\<close>

definition op_post :: "'m mos_ops \<Rightarrow> 'm \<Rightarrow> op_t \<Rightarrow> bool" where
  "op_post Z mos op =
    (case op_kind op of
       OP_ZAP_SET \<Rightarrow> zap_lookup Z mos (op_obj op) (op_key op) 1 = (0, [op_value op])
     | OP_ZAP_ZERO \<Rightarrow>
         zap_lookup Z mos (op_obj op) (op_key op) (op_count op) = (0, replicate (op_count op) 0)
     | OP_ZAP_REMOVE \<Rightarrow> fst (zap_lookup Z mos (op_obj op) (op_key op) 1) = ENOENT
     | OP_BONUS_SET \<Rightarrow> dmu_bonus_hold Z mos (op_obj op) = (0, op_value op)
     | OP_FREE \<Rightarrow> fst (dmu_object_info Z mos (op_obj op)) = ENOENT)"

text \<open>The part of the MOS an operation works on.\<close>

datatype target = T_entry u64 string | T_bonus u64 | T_object u64

definition op_target :: "op_t \<Rightarrow> target" where
  "op_target op =
    (case op_kind op of
       OP_ZAP_SET \<Rightarrow> T_entry (op_obj op) (op_key op)
     | OP_ZAP_ZERO \<Rightarrow> T_entry (op_obj op) (op_key op)
     | OP_ZAP_REMOVE \<Rightarrow> T_entry (op_obj op) (op_key op)
     | OP_BONUS_SET \<Rightarrow> T_bonus (op_obj op)
     | OP_FREE \<Rightarrow> T_object (op_obj op))"

fun apart :: "target \<Rightarrow> target \<Rightarrow> bool" where
  "apart (T_entry a k) (T_entry b l) \<longleftrightarrow> a \<noteq> b \<or> k \<noteq> l"
| "apart (T_entry a k) (T_bonus b) \<longleftrightarrow> True"
| "apart (T_entry a k) (T_object b) \<longleftrightarrow> a \<noteq> b"
| "apart (T_bonus a) (T_entry b l) \<longleftrightarrow> True"
| "apart (T_bonus a) (T_bonus b) \<longleftrightarrow> a \<noteq> b"
| "apart (T_bonus a) (T_object b) \<longleftrightarrow> a \<noteq> b"
| "apart (T_object a) (T_entry b l) \<longleftrightarrow> a \<noteq> b"
| "apart (T_object a) (T_bonus b) \<longleftrightarrow> a \<noteq> b"
| "apart (T_object a) (T_object b) \<longleftrightarrow> a \<noteq> b"

definition independent :: "op_t \<Rightarrow> op_t \<Rightarrow> bool" where
  "independent a b \<longleftrightarrow> apart (op_target a) (op_target b)"

text \<open>All that a later check or goal of an operation can see of the MOS.\<close>

definition same_view :: "'m mos_ops \<Rightarrow> target \<Rightarrow> 'm \<Rightarrow> 'm \<Rightarrow> bool" where
  "same_view Z t m m' =
    (case t of
       T_entry ob k \<Rightarrow> zap_lookup Z m' ob k = zap_lookup Z m ob k
     | T_bonus ob \<Rightarrow> dmu_bonus_hold Z m' ob = dmu_bonus_hold Z m ob
     | T_object ob \<Rightarrow> dmu_object_info Z m' ob = dmu_object_info Z m ob)"

lemma same_view_refl [simp]: "same_view Z t m m"
  by (cases t) (simp_all add: same_view_def)

lemma same_view_trans: "same_view Z t a b \<Longrightarrow> same_view Z t b c \<Longrightarrow> same_view Z t a c"
  by (cases t) (simp_all add: same_view_def)

lemma same_view_op_ok: "same_view Z (op_target op) m m' \<Longrightarrow> op_ok Z m' op = op_ok Z m op"
  by (cases "op_kind op") (simp_all add: same_view_def op_target_def op_ok_iff entry_now_def)

lemma same_view_op_post: "same_view Z (op_target op) m m' \<Longrightarrow> op_post Z m' op = op_post Z m op"
  by (cases "op_kind op") (simp_all add: same_view_def op_target_def op_post_def)

context mos_contract
begin

lemma apply_op_post:
  assumes "apply_op Z m op = (0, m')"
  shows "op_post Z m' op"
proof (cases "op_kind op")
  case OP_ZAP_SET
  with assms show ?thesis by (simp add: apply_op_def op_post_def lookup_update)
next
  case OP_ZAP_ZERO
  with assms show ?thesis by (simp add: apply_op_def op_post_def lookup_update)
next
  case OP_ZAP_REMOVE
  with assms show ?thesis
    by (auto simp: apply_op_def op_post_def lookup_remove dest: remove_ENOENT
        split: prod.splits if_splits)
next
  case OP_BONUS_SET
  with assms show ?thesis
    by (auto simp: apply_op_def op_post_def bonus_set split: prod.splits if_splits)
next
  case OP_FREE
  with assms show ?thesis
    by (auto simp: apply_op_def op_post_def free_info dest: free_ENOENT
        split: prod.splits if_splits)
qed

lemma apply_op_frame:
  assumes "apply_op Z m op = (0, m')" and "apart (op_target op) t"
  shows "same_view Z t m m'"
proof (cases "op_kind op")
  case OP_ZAP_SET
  with assms show ?thesis
    by (cases t) (auto simp: apply_op_def same_view_def op_target_def update_laws)
next
  case OP_ZAP_ZERO
  with assms show ?thesis
    by (cases t) (auto simp: apply_op_def same_view_def op_target_def update_laws)
next
  case OP_ZAP_REMOVE
  with assms show ?thesis
    by (cases t)
      (auto simp: apply_op_def same_view_def op_target_def remove_laws dest!: remove_ENOENT
        split: prod.splits if_splits)
next
  case OP_BONUS_SET
  with assms show ?thesis
    by (cases t)
      (auto simp: apply_op_def same_view_def op_target_def bonus_laws split: prod.splits if_splits)
next
  case OP_FREE
  with assms show ?thesis
    by (cases t)
      (auto simp: apply_op_def same_view_def op_target_def free_laws dest!: free_ENOENT
        split: prod.splits if_splits)
qed

lemma apply_ops_frame:
  assumes "apply_ops Z m ops = (True, m')" and "\<forall>op \<in> set ops. apart (op_target op) t"
  shows "same_view Z t m m'"
  using assms
proof (induction ops arbitrary: m)
  case Nil
  then show ?case by simp
next
  case (Cons op ops)
  then obtain m1 where m1: "apply_op Z m op = (0, m1)" "apply_ops Z m1 ops = (True, m')"
    by (auto split: prod.splits if_splits)
  have "same_view Z t m m1" using m1(1) Cons.prems(2) by (intro apply_op_frame) auto
  moreover have "same_view Z t m1 m'" using m1(2) Cons.prems(2) by (intro Cons.IH) auto
  ultimately show ?case by (rule same_view_trans)
qed

lemma apply_ops_post:
  assumes "apply_ops Z m ops = (True, m')" and "sorted_wrt (\<lambda>a b. independent b a) ops"
  shows "\<forall>op \<in> set ops. op_post Z m' op"
  using assms
proof (induction ops arbitrary: m)
  case Nil
  then show ?case by simp
next
  case (Cons op ops)
  then obtain m1 where m1: "apply_op Z m op = (0, m1)" "apply_ops Z m1 ops = (True, m')"
    by (auto split: prod.splits if_splits)
  have "same_view Z (op_target op) m1 m'"
    using m1(2) Cons.prems(2) by (intro apply_ops_frame) (auto simp: independent_def)
  moreover have "op_post Z m1 op" using m1(1) by (rule apply_op_post)
  ultimately have "op_post Z m' op" by (simp add: same_view_op_post)
  moreover have "\<forall>op \<in> set ops. op_post Z m' op"
    using m1(2) Cons.prems(2) by (intro Cons.IH) auto
  ultimately show ?case by simp
qed

text \<open>Every prefix of an independent plan leaves the remaining preconditions as they were.\<close>

lemma apply_ops_still_ok:
  assumes "apply_ops Z m (done_ops @ op # rest) = (True, m')"
    and "sorted_wrt independent (done_ops @ op # rest)" and "op_ok Z m op"
  shows "\<exists>m1. apply_ops Z m done_ops = (True, m1) \<and> op_ok Z m1 op"
proof -
  have split_run: "\<exists>m1. apply_ops Z m xs = (True, m1)"
    if "apply_ops Z m (xs @ ys) = (True, m')" for xs ys m
    using that by (induction xs arbitrary: m) (auto split: prod.splits if_splits)
  obtain m1 where m1: "apply_ops Z m done_ops = (True, m1)"
    using split_run assms(1) by blast
  have "same_view Z (op_target op) m m1"
    using m1 assms(2) by (intro apply_ops_frame) (auto simp: independent_def sorted_wrt_append)
  with m1 assms(3) show ?thesis by (auto simp: same_view_op_ok)
qed

end

lemma apart_sym: "apart a b = apart b a"
  by (cases a; cases b) auto

lemma independent_sym: "independent a b = independent b a"
  by (simp add: independent_def apart_sym)

text \<open>A zapped or freed entry stays checkable: a plan of removals and frees can be run again.\<close>

lemma op_post_recheck:
  "op_post Z mos op \<Longrightarrow> op_kind op \<in> {OP_ZAP_REMOVE, OP_FREE, OP_ZAP_ZERO} \<Longrightarrow> op_ok Z mos op"
  by (auto simp: op_post_def op_ok_iff)

lemma op_post_recheck_fails:
  "op_post Z mos op \<Longrightarrow> op_kind op \<in> {OP_ZAP_SET, OP_BONUS_SET} \<Longrightarrow> op_has_expect op \<Longrightarrow>
     op_value op \<noteq> op_expect op \<Longrightarrow> \<not> op_ok Z mos op"
  by (auto simp: op_post_def op_ok_iff entry_now_def buf_word_def)

end
