(* ===== verification/PlanEmit.thy ===== *)
theory PlanEmit
  imports Plan
begin

text \<open>
  The plan the scanner writes (\<^verbatim>\<open>src/scan/zhaxx-scan\<close>): the five line formats its checks
  emit, the plan file written by its \<^verbatim>\<open>main\<close>, and the contract between the two tools.
  \<open>parse_op_emit\<close> and \<open>parse_plan_written\<close> show that the surgeon reads back exactly
  the operations the scanner meant, for every plan whose names stay inside the grammar
  (\<open>emit_ok\<close>); the last section shows what happens to a name that does not.
\<close>

subsection \<open>The lines the scanner prints\<close>

text \<open>Python's \<^verbatim>\<open>str\<close> of an integer.\<close>

definition py_str :: "int \<Rightarrow> string" where
  "py_str i = (if i < 0 then CHR ''-'' # dec (nat (- i)) else dec (nat i))"

text \<open>The operations the scanner plans, before they are printed.\<close>

datatype planned =
    P_zap_set nat string nat nat
  | P_zap_zero nat string nat
  | P_zap_remove nat string nat
  | P_bonus_set nat nat int
  | P_free nat string

fun emit_line :: "planned \<Rightarrow> string" where
  "emit_line (P_zap_set ob name ex v) =
     ''zap_set obj='' @ dec ob @ '' key='' @ name @ '' expect='' @ dec ex @ '' value='' @ dec v"
| "emit_line (P_zap_zero ob name c) =
     ''zap_zero obj='' @ dec ob @ '' key='' @ name @ '' count='' @ dec c"
| "emit_line (P_zap_remove ob name ex) =
     ''zap_remove obj='' @ dec ob @ '' key='' @ name @ '' expect='' @ dec ex"
| "emit_line (P_bonus_set ob nc v) =
     ''bonus_set obj='' @ dec ob @ '' field=ds_num_children expect='' @ dec nc @
     '' value='' @ py_str v"
| "emit_line (P_free ob ty) =
     ''free obj='' @ dec ob @ '' type='' @ [DQ] @ ty @ [DQ]"

text \<open>\<^verbatim>\<open>PlanOp\<close> and the plan file, whose first line holds a UTF-8 em dash.\<close>

record plan_op =
  po_line :: string
  po_comment :: string

definition plan_header :: string where
  "plan_header =
     ''# zhaxx repair plan '' @ [CHR 0xE2, CHR 0x80, CHR 0x94] @ '' generated by zhaxx-scan'' @ [NL] @
     ''# REVIEW EVERY LINE against the report before use.'' @ [NL] @
     ''# Every op re-verifies its expect= precondition atomically before any write.'' @ [NL]"

definition write_plan :: "plan_op list \<Rightarrow> string" where
  "write_plan ops =
     plan_header @
     concat (map (\<lambda>op. ''# '' @ po_comment op @ [NL] @ po_line op @ [NL]) ops)"

text \<open>The operation the scanner means by a planned line.\<close>

fun intended :: "planned \<Rightarrow> op_t" where
  "intended (P_zap_set ob name ex v) =
     op_zero\<lparr>op_kind := OP_ZAP_SET, op_obj := of_nat ob, op_key := name,
       op_expect := of_nat ex, op_has_expect := True, op_value := of_nat v,
       op_raw := emit_line (P_zap_set ob name ex v)\<rparr>"
| "intended (P_zap_zero ob name c) =
     op_zero\<lparr>op_kind := OP_ZAP_ZERO, op_obj := of_nat ob, op_key := name, op_count := c,
       op_raw := emit_line (P_zap_zero ob name c)\<rparr>"
| "intended (P_zap_remove ob name ex) =
     op_zero\<lparr>op_kind := OP_ZAP_REMOVE, op_obj := of_nat ob, op_key := name,
       op_expect := of_nat ex, op_has_expect := True,
       op_raw := emit_line (P_zap_remove ob name ex)\<rparr>"
| "intended (P_bonus_set ob nc v) =
     op_zero\<lparr>op_kind := OP_BONUS_SET, op_obj := of_nat ob, op_field := ''ds_num_children'',
       op_expect := of_nat nc, op_has_expect := True, op_value := of_int v,
       op_raw := emit_line (P_bonus_set ob nc v)\<rparr>"
| "intended (P_free ob ty) =
     op_zero\<lparr>op_kind := OP_FREE, op_obj := of_nat ob, op_type := ty,
       op_raw := emit_line (P_free ob ty)\<rparr>"

subsection \<open>Names inside the grammar\<close>

definition name_ok :: "string \<Rightarrow> bool" where
  "name_ok k \<longleftrightarrow>
     (\<forall>c \<in> set k. c \<noteq> SP \<and> c \<noteq> TAB \<and> c \<noteq> NL \<and> c \<noteq> NUL) \<and>
     (k = [] \<or> hd k \<noteq> DQ) \<and> length k < MAX_KEY \<and>
     strstr ''expect='' k = None \<and> strstr ''value='' k = None \<and> strstr ''count='' k = None"

definition type_ok :: "string \<Rightarrow> bool" where
  "type_ok t \<longleftrightarrow>
     DQ \<notin> set t \<and> NL \<notin> set t \<and> NUL \<notin> set t \<and> length t < MAX_TYPE \<and>
     strstr ''expect='' t = None"

fun emit_ok :: "planned \<Rightarrow> bool" where
  "emit_ok (P_zap_set ob name ex v) \<longleftrightarrow>
     ob < 2 ^ 64 \<and> ex < 2 ^ 64 \<and> v < 2 ^ 64 \<and> name_ok name"
| "emit_ok (P_zap_zero ob name c) \<longleftrightarrow>
     ob < 2 ^ 64 \<and> 0 < c \<and> c \<le> SCAN_MAX_WORDS \<and> name_ok name"
| "emit_ok (P_zap_remove ob name ex) \<longleftrightarrow> ob < 2 ^ 64 \<and> ex < 2 ^ 64 \<and> name_ok name"
| "emit_ok (P_bonus_set ob nc v) \<longleftrightarrow> ob < 2 ^ 64 \<and> nc < 2 ^ 64 \<and> 0 \<le> v \<and> v < 2 ^ 64"
| "emit_ok (P_free ob ty) \<longleftrightarrow> ob < 2 ^ 64 \<and> type_ok ty"

subsection \<open>Skipping printed fields\<close>

lemma dec_char_range: "c \<in> set (dec n) \<Longrightarrow> 48 \<le> (of_char c :: nat) \<and> (of_char c :: nat) \<le> 57"
  using dec_digits [of c n] by auto

lemma strstr_dec [c_string]:
  assumes "pat \<noteq> []" and "\<not> (48 \<le> (of_char (hd pat) :: nat) \<and> (of_char (hd pat) :: nat) \<le> 57)"
  shows "strstr pat (dec n @ s) = strstr pat s"
  using assms dec_char_range by (intro strstr_skip) blast+

lemma strstr_dec_end [c_string]:
  assumes "pat \<noteq> []" and "\<not> (48 \<le> (of_char (hd pat) :: nat) \<and> (of_char (hd pat) :: nat) \<le> 57)"
  shows "strstr pat (dec n) = None"
  using strstr_dec [OF assms, of n "[]"] assms(1) by simp

lemma strtoull_dec_sp [c_string]:
  "n < 2 ^ 64 \<Longrightarrow> strtoull (dec n @ SP # r) = Some (of_nat n, SP # r, False)"
  by (rule strtoull_dec) (simp_all add: is_digit_in_def digit_val_def)

lemma strtoull_dec_end [c_string]:
  "n < 2 ^ 64 \<Longrightarrow> strtoull (dec n) = Some (of_nat n, [], False)"
  using strtoull_dec [of n "[]"] by simp

lemma strstr_name [c_string]:
  "strstr pat k = None \<Longrightarrow> SP \<notin> set pat \<Longrightarrow> pat \<noteq> [] \<Longrightarrow>
     strstr pat (k @ SP # s) = strstr pat (SP # s)"
  by (rule strstr_skip_field)

lemma strstr_quoted [c_string]:
  "strstr pat t = None \<Longrightarrow> DQ \<notin> set pat \<Longrightarrow> pat \<noteq> [] \<Longrightarrow>
     strstr pat (t @ [DQ]) = strstr pat [DQ]"
  by (rule strstr_skip_field)

lemma count_word:
  assumes "0 < c" and "c \<le> SCAN_MAX_WORDS"
  shows "(of_nat c :: u64) \<noteq> 0" "\<not> (of_nat c :: u64) > of_nat SCAN_MAX_WORDS"
    "unat (of_nat c :: u64) = c" "c < 2 ^ 64"
proof -
  show lt: "c < 2 ^ 64" using assms by (simp add: SCAN_MAX_WORDS_def)
  then show u: "unat (of_nat c :: u64) = c" by (simp add: unat_of_nat)
  then show "(of_nat c :: u64) \<noteq> 0" using assms(1) by (metis less_numeral_extra(3) unat_0)
  show "\<not> (of_nat c :: u64) > of_nat SCAN_MAX_WORDS"
    using assms(2) u by (simp add: SCAN_MAX_WORDS_def word_less_nat_alt)
qed

lemma copy_ds_num_children:
  "copy_value (''ds_num_children'' @ SP # r) MAX_KEY = Some ''ds_num_children''"
  by (rule copy_value_bare) (simp_all add: MAX_KEY_def)

lemmas parse_op_eval = parse_op_def kv_u64_def kv_str_def op_zero_def c_string

subsection \<open>One line, printed and parsed\<close>

lemma parse_op_emit_raw:
  assumes "emit_ok p"
  shows "parse_op l (emit_line p) = Inr ((intended p)\<lparr>op_raw := take 511 (emit_line p)\<rparr>)"
proof (cases p)
  case (P_zap_set ob name ex v)
  with assms show ?thesis by (simp add: parse_op_eval copy_value_bare name_ok_def)
next
  case (P_zap_zero ob name c)
  with assms count_word [of c] show ?thesis
    by (simp add: parse_op_eval copy_value_bare name_ok_def)
next
  case (P_zap_remove ob name ex)
  with assms show ?thesis by (simp add: parse_op_eval copy_value_bare name_ok_def)
next
  case (P_bonus_set ob nc v)
  then have "nat v < 2 ^ 64" "(of_nat (nat v) :: u64) = of_int v" "\<not> v < 0"
    using assms by auto
  with P_bonus_set assms copy_ds_num_children [simplified] show ?thesis
    by (simp add: parse_op_eval py_str_def)
next
  case (P_free ob ty)
  with assms show ?thesis by (simp add: parse_op_eval copy_value_quoted type_ok_def)
qed

text \<open>Every line inside the grammar fits the surgeon's 512-byte buffer with its newline.\<close>

lemma length_dec: "n < 10 ^ Suc k \<Longrightarrow> length (dec n) \<le> Suc k"
proof (induction k arbitrary: n)
  case 0
  then show ?case by (subst dec.simps) simp
next
  case (Suc k)
  show ?case
  proof (cases "n < 10")
    case True
    then show ?thesis by (subst dec.simps) simp
  next
    case False
    have "n div 10 < 10 ^ Suc k" using Suc.prems by (simp add: div_less_iff_less_mult)
    from Suc.IH [OF this] False show ?thesis by (subst dec.simps) simp
  qed
qed

lemma length_dec_u64: "n < 2 ^ 64 \<Longrightarrow> length (dec n) \<le> 20"
  using length_dec [of n 19] by simp

lemma emit_line_length: "emit_ok p \<Longrightarrow> length (emit_line p) \<le> 510"
proof (cases p)
  case (P_zap_set ob name ex v)
  assume "emit_ok p"
  with P_zap_set length_dec_u64 [of ob] length_dec_u64 [of ex] length_dec_u64 [of v]
  show ?thesis by (simp add: name_ok_def MAX_KEY_def)
next
  case (P_zap_zero ob name c)
  assume "emit_ok p"
  with P_zap_zero length_dec_u64 [of ob] length_dec_u64 [of c] count_word(4) [of c]
  show ?thesis by (simp add: name_ok_def MAX_KEY_def)
next
  case (P_zap_remove ob name ex)
  assume "emit_ok p"
  with P_zap_remove length_dec_u64 [of ob] length_dec_u64 [of ex]
  show ?thesis by (simp add: name_ok_def MAX_KEY_def)
next
  case (P_bonus_set ob nc v)
  assume "emit_ok p"
  moreover have "nat v < 2 ^ 64" using calculation P_bonus_set by auto
  ultimately show ?thesis
    using P_bonus_set length_dec_u64 [of ob] length_dec_u64 [of nc] length_dec_u64 [of "nat v"]
    by (simp add: py_str_def)
next
  case (P_free ob ty)
  assume "emit_ok p"
  with P_free length_dec_u64 [of ob] show ?thesis by (simp add: type_ok_def MAX_TYPE_def)
qed

lemma intended_raw [simp]: "(intended p)\<lparr>op_raw := emit_line p\<rparr> = intended p"
  by (cases p) simp_all

lemma parse_op_emit: "emit_ok p \<Longrightarrow> parse_op l (emit_line p) = Inr (intended p)"
  using parse_op_emit_raw [of p l] emit_line_length [of p] by simp

subsection \<open>The whole file, written and parsed\<close>

definition comment_ok :: "string \<Rightarrow> bool" where
  "comment_ok c \<longleftrightarrow> NL \<notin> set c \<and> length c \<le> 508"

definition plan_of :: "(planned \<times> string) list \<Rightarrow> plan_op list" where
  "plan_of pcs = map (\<lambda>(p, c). \<lparr>po_line = emit_line p, po_comment = c\<rparr>) pcs"

lemma dec_not_special: "c \<in> set (dec n) \<Longrightarrow> c \<noteq> NL \<and> c \<noteq> NUL \<and> c \<noteq> SP \<and> c \<noteq> TAB"
  using dec_char_range [of c n] by auto

lemma emit_line_clean: "emit_ok p \<Longrightarrow> NL \<notin> set (emit_line p) \<and> NUL \<notin> set (emit_line p)"
  by (cases p) (auto simp: name_ok_def type_ok_def py_str_def dest: dec_not_special)

lemma emit_line_starts: "\<exists>c r. emit_line p = c # r \<and> c \<in> {CHR ''z'', CHR ''b'', CHR ''f''}"
  by (cases p) auto

lemma skip_blanks_emit: "emit_ok p \<Longrightarrow> skip_blanks (emit_line p @ [NL]) = emit_line p @ [NL]"
  using emit_line_starts [of p] emit_line_clean [of p]
  by (auto simp: skip_blanks_def c_view_id)

lemma cut_newline_emit: "emit_ok p \<Longrightarrow> cut_newline (emit_line p @ [NL]) = emit_line p"
  using emit_line_clean [of p] unfolding cut_newline_def by (intro takeWhile_append_stop) auto

text \<open>One step of the read loop on a comment line and on a plan line.\<close>

lemma parse_lines_comment:
  assumes "NL \<notin> set c" and "length c \<le> 509"
  shows "parse_lines n g ((CHR ''#'' # c) @ NL # rest) = parse_lines (Suc n) g rest"
proof -
  have f: "fgets LINE_SIZE ((CHR ''#'' # c) @ NL # rest) = Some ((CHR ''#'' # c) @ [NL], rest)"
    using assms by (intro fgets_line) (auto simp: LINE_SIZE_def)
  have "ignorable (skip_blanks ((CHR ''#'' # c) @ [NL]))"
    by (simp add: skip_blanks_def c_view_def ignorable_def)
  with f show ?thesis by (subst parse_lines.simps) simp
qed

lemma parse_lines_emit:
  assumes "emit_ok p" and "length g < MAX_OPS"
  shows "parse_lines n g (emit_line p @ NL # rest) = parse_lines (Suc n) (g @ [intended p]) rest"
proof -
  have f: "fgets LINE_SIZE (emit_line p @ NL # rest) = Some (emit_line p @ [NL], rest)"
    using assms emit_line_length [of p] emit_line_clean [of p]
    by (intro fgets_line) (auto simp: LINE_SIZE_def)
  have "\<not> ignorable (emit_line p @ [NL])"
    using emit_line_starts [of p] by (auto simp: ignorable_def)
  with f assms show ?thesis
    by (subst parse_lines.simps)
      (simp add: skip_blanks_emit cut_newline_emit parse_op_emit)
qed

lemma parse_lines_written:
  assumes "\<forall>(p, c) \<in> set pcs. emit_ok p \<and> comment_ok c" and "length g + length pcs \<le> MAX_OPS"
  shows "parse_lines n g
    (concat (map (\<lambda>op. ''# '' @ po_comment op @ [NL] @ po_line op @ [NL]) (plan_of pcs)))
      = Inr (g @ map (intended \<circ> fst) pcs)"
  using assms
proof (induction pcs arbitrary: n g)
  case Nil
  then show ?case by (subst parse_lines.simps) (simp add: plan_of_def fgets_def)
next
  case (Cons pc pcs)
  obtain p c where pc: "pc = (p, c)" by (cases pc)
  let ?rest = "concat (map (\<lambda>op. ''# '' @ po_comment op @ [NL] @ po_line op @ [NL]) (plan_of pcs))"
  from Cons.prems pc have ok: "emit_ok p" "NL \<notin> set c" "length c \<le> 508" "length g < MAX_OPS"
    by (auto simp: comment_ok_def)
  have "parse_lines n g (''# '' @ c @ [NL] @ emit_line p @ [NL] @ ?rest)
      = parse_lines (Suc n) g (emit_line p @ NL # ?rest)"
    using parse_lines_comment [of "SP # c" n g "emit_line p @ NL # ?rest"] ok by simp
  also have "\<dots> = parse_lines (Suc (Suc n)) (g @ [intended p]) ?rest"
    using ok by (intro parse_lines_emit)
  also have "\<dots> = Inr ((g @ [intended p]) @ map (intended \<circ> fst) pcs)"
    using Cons.prems by (intro Cons.IH) auto
  finally show ?case by (simp add: pc plan_of_def)
qed

lemma parse_lines_header: "parse_lines n g (plan_header @ rest) = parse_lines (n + 3) g rest"
proof -
  let ?h1 = "'' zhaxx repair plan '' @ [CHR 0xE2, CHR 0x80, CHR 0x94] @ '' generated by zhaxx-scan''"
  let ?h2 = "'' REVIEW EVERY LINE against the report before use.''"
  let ?h3 = "'' Every op re-verifies its expect= precondition atomically before any write.''"
  have h: "plan_header @ rest =
    (CHR ''#'' # ?h1) @ NL # ((CHR ''#'' # ?h2) @ NL # ((CHR ''#'' # ?h3) @ NL # rest))"
    by (simp add: plan_header_def)
  have c1: "parse_lines m g ((CHR ''#'' # ?h1) @ NL # r) = parse_lines (Suc m) g r" for m r
    by (rule parse_lines_comment) simp_all
  have c2: "parse_lines m g ((CHR ''#'' # ?h2) @ NL # r) = parse_lines (Suc m) g r" for m r
    by (rule parse_lines_comment) simp_all
  have c3: "parse_lines m g ((CHR ''#'' # ?h3) @ NL # r) = parse_lines (Suc m) g r" for m r
    by (rule parse_lines_comment) simp_all
  show ?thesis unfolding h c1 c2 c3 by (simp add: numeral_3_eq_3)
qed

lemma parse_plan_written:
  assumes "fopen path = Some (write_plan (plan_of pcs))"
    and "list_all (\<lambda>(p, c). emit_ok p \<and> comment_ok c) pcs" and "length pcs \<le> MAX_OPS"
  shows "parse_plan fopen path = Inr (map (intended \<circ> fst) pcs)"
  using assms parse_lines_written [of pcs "[]" 3] parse_lines_header [of 0 "[]"]
  by (simp add: parse_plan_def write_plan_def list_all_iff)

subsection \<open>Names and lines outside the grammar\<close>

text \<open>
  A name with a blank in it (ZFS dataset names may contain spaces) is printed bare, so the
  surgeon reads the key only up to the blank.
\<close>

lemma parse_op_blank_name:
  assumes "ob < 2 ^ 64" and "ex < 2 ^ 64" and "name_ok a" and "strstr ''expect='' (a @ SP # b) = None"
    and "length (emit_line (P_zap_remove ob (a @ SP # b) ex)) \<le> 511"
  shows "parse_op l (emit_line (P_zap_remove ob (a @ SP # b) ex)) =
    Inr ((intended (P_zap_remove ob (a @ SP # b) ex))\<lparr>op_key := a\<rparr>)"
proof -
  have ex: "strstr ''expect='' (a @ SP # b @ SP # s) = strstr ''expect='' (SP # s)" for s
    using strstr_skip_field [of "''expect=''" "a @ SP # b" SP s] assms(4) by simp
  from assms(5) have raw: "take 511 (emit_line (P_zap_remove ob (a @ SP # b) ex))
      = emit_line (P_zap_remove ob (a @ SP # b) ex)" by simp
  have "copy_value (a @ SP # r) MAX_KEY = Some a" for r
    using assms(3) by (intro copy_value_bare) (auto simp: name_ok_def)
  with assms(1,2) ex show ?thesis
    unfolding parse_op_def raw by (simp add: kv_u64_def kv_str_def op_zero_def c_string)
qed

text \<open>
  A line longer than the buffer is cut by \<^verbatim>\<open>fgets\<close>, and its tail is read as a line of its
  own: what follows the first 511 characters of a comment is parsed as a plan line.
\<close>

lemma line_chunk_full: "NL \<notin> set xs \<Longrightarrow> line_chunk (length xs) (xs @ rest) = (xs, rest)"
  by (induction xs) auto

lemma parse_lines_long_comment:
  assumes "NL \<notin> set c" and "length c = 510"
  shows "parse_lines n g ((CHR ''#'' # c) @ rest) = parse_lines (Suc n) g rest"
proof -
  have "fgets LINE_SIZE ((CHR ''#'' # c) @ rest) = Some (CHR ''#'' # c, rest)"
    using line_chunk_full [of "CHR ''#'' # c" rest] assms
    by (simp add: fgets_def LINE_SIZE_def del: line_chunk.simps)
  moreover have "ignorable (skip_blanks (CHR ''#'' # c))"
    by (simp add: skip_blanks_def c_view_def ignorable_def)
  ultimately show ?thesis by (subst parse_lines.simps) simp
qed

text \<open>A negative \<^verbatim>\<open>value=\<close> is accepted and wraps to a huge count.\<close>

lemma strtoull_neg_end:
  assumes "n < 2 ^ 64"
  shows "strtoull (CHR ''-'' # dec n) = Some (- of_nat n, [], False)"
proof -
  obtain v where v: "strtoull (dec n) = Some (v, [], False)" "v = of_nat n"
    using strtoull_dec_end [OF assms] by blast
  obtain d ds where d: "dec n = digit_char d # ds" "d < 10"
    using dec_hd by blast
  have "dropWhile isspace (CHR ''-'' # dec n) = CHR ''-'' # dec n"
    by (simp add: isspace_def)
  moreover have "scan_sign (CHR ''-'' # dec n) = (True, dec n)" by (simp add: scan_sign_def)
  moreover have "scan_sign (dropWhile isspace (dec n)) = (False, dec n)"
    using digit_char_not_special [OF d(2)] by (simp add: d(1) scan_sign_def)
  ultimately show ?thesis
    using v unfolding strtoull_def
    by (simp only: Let_def split_beta fst_conv snd_conv) (auto split: if_splits)
qed

lemma parse_op_negative_value:
  assumes "ob < 2 ^ 64" and "nc < 2 ^ 64" and "v < 0" and "- v < 2 ^ 64"
  shows "parse_op l (emit_line (P_bonus_set ob nc v)) = Inr (intended (P_bonus_set ob nc v))"
proof -
  have n: "nat (- v) < 2 ^ 64" "- (of_nat (nat (- v)) :: u64) = of_int v"
    using assms(3,4) by auto
  have len: "length (emit_line (P_bonus_set ob nc v)) \<le> 511"
    using n(1) assms length_dec_u64 [of ob] length_dec_u64 [of nc] length_dec_u64 [of "nat (- v)"]
    by (simp add: py_str_def)
  then have raw: "take 511 (emit_line (P_bonus_set ob nc v)) = emit_line (P_bonus_set ob nc v)"
    by simp
  show ?thesis
    unfolding parse_op_def raw
    using assms n copy_ds_num_children [simplified] strtoull_neg_end [OF n(1)]
    by (simp add: kv_u64_def kv_str_def op_zero_def c_string py_str_def)
qed

subsection \<open>The example plan\<close>

text \<open>
  The operations and the comments of \<^verbatim>\<open>src/plans/example-orphan-clone.plan\<close>, the plan the
  scanner writes for the fixture of the same name.
\<close>

definition orphan_plan :: "planned list" where
  "orphan_plan =
    [P_zap_set 1 ''errlog_last'' 910 0,
     P_free 910 ''persistent error log'',
     P_free 912 ''persistent error log'',
     P_zap_zero 1 ''scan'' 24,
     P_zap_remove 59 ''2a1'' 673,
     P_zap_remove 34 ''orphan-9f3c1d'' 670,
     P_zap_remove 58 ''2a1'' 673,
     P_bonus_set 48 6 5,
     P_free 670 ''DSL directory'',
     P_free 671 ''DSL props'',
     P_free 672 ''DSL directory child map'']"

definition orphan_comments :: "string list" where
  "orphan_comments =
    [''break the errlog_last error-log chain'',
     ''free stale errlog_last head'',
     ''free per-objset error log for objset 673'',
     ''zero the stale scan cursor (a fresh scrub/resilver restarts from DTLs after import)'',
     ''drop unreadable (EIO) clone reference from <root>/$ORIGIN dd_clones'',
     ''remove orphan '' @ [CHR 0x27] @ ''orphan-9f3c1d'' @ [CHR 0x27] @ '' from namespace'',
     ''remove orphan from origin'' @ [CHR 0x27] @ ''s next_clones ZAP'',
     ''decrement origin snapshot child count'',
     ''free orphan structure (DSL directory) of <root>/orphan-9f3c1d@head'',
     ''free orphan structure (DSL props) of <root>/orphan-9f3c1d@head'',
     ''free orphan structure (DSL directory child map) of <root>/orphan-9f3c1d@head'']"

lemma orphan_plan_ok: "list_all emit_ok orphan_plan"
  by (simp add: orphan_plan_def name_ok_def type_ok_def plan_consts)

lemma orphan_comments_ok: "list_all comment_ok orphan_comments"
  by (simp add: orphan_comments_def comment_ok_def)

subsection \<open>Properties\<close>

text \<open>
  C21: the contract between the two tools. The surgeon reads back exactly the operations the
  scanner planned, in order, from the plan file the scanner writes: every plan of at most
  \<^verbatim>\<open>MAX_OPS\<close> operations whose names stay inside the grammar and whose comments are one
  short line each.
\<close>

theorem plan_roundtrip:
  assumes "fopen path = Some (write_plan (plan_of pcs))"
    and "list_all (\<lambda>(p, c). emit_ok p \<and> comment_ok c) pcs" and "length pcs \<le> MAX_OPS"
  shows "parse_plan fopen path = Inr (map (intended \<circ> fst) pcs)"
  using assms by (rule parse_plan_written)

theorem plan_roundtrip_witness:
  "parse_plan [''repair.plan'' \<mapsto> write_plan (plan_of (zip orphan_plan orphan_comments))]
     ''repair.plan'' = Inr (map (intended \<circ> fst) (zip orphan_plan orphan_comments))"
proof (rule plan_roundtrip)
  show "list_all (\<lambda>(p, c). emit_ok p \<and> comment_ok c) (zip orphan_plan orphan_comments)"
    using orphan_plan_ok orphan_comments_ok
    by (auto simp: list_all_iff dest: set_zip_leftD set_zip_rightD)
qed (simp_all add: orphan_plan_def MAX_OPS_def)

text \<open>
  A namespace entry whose name contains a blank does not survive the trip. The scanner
  prints the name bare, and the surgeon's operation carries only the part before the blank as
  its key.
\<close>

theorem blank_name_truncated:
  assumes "ob < 2 ^ 64" and "ex < 2 ^ 64" and "name_ok a"
    and "strstr ''expect='' (a @ SP # b) = None"
    and "length (emit_line (P_zap_remove ob (a @ SP # b) ex)) \<le> 511"
  shows "parse_op l (emit_line (P_zap_remove ob (a @ SP # b) ex)) =
    Inr ((intended (P_zap_remove ob (a @ SP # b) ex))\<lparr>op_key := a\<rparr>)"
  using assms by (rule parse_op_blank_name)

theorem blank_name_truncated_witness:
  "\<exists>op. parse_op 1 (emit_line (P_zap_remove 34 (''my'' @ SP # ''data'') 670)) = Inr op \<and>
     op_key op = ''my''"
  using blank_name_truncated [of 34 670 "''my''" "''data''" 1]
    length_dec_u64 [of 34] length_dec_u64 [of 670]
  by (simp add: name_ok_def plan_consts)

text \<open>
  A comment longer than the surgeon's line buffer is not a comment to its end. What follows
  its first 511 characters is parsed as lines of the plan.
\<close>

theorem long_comment_tail_parsed:
  assumes "NL \<notin> set c" and "length c = 510"
  shows "parse_plan [path \<mapsto> (CHR ''#'' # c) @ rest] path = parse_lines 1 [] rest"
  using parse_lines_long_comment [OF assms, of 0 "[]" rest] by (simp add: parse_plan_def)

theorem long_comment_tail_parsed_witness:
  "parse_plan [''p'' \<mapsto>
       (CHR ''#'' # replicate 510 (CHR ''x'')) @ emit_line (P_free 7 ''DSL dataset'') @ [NL]] ''p'' =
     Inr [intended (P_free 7 ''DSL dataset'')]"
proof -
  have "parse_lines 1 [] (emit_line (P_free 7 ''DSL dataset'') @ NL # []) =
      parse_lines 2 ([] @ [intended (P_free 7 ''DSL dataset'')]) []"
    unfolding one_add_one [symmetric] Suc_eq_plus1 [symmetric] add_Suc_right
    by (subst parse_lines_emit) (simp_all add: type_ok_def plan_consts)
  also have "\<dots> = Inr [intended (P_free 7 ''DSL dataset'')]"
    by (simp add: parse_lines.simps fgets_def)
  finally show ?thesis
    by (subst long_comment_tail_parsed) simp_all
qed

text \<open>
  A child count the scanner computed below zero is printed with its sign, accepted by the
  surgeon, and becomes a count above \<open>2 ^ 63\<close> by wrap-around.
\<close>

theorem negative_count_wraps:
  assumes "ob < 2 ^ 64" and "nc < 2 ^ 64" and "v < 0" and "- v < 2 ^ 63"
  shows "\<exists>op. parse_op l (emit_line (P_bonus_set ob nc v)) = Inr op \<and>
    uint (op_value op) = 2 ^ 64 + v \<and> 2 ^ 63 < uint (op_value op)"
proof -
  have "uint (of_int v :: u64) = v mod 2 ^ 64" by (simp add: uint_word_of_int)
  also have "\<dots> = (v + 2 ^ 64) mod 2 ^ 64" by simp
  also have "\<dots> = v + 2 ^ 64" using assms(3,4) by (intro mod_pos_pos_trivial) auto
  finally have "uint (of_int v :: u64) = v + 2 ^ 64" .
  with assms parse_op_negative_value [of ob nc v l] show ?thesis by simp
qed

theorem negative_count_wraps_witness:
  "\<exists>op. parse_op 1 (emit_line (P_bonus_set 48 0 (- 1))) = Inr op \<and>
    uint (op_value op) = 2 ^ 64 + - 1 \<and> 2 ^ 63 < uint (op_value op)"
  by (rule negative_count_wraps) simp_all



end
