(* ===== verification/MosStore.thy ===== *)
theory MosStore
  imports Surgery PlanEmit
begin

text \<open>
  An executable Meta Object Set that meets \<open>mos_contract\<close>: objects with a DMU type, a ZAP, a
  bonus child count and a readability flag (an unreadable object answers EIO, the damage the
  tool is made for). It is the instance on which the properties of the surgeon are evaluated,
  among others on the plan of \<^verbatim>\<open>src/plans/example-orphan-clone.plan\<close>. The properties of
  the surgeon that rest on the contract are stated at the end of this theory.
\<close>

subsection \<open>The store\<close>

record mos_object =
  mo_type :: nat
  mo_readable :: bool
  mo_zap :: "string \<rightharpoonup> u64 list"
  mo_children :: u64

type_synonym mos = "u64 \<rightharpoonup> mos_object"

definition EOVERFLOW :: c_int where "EOVERFLOW = 75"

definition st_lookup :: "mos \<Rightarrow> u64 \<Rightarrow> string \<Rightarrow> nat \<Rightarrow> c_int \<times> u64 list" where
  "st_lookup m ob k n =
    (case m ob of
       None \<Rightarrow> (ENOENT, [])
     | Some x \<Rightarrow>
         if \<not> mo_readable x then (EIO, [])
         else (case mo_zap x k of
                 None \<Rightarrow> (ENOENT, [])
               | Some vs \<Rightarrow> if length vs \<le> n then (0, vs) else (EOVERFLOW, take n vs)))"

definition st_update :: "mos \<Rightarrow> u64 \<Rightarrow> string \<Rightarrow> u64 list \<Rightarrow> c_int \<times> mos" where
  "st_update m ob k vs =
    (case m ob of
       None \<Rightarrow> (ENOENT, m)
     | Some x \<Rightarrow>
         if \<not> mo_readable x then (EIO, m)
         else (0, m(ob \<mapsto> x\<lparr>mo_zap := (mo_zap x)(k \<mapsto> vs)\<rparr>)))"

definition st_remove :: "mos \<Rightarrow> u64 \<Rightarrow> string \<Rightarrow> c_int \<times> mos" where
  "st_remove m ob k =
    (case m ob of
       None \<Rightarrow> (ENOENT, m)
     | Some x \<Rightarrow>
         if \<not> mo_readable x then (EIO, m)
         else (case mo_zap x k of
                 None \<Rightarrow> (ENOENT, m)
               | Some _ \<Rightarrow> (0, m(ob \<mapsto> x\<lparr>mo_zap := (mo_zap x)(k := None)\<rparr>))))"

definition st_hold :: "mos \<Rightarrow> u64 \<Rightarrow> c_int \<times> u64" where
  "st_hold m ob =
    (case m ob of
       None \<Rightarrow> (ENOENT, 0)
     | Some x \<Rightarrow> if \<not> mo_readable x then (EIO, 0) else (0, mo_children x))"

definition st_set_children :: "mos \<Rightarrow> u64 \<Rightarrow> u64 \<Rightarrow> mos" where
  "st_set_children m ob v =
    (case m ob of None \<Rightarrow> m | Some x \<Rightarrow> m(ob \<mapsto> x\<lparr>mo_children := v\<rparr>))"

definition st_info :: "mos \<Rightarrow> u64 \<Rightarrow> c_int \<times> nat" where
  "st_info m ob =
    (case m ob of
       None \<Rightarrow> (ENOENT, 0)
     | Some x \<Rightarrow> if \<not> mo_readable x then (EIO, 0) else (0, mo_type x))"

definition st_free :: "mos \<Rightarrow> u64 \<Rightarrow> c_int \<times> mos" where
  "st_free m ob =
    (case m ob of
       None \<Rightarrow> (ENOENT, m)
     | Some x \<Rightarrow> if \<not> mo_readable x then (EIO, m) else (0, m(ob := None)))"

text \<open>The type names the example needs, at their numbers in the DMU type table.\<close>

definition st_type_name :: "nat \<Rightarrow> string" where
  "st_type_name t =
    (if t = 1 then ''object directory'' else if t = 8 then ''SPA space map''
     else if t = 12 then ''DSL directory'' else if t = 13 then ''DSL directory child map''
     else if t = 15 then ''DSL props'' else if t = 16 then ''DSL dataset''
     else if t = 28 then ''persistent error log'' else if t = 37 then ''DSL dataset next clones''
     else if t = 52 then ''DSL dir clones'' else ''other'')"

definition store_ops :: "mos mos_ops" where
  "store_ops =
    \<lparr>zap_lookup = st_lookup, zap_update = st_update, zap_remove = st_remove,
     dmu_bonus_hold = st_hold, set_num_children = st_set_children,
     dmu_object_info = st_info, dmu_object_free = st_free,
     dmu_ot_name = st_type_name, dmu_ot_numtypes = 54\<rparr>"

lemmas store_defs = store_ops_def st_lookup_def st_update_def st_remove_def st_hold_def
  st_set_children_def st_info_def st_free_def EOVERFLOW_def errno_simps

interpretation store: mos_contract store_ops
  by unfold_locales
    (auto simp: store_defs split: option.splits if_splits)

subsection \<open>A damaged pool\<close>

definition mk_obj :: "nat \<Rightarrow> (string \<rightharpoonup> u64 list) \<Rightarrow> u64 \<Rightarrow> mos_object" where
  "mk_obj t z c = \<lparr>mo_type = t, mo_readable = True, mo_zap = z, mo_children = c\<rparr>"

text \<open>
  The objects of \<^verbatim>\<open>src/tests/fixtures/example-orphan-clone\<close>. Of the bonus buffers only the
  child count is there.
\<close>

definition orphan_pool :: mos where
  "orphan_pool =
    [1 \<mapsto> mk_obj 1 [''root_dataset'' \<mapsto> [32], ''errlog_scrub'' \<mapsto> [0], ''errlog_last'' \<mapsto> [910],
        ''scan'' \<mapsto> 2 # 1 # 999 # replicate 21 0] 0,
     32 \<mapsto> mk_obj 12 Map.empty 0, 55 \<mapsto> mk_obj 16 Map.empty 0,
     34 \<mapsto> mk_obj 13 [''$MOS'' \<mapsto> [35], ''$FREE'' \<mapsto> [38], ''$ORIGIN'' \<mapsto> [42], ''data'' \<mapsto> [1792],
        ''orphan-9f3c1d'' \<mapsto> [670]] 0,
     42 \<mapsto> mk_obj 12 Map.empty 0, 45 \<mapsto> mk_obj 16 Map.empty 0, 44 \<mapsto> mk_obj 13 Map.empty 0,
     48 \<mapsto> mk_obj 16 Map.empty 6,
     58 \<mapsto> mk_obj 37 [''36'' \<mapsto> [54], ''2a1'' \<mapsto> [673]] 0,
     59 \<mapsto> mk_obj 52 [''36'' \<mapsto> [54], ''2a1'' \<mapsto> [673]] 0,
     54 \<mapsto> mk_obj 16 Map.empty 0,
     1792 \<mapsto> mk_obj 12 Map.empty 0, 1793 \<mapsto> mk_obj 16 Map.empty 0, 1794 \<mapsto> mk_obj 13 Map.empty 0,
     670 \<mapsto> mk_obj 12 Map.empty 0,
     671 \<mapsto> mk_obj 15 [''refreservation'' \<mapsto> [0]] 0,
     672 \<mapsto> mk_obj 13 Map.empty 0,
     673 \<mapsto> (mk_obj 16 Map.empty 0)\<lparr>mo_readable := False\<rparr>,
     910 \<mapsto> mk_obj 28 [''2a1'' \<mapsto> [912]] 0,
     912 \<mapsto> mk_obj 28 [''0:ffffffffffffffff:0'' \<mapsto> [260923]] 0]"

subsection \<open>The example plan on the damaged pool\<close>

text \<open>The pool after the plan.\<close>

definition repaired_pool :: mos where
  "repaired_pool = snd (apply_ops store_ops orphan_pool (map intended orphan_plan))"

lemma orphan_run:
  "apply_ops store_ops orphan_pool (map intended orphan_plan) = (True, repaired_pool)"
  unfolding repaired_pool_def
  by (simp add: orphan_plan_def apply_op_def op_zero_def store_defs orphan_pool_def mk_obj_def
      del: emit_line.simps)

lemma orphan_checks: "list_all (op_ok store_ops orphan_pool) (map intended orphan_plan)"
  by (simp add: orphan_plan_def op_ok_iff entry_now_def buf_word_def op_zero_def store_defs
      orphan_pool_def mk_obj_def type_name_matches_def st_type_name_def del: emit_line.simps)

lemma orphan_independent: "sorted_wrt independent (map intended orphan_plan)"
  by (simp add: orphan_plan_def independent_def op_target_def op_zero_def del: emit_line.simps)

lemma orphan_sync:
  "\<not> aborted (apply_sync store_ops False (map intended orphan_plan) orphan_pool)"
  "sync_mos (apply_sync store_ops False (map intended orphan_plan) orphan_pool) = repaired_pool"
  using orphan_run orphan_checks by (simp_all add: apply_sync_cases list_all_iff)

subsection \<open>Runs that complete\<close>

lemma completed_run:
  assumes "\<not> aborted (apply_sync Z False ops mos)"
  shows "apply_ops Z mos ops = (True, sync_mos (apply_sync Z False ops mos))"
    and "op \<in> set ops \<Longrightarrow> op_ok Z mos op"
  using assms by (auto simp: apply_sync_cases prod_eq_iff)

lemma sorted_independent_flip:
  "sorted_wrt independent ops \<Longrightarrow> sorted_wrt (\<lambda>a b. independent b a) ops"
  by (rule sorted_wrt_mono_rel [rotated]) (simp_all add: independent_sym)

lemma completed_goals:
  assumes "mos_contract Z" and "\<not> aborted (apply_sync Z False ops mos)"
    and "sorted_wrt independent ops"
  shows "\<forall>op \<in> set ops. op_post Z (sync_mos (apply_sync Z False ops mos)) op"
  using mos_contract.apply_ops_post [OF assms(1) completed_run(1) [OF assms(2)]
      sorted_independent_flip [OF assms(3)]] .

subsection \<open>Properties\<close>

text \<open>
  C9: what a completed transaction has done. If the operations of the plan work on different
  parts of the MOS, then after the sync task every operation's goal holds (each entry set has
  its value, each zeroed entry its zero words, each removed entry and each freed object is
  gone, each child count has its value), and everything the plan does not name reads as it
  did before.
\<close>

theorem completed_plan_repairs:
  assumes "mos_contract Z" and "\<not> aborted (apply_sync Z False ops mos)"
    and "sorted_wrt independent ops"
  shows "list_all (op_post Z (sync_mos (apply_sync Z False ops mos))) ops \<and>
    (\<forall>t. list_all (\<lambda>op. apart (op_target op) t) ops \<longrightarrow>
       same_view Z t mos (sync_mos (apply_sync Z False ops mos)))"
  using completed_goals [OF assms] mos_contract.apply_ops_frame [OF assms(1) completed_run(1) [OF assms(2)]]
  by (auto simp: list_all_iff)

theorem completed_plan_repairs_witness:
  "list_all (op_post store_ops repaired_pool) (map intended orphan_plan) \<and>
   st_lookup repaired_pool 34 ''data'' = st_lookup orphan_pool 34 ''data''"
proof -
  note run = completed_plan_repairs [OF store.mos_contract_axioms orphan_sync(1) orphan_independent,
      unfolded orphan_sync(2)]
  have "list_all (\<lambda>op. apart (op_target op) (T_entry 34 ''data'')) (map intended orphan_plan)"
    by (simp add: orphan_plan_def op_target_def op_zero_def del: emit_line.simps)
  with run have "same_view store_ops (T_entry 34 ''data'') orphan_pool repaired_pool" by blast
  with run show ?thesis by (simp add: same_view_def store_ops_def)
qed

text \<open>
  C10: a recycled object ID is never freed. If an object the plan frees now has a type whose
  name is not the one the plan expects, the task aborts and the MOS is untouched, whatever the
  rest of the plan does.
\<close>

theorem recycled_id_not_freed:
  assumes "op \<in> set ops" and "op_kind op = OP_FREE"
    and "dmu_object_info Z mos (op_obj op) = (0, ty)"
    and "\<not> strcaseeq (dmu_ot_name Z ty) (op_type op)"
  shows "aborted (apply_sync Z False ops mos) \<and> sync_mos (apply_sync Z False ops mos) = mos"
proof -
  have "\<not> op_ok Z mos op"
    using assms(2-4) by (simp add: op_ok_iff type_name_matches_def ENOENT_def)
  with assms(1) show ?thesis by (auto simp: apply_sync_cases)
qed

theorem recycled_id_not_freed_witness:
  "sync_mos (apply_sync store_ops False (map intended orphan_plan)
     (orphan_pool(912 \<mapsto> mk_obj 8 Map.empty 0))) = orphan_pool(912 \<mapsto> mk_obj 8 Map.empty 0)"
  using recycled_id_not_freed [of "intended (P_free 912 ''persistent error log'')"
      "map intended orphan_plan" store_ops "orphan_pool(912 \<mapsto> mk_obj 8 Map.empty 0)" 8]
  by (simp add: orphan_plan_def op_zero_def store_defs mk_obj_def st_type_name_def strcaseeq_def
      tolower_def del: emit_line.simps)

text \<open>
  C11: the checks of the first pass still mean something when the second pass acts. In a plan
  whose operations work on different parts of the MOS, the precondition of every operation
  holds on the MOS as it is at the moment the operation is applied.
\<close>

theorem checked_when_applied:
  assumes "mos_contract Z" and "\<not> aborted (apply_sync Z False ops mos)"
    and "sorted_wrt independent ops" and "i < length ops"
  shows "\<exists>m1. apply_ops Z mos (take i ops) = (True, m1) \<and> op_ok Z m1 (ops ! i)"
proof -
  have split_ops: "take i ops @ ops ! i # drop (Suc i) ops = ops"
    using assms(4) by (rule id_take_nth_drop [symmetric])
  show ?thesis
    using mos_contract.apply_ops_still_ok [OF assms(1), of mos "take i ops" "ops ! i" "drop (Suc i) ops"]
      completed_run [OF assms(2)] assms(3,4)
      nth_mem [OF assms(4)]
    unfolding split_ops by blast
qed

theorem checked_when_applied_witness:
  "\<exists>m1. apply_ops store_ops orphan_pool (take 7 (map intended orphan_plan)) = (True, m1) \<and>
     op_ok store_ops m1 (map intended orphan_plan ! 7)"
  by (rule checked_when_applied [OF store.mos_contract_axioms orphan_sync(1) orphan_independent])
    (simp add: orphan_plan_def)

text \<open>
  The verification after a successful apply re-runs the preconditions, so it reports every
  \<^verbatim>\<open>zap_set\<close> and \<^verbatim>\<open>bonus_set\<close> that changed a value as failed, and passes exactly the
  removals, frees, zeroings and the sets that kept their value.
\<close>

theorem post_apply_check:
  assumes "mos_contract Z" and "\<not> aborted (apply_sync Z False ops mos)"
    and "sorted_wrt independent ops" and "op \<in> set ops" and "wf_op op"
  shows "fst (check_op Z (sync_mos (apply_sync Z False ops mos)) op False) \<longleftrightarrow>
    (op_kind op \<in> {OP_ZAP_SET, OP_BONUS_SET} \<longrightarrow> op_value op = op_expect op)"
proof -
  let ?m = "sync_mos (apply_sync Z False ops mos)"
  have post: "op_post Z ?m op" using completed_goals [OF assms(1-3)] assms(4) by blast
  show ?thesis
  proof (cases "op_kind op \<in> {OP_ZAP_SET, OP_BONUS_SET}")
    case True
    then have "op_has_expect op" using assms(5) by (auto simp: wf_op_def)
    with True post show ?thesis
      by (auto simp: check_op_verdict op_post_def op_ok_iff entry_now_def buf_word_def)
  next
    case False
    then have "op_kind op \<in> {OP_ZAP_REMOVE, OP_FREE, OP_ZAP_ZERO}"
      by (cases "op_kind op") auto
    with post have "op_ok Z ?m op" by (rule op_post_recheck)
    with False show ?thesis by (simp add: check_op_verdict)
  qed
qed

theorem post_apply_check_witness:
  "\<not> fst (check_op store_ops repaired_pool (intended (P_bonus_set 48 6 5)) False) \<and>
   fst (check_op store_ops repaired_pool (intended (P_free 670 ''DSL directory'')) False)"
proof -
  note run = post_apply_check [OF store.mos_contract_axioms orphan_sync(1) orphan_independent,
      unfolded orphan_sync(2)]
  have "intended (P_bonus_set 48 6 5) \<in> set (map intended orphan_plan)"
    "intended (P_free 670 ''DSL directory'') \<in> set (map intended orphan_plan)"
    by (simp_all add: orphan_plan_def del: emit_line.simps)
  moreover have "wf_op (intended (P_bonus_set 48 6 5))" "wf_op (intended (P_free 670 ''DSL directory''))"
    using parse_op_wf parse_op_emit [of "P_bonus_set 48 6 5" 1]
      parse_op_emit [of "P_free 670 ''DSL directory''" 1]
    by (auto simp: type_ok_def plan_consts simp del: intended.simps emit_line.simps)
  ultimately show ?thesis
    using run [of "intended (P_bonus_set 48 6 5)"] run [of "intended (P_free 670 ''DSL directory'')"]
    by (simp add: op_zero_def del: emit_line.simps)
qed

text \<open>
  A \<^verbatim>\<open>zap_zero\<close> of an absent entry passes its check as a no-op, and yet applying it
  creates the entry, with as many zero words as the plan counts.
\<close>

theorem zap_zero_creates_absent:
  assumes "mos_contract Z" and "op_kind op = OP_ZAP_ZERO"
    and "zap_lookup Z mos (op_obj op) (op_key op) (op_count op) = (ENOENT, vs)"
    and "apply_op Z mos op = (0, mos')"
  shows "check_op Z mos op False = (True, [D_check (op_raw op), D_zero_absent]) \<and>
    zap_lookup Z mos' (op_obj op) (op_key op) (op_count op) = (0, replicate (op_count op) 0)"
  using mos_contract.apply_op_post [OF assms(1,4)] assms(2,3)
  by (simp add: check_op_def op_post_def say_def)

theorem zap_zero_creates_absent_witness:
  "\<exists>mos'. st_lookup orphan_pool 1 ''scrub'' 2 = (ENOENT, []) \<and>
     st_lookup mos' 1 ''scrub'' 2 = (0, [0, 0])"
proof -
  let ?op = "intended (P_zap_zero 1 ''scrub'' 2)"
  obtain m' where m': "apply_op store_ops orphan_pool ?op = (0, m')"
    by (simp add: apply_op_def op_zero_def store_defs orphan_pool_def mk_obj_def del: emit_line.simps)
  have absent: "zap_lookup store_ops orphan_pool (op_obj ?op) (op_key ?op) (op_count ?op) = (ENOENT, [])"
    by (simp add: op_zero_def store_defs orphan_pool_def mk_obj_def del: emit_line.simps)
  have kind: "op_kind ?op = OP_ZAP_ZERO" by (simp add: op_zero_def)
  from zap_zero_creates_absent [OF store.mos_contract_axioms kind absent m'] absent
  show ?thesis by (auto simp: op_zero_def store_ops_def numeral_2_eq_2 simp del: emit_line.simps)
qed

text \<open>
  C34: the damage a blank in a name does. The scanner plans to remove the namespace entry of an
  orphan and to free the orphan's directory; when the entry's name has a blank, and no entry is
  called by the part before it, the surgeon's check calls the removal a no-op and the
  transaction completes with the directory freed and the entry still pointing at it.
\<close>

theorem blank_name_leaves_dangling_entry:
  assumes "mos_contract Z" and "ob < 2 ^ 64" and "dir < 2 ^ 64" and "ob \<noteq> dir"
    and "name_ok a" and "strstr ''expect='' (a @ SP # b) = None"
    and "length (emit_line (P_zap_remove ob (a @ SP # b) dir)) \<le> 511"
    and "parse_op 1 (emit_line (P_zap_remove ob (a @ SP # b) dir)) = Inr rm"
    and "parse_op 2 (emit_line (P_free dir ''DSL directory'')) = Inr fr"
    and "zap_lookup Z mos (of_nat ob) (a @ SP # b) 1 = (0, [of_nat dir])"
    and "\<not> aborted (apply_sync Z False [rm, fr] mos)"
  shows "zap_lookup Z (sync_mos (apply_sync Z False [rm, fr] mos)) (of_nat ob) (a @ SP # b) 1
      = (0, [of_nat dir]) \<and>
    fst (dmu_object_info Z (sync_mos (apply_sync Z False [rm, fr] mos)) (of_nat dir)) = ENOENT"
proof -
  let ?m = "sync_mos (apply_sync Z False [rm, fr] mos)"
  have ne: "(of_nat ob :: u64) \<noteq> of_nat dir"
    using assms(2-4) by (simp add: word_of_nat_eq_iff take_bit_nat_eq_self)
  have rm: "op_kind rm = OP_ZAP_REMOVE" "op_obj rm = of_nat ob" "op_key rm = a"
    using parse_op_blank_name [OF assms(2,3,5-7), of 1] assms(8) by (auto simp: op_zero_def)
  have "emit_ok (P_free dir ''DSL directory'')"
    using assms(3) by (simp add: type_ok_def plan_consts)
  from parse_op_emit [OF this, of 2] assms(9)
  have fr: "op_kind fr = OP_FREE" "op_obj fr = of_nat dir" by (auto simp: op_zero_def)
  have run: "apply_ops Z mos [rm, fr] = (True, ?m)" using completed_run(1) [OF assms(11)] .
  have "same_view Z (T_entry (of_nat ob) (a @ SP # b)) mos ?m"
    using mos_contract.apply_ops_frame [OF assms(1) run] ne rm fr
    by (simp add: op_target_def)
  moreover have "op_post Z ?m fr"
    using completed_goals [OF assms(1,11)] ne rm fr by (simp add: independent_def op_target_def)
  ultimately show ?thesis using assms(10) fr by (simp add: same_view_def op_post_def)
qed

theorem blank_name_leaves_dangling_entry_witness:
  "\<exists>m rm fr.
     zap_lookup store_ops (sync_mos (apply_sync store_ops False [rm, fr] m)) 34 (''my'' @ SP # ''data'') 1
       = (0, [670]) \<and>
     fst (dmu_object_info store_ops (sync_mos (apply_sync store_ops False [rm, fr] m)) 670) = ENOENT"
proof -
  let ?m = "[34 \<mapsto> mk_obj 13 [''my'' @ SP # ''data'' \<mapsto> [670]] 0, 670 \<mapsto> mk_obj 12 Map.empty 0] :: mos"
  let ?rm = "(intended (P_zap_remove 34 (''my'' @ SP # ''data'') 670))\<lparr>op_key := ''my''\<rparr>"
  let ?fr = "intended (P_free 670 ''DSL directory'')"
  have name: "name_ok ''my''" by (simp add: name_ok_def plan_consts)
  have str: "strstr ''expect='' (''my'' @ SP # ''data'') = None" by simp
  have len: "length (emit_line (P_zap_remove 34 (''my'' @ SP # ''data'') 670)) \<le> 511"
    using length_dec_u64 [of 34] length_dec_u64 [of 670] by simp
  have rm: "parse_op 1 (emit_line (P_zap_remove 34 (''my'' @ SP # ''data'') 670)) = Inr ?rm"
    by (rule parse_op_blank_name [OF _ _ name str len]) simp_all
  have fr: "parse_op 2 (emit_line (P_free 670 ''DSL directory'')) = Inr ?fr"
    by (rule parse_op_emit) (simp add: type_ok_def plan_consts)
  have look: "zap_lookup store_ops ?m (of_nat 34) (''my'' @ SP # ''data'') 1 = (0, [of_nat 670])"
    by (simp add: store_defs mk_obj_def)
  have run: "\<not> aborted (apply_sync store_ops False [?rm, ?fr] ?m)"
    by (simp add: apply_sync_cases op_ok_iff entry_now_def apply_op_def op_zero_def store_defs
        mk_obj_def type_name_matches_def st_type_name_def del: emit_line.simps)
  note dangling = blank_name_leaves_dangling_entry
    [OF store.mos_contract_axioms _ _ _ name str len rm fr look run, unfolded of_nat_numeral]
  show ?thesis by (intro exI, rule dangling) simp_all
qed

end
