(* ===== verification/MainRun.thy ===== *)
theory MainRun
  imports MosStore
begin

text \<open>
  The run of the surgeon (\<^verbatim>\<open>src/surgeon/zhaxx.c\<close>: \<^verbatim>\<open>do_import\<close> and \<^verbatim>\<open>main\<close>). A run
  starts from the command line, the file system, the bytes on standard input and the pool's
  stable storage, and ends in an exit code or in an abort, with the storage it leaves and the
  trace of everything it did in order: libzpool calls and messages. The pool-level entry points
  of libzpool are the record \<open>zpool_env\<close>; what the run relies on is the locale
  \<open>zpool_contract\<close>, met by the executable environment at the end of the theory. The lemmas
  show that dump mode never writes, that nothing is applied without the operator's consent and
  a full set of passed checks, that every run walks the import/export life cycle of a pool, and
  what the exit codes mean.
\<close>

subsection \<open>libzpool at the level of pools\<close>

datatype spa_mode = SPA_MODE_READ | SPA_MODE_READ_WRITE

datatype import_flag = ZFS_IMPORT_NORMAL | ZFS_IMPORT_SKIP_MMP

text \<open>The fields of an imported pool's \<^verbatim>\<open>spa_t\<close> the surgeon touches.\<close>

record 'm spa =
  spa_meta_objset :: 'm
  spa_errlog_last :: u64
  spa_errlog_scrub :: u64

text \<open>
  How \<^verbatim>\<open>dsl_sync_task\<close> ends: it returns an error, the storage and the MOS it leaves and
  what the task printed; or the process died inside it, with the storage as it is then.
\<close>

datatype 'm task_end =
    Returned c_int 'm 'm "sync_msg list"
  | Killed 'm "sync_msg list"

record 'm zpool_env =
  e_mos :: "'m mos_ops"
  zpool_find_config :: "string \<Rightarrow> bool \<Rightarrow> c_int"
  nvlist_alloc :: c_int
  nvlist_add_uint64 :: c_int
  spa_import :: "spa_mode \<Rightarrow> bool \<Rightarrow> import_flag \<Rightarrow> string \<Rightarrow> 'm \<Rightarrow> c_int \<times> 'm \<times> 'm spa"
  spa_open :: "string \<Rightarrow> 'm spa \<Rightarrow> c_int \<times> 'm spa"
  dsl_sync_task :: "('m \<Rightarrow> 'm sync_run) \<Rightarrow> 'm \<Rightarrow> 'm \<Rightarrow> nat \<Rightarrow> 'm task_end"
  spa_export :: "spa_mode \<Rightarrow> string \<Rightarrow> 'm \<Rightarrow> 'm spa \<Rightarrow> c_int \<times> 'm"
  assert_ok :: bool

text \<open>
  The contract. A failed assertion is fatal. A process that runs in read mode writes nothing.
  A sync task is refused with an error and no effect, or runs once: then its result is the new
  MOS, in core and on storage, all of it or, when the process dies in it, none of it. An export
  leaves the part of the MOS the plan can name as it is.
\<close>

locale zpool_contract =
  fixes E :: "'m zpool_env"
  assumes mos: "mos_contract (e_mos E)"
    and assert_fatal: "\<not> assert_ok E"
    and import_read: "spa_import E SPA_MODE_READ ro fl t d = (err, d', s) \<Longrightarrow> d' = d"
    and task_returned:
      "dsl_sync_task E f d m n = Returned err d' m' log \<Longrightarrow>
         (err \<noteq> 0 \<and> d' = d \<and> m' = m) \<or> (err = 0 \<and> f m = Sync False m' log \<and> d' = m')"
    and task_killed: "dsl_sync_task E f d m n = Killed d' log \<Longrightarrow> d' = d \<and> aborted (f m)"
    and export_keeps: "spa_export E mode t d s = (err, d') \<Longrightarrow> d' = d"

sublocale zpool_contract < mos: mos_contract "e_mos E"
  by (rule mos)

subsection \<open>The trace of a run\<close>

text \<open>What the run prints, one constructor per message.\<close>

datatype out =
    O_usage
  | O_parse_error parse_error
  | O_parsed nat string
  | O_empty
  | O_banner string
  | O_pool string
  | O_prompt nat
  | O_declined
  | O_no_pool string c_int
  | O_import_failed string c_int
  | O_imported string bool
  | O_open_failed c_int
  | O_open_ok
  | O_errlog_cleared u64
  | O_check diag
  | O_failed nat
  | O_satisfied nat
  | O_dump_done
  | O_sync sync_msg
  | O_task_failed c_int
  | O_applied
  | O_export_warning
  | O_exported
  | O_next_steps string

text \<open>
  The calls with an effect, and the messages. An import records the read-only property it was
  given and the two tunables \<^verbatim>\<open>zfs_scan_suspend_progress\<close> and
  \<^verbatim>\<open>zfeature_checks_disable\<close> as they were when it was called; an open the latter.
\<close>

datatype event =
    E_kernel_init spa_mode
  | E_register_type
  | E_find_config string bool
  | E_import string bool import_flag c_int bool
  | E_open string bool
  | E_errlog_clear
  | E_sync_task nat
  | E_close
  | E_export string
  | E_kernel_fini
  | E_say out

record 'm world =
  w_disk :: 'm
  w_spa :: "'m spa"
  w_mode :: spa_mode
  w_scan_suspend_progress :: c_int
  w_feature_checks_disable :: bool
  w_can_be_active :: bool
  w_trace :: "event list"

datatype 'm outcome = Exit c_int 'm "event list" bool | Abort 'm "event list" bool

definition emits :: "event list \<Rightarrow> 'm world \<Rightarrow> 'm world" where
  "emits es w = w\<lparr>w_trace := w_trace w @ es\<rparr>"

definition exits :: "c_int \<Rightarrow> 'm world \<Rightarrow> 'm outcome" where
  "exits c w = Exit c (w_disk w) (w_trace w) (w_feature_checks_disable w)"

definition aborts :: "'m world \<Rightarrow> 'm outcome" where
  "aborts w = Abort (w_disk w) (w_trace w) (w_feature_checks_disable w)"

definition banner :: "string \<Rightarrow> event" where
  "banner msg = E_say (O_banner msg)"

fun out_disk :: "'m outcome \<Rightarrow> 'm" where
  "out_disk (Exit c d t f) = d"
| "out_disk (Abort d t f) = d"

fun out_trace :: "'m outcome \<Rightarrow> event list" where
  "out_trace (Exit c d t f) = t"
| "out_trace (Abort d t f) = t"

fun out_feature_off :: "'m outcome \<Rightarrow> bool" where
  "out_feature_off (Exit c d t f) = f"
| "out_feature_off (Abort d t f) = f"

fun exit_code :: "'m outcome \<Rightarrow> c_int option" where
  "exit_code (Exit c d t f) = Some c"
| "exit_code (Abort d t f) = None"

subsection \<open>Import\<close>

text \<open>\<open>Inl\<close> is an abort in one of the two \<^verbatim>\<open>VERIFY0\<close>; \<open>Inr\<close> the value returned.\<close>

definition do_import :: "'m zpool_env \<Rightarrow> string \<Rightarrow> bool \<Rightarrow> 'm world \<Rightarrow> 'm world + c_int \<times> 'm world" where
  "do_import E target readonly w =
    (let mode = (if readonly then SPA_MODE_READ else SPA_MODE_READ_WRITE);
         flags = (if readonly then ZFS_IMPORT_SKIP_MMP else ZFS_IMPORT_NORMAL);
         w = w\<lparr>w_scan_suspend_progress := 1, w_mode := mode, w_can_be_active := readonly\<rparr>;
         w = emits [E_kernel_init mode, E_register_type,
                    E_find_config target (w_can_be_active w)] w;
         err = zpool_find_config E target (w_can_be_active w)
     in if err \<noteq> 0 then Inr (err, emits [E_say (O_no_pool target err), E_kernel_fini] w)
        else if readonly \<and> \<not> continues (assert_ok E) (VERIFY0 (scast (nvlist_alloc E)) ''nvlist_alloc'')
             then Inl w
        else if readonly \<and>
                \<not> continues (assert_ok E) (VERIFY0 (scast (nvlist_add_uint64 E)) ''nvlist_add_uint64'')
             then Inl w
        else
          (let w = w\<lparr>w_feature_checks_disable := True\<rparr>;
               (err, d, sp) = spa_import E (w_mode w) readonly flags target (w_disk w);
               w = emits [E_import target readonly flags (w_scan_suspend_progress w)
                            (w_feature_checks_disable w)] w;
               w = w\<lparr>w_disk := d, w_spa := sp, w_feature_checks_disable := False\<rparr>;
               err = (if err = EEXIST then 0 else err)
           in if err \<noteq> 0
              then Inr (err, emits [E_say (O_import_failed target err), E_kernel_fini] w)
              else Inr (0, emits [E_say (O_imported target readonly)] w)))"

subsection \<open>Command line and consent\<close>

text \<open>The option loop over \<^verbatim>\<open>argv[1]\<close> onwards; \<open>None\<close> is the usage error.\<close>

function parse_args ::
  "string list \<Rightarrow> bool \<Rightarrow> string option \<Rightarrow> string option \<Rightarrow> (bool \<times> string option \<times> string option) option"
where
  "parse_args [] do_commit poolname planpath = Some (do_commit, poolname, planpath)"
| "parse_args (a # rest) do_commit poolname planpath =
    (if a = ''--commit'' then parse_args rest True poolname planpath
     else if a = ''--plan'' \<and> rest \<noteq> [] then parse_args (tl rest) do_commit poolname (Some (hd rest))
     else if a = [] \<or> hd a \<noteq> CHR ''-'' then parse_args rest do_commit (Some a) planpath
     else None)"
  by pat_completeness auto
termination by (relation "measure (\<lambda>(as, _). length as)") auto

text \<open>The answer to the prompt: \<^verbatim>\<open>strcmp(resp, "YES\n") == 0\<close> after \<^verbatim>\<open>fgets\<close> of 16 bytes.\<close>

definition consent :: "string \<Rightarrow> bool" where
  "consent stdin =
    (case fgets 16 stdin of None \<Rightarrow> False | Some (resp, _) \<Rightarrow> c_view resp = ''YES'' @ [NL])"

subsection \<open>main\<close>

text \<open>The label \<^verbatim>\<open>out_export\<close> and what follows it.\<close>

definition out_export :: "'m zpool_env \<Rightarrow> bool \<Rightarrow> string \<Rightarrow> c_int \<Rightarrow> 'm world \<Rightarrow> 'm outcome" where
  "out_export E do_commit poolname err w =
    (let (x, d) = spa_export E (w_mode w) poolname (w_disk w) (w_spa w);
         w = emits [banner ''Exporting pool'', E_export poolname,
                    E_say (if x \<noteq> 0 then O_export_warning else O_exported), E_kernel_fini]
               (w\<lparr>w_disk := d\<rparr>);
         w = (if do_commit \<and> err = 0 then emits [E_say (O_next_steps poolname)] w else w)
     in exits (if err \<noteq> 0 then 1 else 0) w)"

text \<open>The label \<^verbatim>\<open>out_close\<close>.\<close>

definition out_close :: "'m zpool_env \<Rightarrow> bool \<Rightarrow> string \<Rightarrow> c_int \<Rightarrow> 'm world \<Rightarrow> 'm outcome" where
  "out_close E do_commit poolname err w =
     out_export E do_commit poolname err (emits [E_close] w)"

text \<open>One loop of checks that are not quiet: how many failed, and the messages.\<close>

fun check_all :: "'m mos_ops \<Rightarrow> 'm \<Rightarrow> op_t list \<Rightarrow> nat \<times> diag list" where
  "check_all Z mos [] = (0, [])"
| "check_all Z mos (op # ops) =
    (let (ok, ds) = check_op Z mos op False; (n, ds') = check_all Z mos ops
     in (if ok then n else Suc n, ds @ ds'))"

text \<open>From the banner \<^verbatim>\<open>Applying plan\<close> to the label \<^verbatim>\<open>out_close\<close>.\<close>

definition apply_plan :: "'m zpool_env \<Rightarrow> string \<Rightarrow> op_t list \<Rightarrow> 'm world \<Rightarrow> 'm outcome" where
  "apply_plan E poolname g_ops w =
    (let w = emits [banner ''Applying plan'', E_sync_task (length g_ops)] w in
     case dsl_sync_task E (apply_sync (e_mos E) (assert_ok E) g_ops) (w_disk w)
            (spa_meta_objset (w_spa w)) (length g_ops) of
       Killed d log \<Rightarrow> aborts (emits (map (E_say \<circ> O_sync) log) (w\<lparr>w_disk := d\<rparr>))
     | Returned err d m log \<Rightarrow>
         (let w = emits (map (E_say \<circ> O_sync) log)
                    (w\<lparr>w_disk := d, w_spa := (w_spa w)\<lparr>spa_meta_objset := m\<rparr>\<rparr>) in
          if err \<noteq> 0 then out_close E True poolname err (emits [E_say (O_task_failed err)] w)
          else
            (let ds = snd (check_all (e_mos E) (spa_meta_objset (w_spa w)) g_ops) in
             out_close E True poolname err
               (emits ([E_say O_applied, banner ''Verification (post-apply)''] @
                        map (E_say \<circ> O_check) ds) w))))"

text \<open>From a successful \<^verbatim>\<open>spa_open\<close> on.\<close>

definition with_pool :: "'m zpool_env \<Rightarrow> bool \<Rightarrow> string \<Rightarrow> op_t list \<Rightarrow> 'm world \<Rightarrow> 'm outcome" where
  "with_pool E do_commit poolname g_ops w =
    (let w = emits [E_say O_open_ok] w;
         w = (if do_commit
              then emits [E_errlog_clear, E_say (O_errlog_cleared (spa_errlog_last (w_spa w)))]
                     (w\<lparr>w_spa := (w_spa w)\<lparr>spa_errlog_last := 0, spa_errlog_scrub := 0\<rparr>\<rparr>)
              else w);
         (nfail, ds) = check_all (e_mos E) (spa_meta_objset (w_spa w)) g_ops;
         w = emits (banner ''Precondition check (read-only)'' # map (E_say \<circ> O_check) ds) w
     in if nfail > 0 then out_close E do_commit poolname 1 (emits [E_say (O_failed nfail)] w)
        else
          (let w = emits [E_say (O_satisfied (length g_ops))] w in
           if \<not> do_commit then out_close E do_commit poolname 0 (emits [E_say O_dump_done] w)
           else apply_plan E poolname g_ops w))"

text \<open>From the import on.\<close>

definition operate :: "'m zpool_env \<Rightarrow> bool \<Rightarrow> string \<Rightarrow> op_t list \<Rightarrow> 'm world \<Rightarrow> 'm outcome" where
  "operate E do_commit poolname g_ops w =
    (case do_import E poolname (\<not> do_commit) w of
       Inl w \<Rightarrow> aborts w
     | Inr (err, w) \<Rightarrow>
         if err \<noteq> 0 then exits 1 w
         else
           (let w = w\<lparr>w_feature_checks_disable := True\<rparr>;
                (err, sp) = spa_open E poolname (w_spa w);
                w = emits [E_open poolname (w_feature_checks_disable w)] w;
                w = w\<lparr>w_feature_checks_disable := False\<rparr>
            in if err \<noteq> 0
               then out_export E do_commit poolname err (emits [E_say (O_open_failed err)] w)
               else with_pool E do_commit poolname g_ops (w\<lparr>w_spa := sp\<rparr>)))"

definition main ::
  "'m zpool_env \<Rightarrow> (string \<Rightarrow> string option) \<Rightarrow> string \<Rightarrow> string list \<Rightarrow> 'm world \<Rightarrow> 'm outcome" where
  "main E fopen stdin argv w =
    (case parse_args (tl argv) False None None of
       Some (do_commit, Some poolname, Some planpath) \<Rightarrow>
         (case parse_plan fopen planpath of
            Inl e \<Rightarrow> exits 2 (emits [E_say (O_parse_error e)] w)
          | Inr g_ops \<Rightarrow>
              (let w = emits [E_say (O_parsed (length g_ops) planpath)] w in
               if g_ops = [] then exits 0 (emits [E_say O_empty] w)
               else
                 (let w = emits [banner (if do_commit then ''zhaxx: COMMIT MODE''
                                         else ''zhaxx: DUMP MODE (read-only)''),
                                 E_say (O_pool poolname)] w;
                      w = (if do_commit then emits [E_say (O_prompt (length g_ops))] w else w)
                  in if do_commit \<and> \<not> consent stdin then exits 1 (emits [E_say O_declined] w)
                     else operate E do_commit poolname g_ops w)))
     | _ \<Rightarrow> exits 2 (emits [E_say O_usage] w))"

subsection \<open>Bookkeeping facts\<close>

lemma emits_fields [simp]:
  "w_disk (emits es w) = w_disk w" "w_spa (emits es w) = w_spa w" "w_mode (emits es w) = w_mode w"
  "w_scan_suspend_progress (emits es w) = w_scan_suspend_progress w"
  "w_feature_checks_disable (emits es w) = w_feature_checks_disable w"
  "w_can_be_active (emits es w) = w_can_be_active w"
  "w_trace (emits es w) = w_trace w @ es"
  by (simp_all add: emits_def)

lemma exits_simps [simp]:
  "out_disk (exits c w) = w_disk w" "out_trace (exits c w) = w_trace w"
  "out_feature_off (exits c w) = w_feature_checks_disable w" "exit_code (exits c w) = Some c"
  by (simp_all add: exits_def)

lemma aborts_simps [simp]:
  "out_disk (aborts w) = w_disk w" "out_trace (aborts w) = w_trace w"
  "out_feature_off (aborts w) = w_feature_checks_disable w" "exit_code (aborts w) = None"
  by (simp_all add: aborts_def)

lemma parse_args_commit:
  "parse_args as c p l = Some (c', p', l') \<Longrightarrow> ''--commit'' \<notin> set as \<Longrightarrow> c' = c"
  by (induction as c p l rule: parse_args.induct)
    (auto split: if_splits dest: list.set_sel(2) in_set_dropD)

lemma consent_iff: "consent stdin \<longleftrightarrow> prefix (''YES'' @ [NL]) stdin"
proof
  assume "consent stdin"
  then obtain a b where f: "line_chunk 15 stdin = (a, b)" and v: "c_view a = ''YES'' @ [NL]"
    by (auto simp: consent_def fgets_def split: option.splits if_splits)
  have "\<exists>s. a = (''YES'' @ [NL]) @ s"
    using takeWhile_dropWhile_id [of "\<lambda>c. c \<noteq> NUL" a] v unfolding c_view_def by metis
  then show "prefix (''YES'' @ [NL]) stdin"
    using line_chunk_append [OF f] by (auto simp: prefix_def)
next
  assume "prefix (''YES'' @ [NL]) stdin"
  then obtain r where "stdin = ''YES'' @ NL # r" by (auto simp: prefix_def)
  then have "fgets 16 stdin = Some (''YES'' @ [NL], r)"
    using fgets_line [of "''YES''" 16 r] by simp
  then show "consent stdin" by (simp add: consent_def c_view_def)
qed

text \<open>The count of the check loop is zero exactly when every check passes.\<close>

lemma check_all_count: "fst (check_all Z mos ops) = 0 \<longleftrightarrow> (\<forall>op \<in> set ops. op_ok Z mos op)"
  by (induction ops) (auto simp: check_op_verdict [symmetric, of _ _ _ False] Let_def split: prod.splits)

lemma check_op_no_failure:
  "check_op Z mos op False = (True, ds) \<Longrightarrow> d \<in> set ds \<Longrightarrow> \<not> is_failure d"
  by (cases "op_kind op") (auto simp: check_op_def say_def Let_def split: prod.splits if_splits)

lemma check_all_no_failure:
  "fst (check_all Z mos ops) = 0 \<Longrightarrow> d \<in> set (snd (check_all Z mos ops)) \<Longrightarrow> \<not> is_failure d"
  by (induction ops)
    (auto simp: Let_def split: prod.splits if_splits dest: check_op_no_failure)

subsection \<open>The life cycle of a pool\<close>

text \<open>
  The states a pool goes through in one process, and the steps the calls and the messages that
  report their success take. A pool that was imported can only be left by exporting it.
\<close>

datatype life =
    L_down
  | L_init spa_mode
  | L_found spa_mode
  | L_importing spa_mode
  | L_active spa_mode
  | L_opening spa_mode
  | L_open spa_mode
  | L_synced
  | L_closed
  | L_exported
  | L_failed

text \<open>The messages that report the end of a call.\<close>

fun reports :: "out \<Rightarrow> bool" where
  "reports (O_no_pool _ _) = True"
| "reports (O_import_failed _ _) = True"
| "reports (O_imported _ _) = True"
| "reports (O_open_failed _) = True"
| "reports O_open_ok = True"
| "reports _ = False"

inductive life_step :: "life \<Rightarrow> event \<Rightarrow> life \<Rightarrow> bool" where
  init: "life_step L_down (E_kernel_init m) (L_init m)"
| register: "life_step (L_init m) E_register_type (L_init m)"
| find: "life_step (L_init m) (E_find_config t (m = SPA_MODE_READ)) (L_found m)"
| not_found: "life_step (L_found m) (E_say (O_no_pool t e)) L_failed"
| import_call:
    "life_step (L_found m)
       (E_import t (m = SPA_MODE_READ)
         (if m = SPA_MODE_READ then ZFS_IMPORT_SKIP_MMP else ZFS_IMPORT_NORMAL) 1 True)
       (L_importing m)"
| not_imported: "life_step (L_importing m) (E_say (O_import_failed t e)) L_failed"
| imported: "life_step (L_importing m) (E_say (O_imported t (m = SPA_MODE_READ))) (L_active m)"
| open_call: "life_step (L_active m) (E_open t True) (L_opening m)"
| not_opened: "life_step (L_opening m) (E_say (O_open_failed e)) L_closed"
| opened: "life_step (L_opening m) (E_say O_open_ok) (L_open m)"
| errlog: "life_step (L_open SPA_MODE_READ_WRITE) E_errlog_clear (L_open SPA_MODE_READ_WRITE)"
| sync: "life_step (L_open SPA_MODE_READ_WRITE) (E_sync_task n) L_synced"
| close: "life_step (L_open m) E_close L_closed"
| close_synced: "life_step L_synced E_close L_closed"
| export: "life_step L_closed (E_export t) L_exported"
| fini: "life_step L_exported E_kernel_fini L_down"
| fini_failed: "life_step L_failed E_kernel_fini L_down"
| speak: "\<not> reports msg \<Longrightarrow> life_step s (E_say msg) s"

inductive life_steps :: "life \<Rightarrow> event list \<Rightarrow> life \<Rightarrow> bool" where
  stay: "life_steps s [] s"
| step: "life_step s e t \<Longrightarrow> life_steps t es u \<Longrightarrow> life_steps s (e # es) u"

inductive_cases life_step_sayE: "life_step s (E_say msg) t"

inductive_simps life_step_simps [simp]:
  "life_step s (E_kernel_init m) t" "life_step s E_register_type t" "life_step s (E_find_config p b) t"
  "life_step s (E_import p b fl sc f) t" "life_step s (E_open p f) t"
  "life_step s E_close t" "life_step s (E_export p) t" "life_step s E_kernel_fini t"
  "life_step s (E_sync_task n) t" "life_step s E_errlog_clear t"

inductive_simps life_step_reports [simp]:
  "life_step s (E_say (O_no_pool p e)) t" "life_step s (E_say (O_import_failed p e)) t"
  "life_step s (E_say (O_imported p b)) t" "life_step s (E_say (O_open_failed e)) t"
  "life_step s (E_say O_open_ok) t"

inductive_simps life_steps_simps [simp]: "life_steps s [] t" "life_steps s (e # es) t"

lemma life_step_quiet [simp]: "\<not> reports msg \<Longrightarrow> life_step s (E_say msg) t \<longleftrightarrow> t = s"
  by (auto intro: life_step.speak elim: life_step_sayE)

lemma life_step_banner [simp]: "life_step s (banner msg) t \<longleftrightarrow> t = s"
  by (simp add: banner_def)

lemma life_steps_append [simp]:
  "life_steps s (ds @ es) u \<longleftrightarrow> (\<exists>t. life_steps s ds t \<and> life_steps t es u)"
  by (induction ds arbitrary: s) auto

lemma life_steps_says [simp]:
  "list_all (\<lambda>x. \<not> reports x) xs \<Longrightarrow> life_steps s (map E_say xs) t \<longleftrightarrow> t = s"
  by (induction xs) auto

lemma life_steps_checks [simp]:
  "life_steps s (map (E_say \<circ> O_check) ds) t \<longleftrightarrow> t = s"
  "life_steps s (map (E_say \<circ> O_sync) log) t \<longleftrightarrow> t = s"
  using life_steps_says [of "map O_check ds" s t] life_steps_says [of "map O_sync log" s t]
  by (simp_all add: list_all_iff)

subsection \<open>The phases of a run\<close>

text \<open>The run after its precondition check, and where it goes from there.\<close>

definition checked_world :: "'m zpool_env \<Rightarrow> bool \<Rightarrow> op_t list \<Rightarrow> 'm world \<Rightarrow> 'm world" where
  "checked_world E c ops w =
    emits ([E_say O_open_ok] @
        (if c then [E_errlog_clear, E_say (O_errlog_cleared (spa_errlog_last (w_spa w)))] else []) @
        banner ''Precondition check (read-only)'' #
        map (E_say \<circ> O_check) (snd (check_all (e_mos E) (spa_meta_objset (w_spa w)) ops)))
      (if c then w\<lparr>w_spa := (w_spa w)\<lparr>spa_errlog_last := 0, spa_errlog_scrub := 0\<rparr>\<rparr> else w)"

lemma checked_world_fields [simp]:
  "w_disk (checked_world E c ops w) = w_disk w"
  "spa_meta_objset (w_spa (checked_world E c ops w)) = spa_meta_objset (w_spa w)"
  "w_mode (checked_world E c ops w) = w_mode w"
  "w_feature_checks_disable (checked_world E c ops w) = w_feature_checks_disable w"
  "w_trace (checked_world E c ops w) = w_trace w @ [E_say O_open_ok] @
     (if c then [E_errlog_clear, E_say (O_errlog_cleared (spa_errlog_last (w_spa w)))] else []) @
     banner ''Precondition check (read-only)'' #
     map (E_say \<circ> O_check) (snd (check_all (e_mos E) (spa_meta_objset (w_spa w)) ops))"
  by (simp_all add: checked_world_def)

lemma with_pool_eq:
  "with_pool E c p ops w =
    (let w' = checked_world E c ops w; n = fst (check_all (e_mos E) (spa_meta_objset (w_spa w)) ops)
     in if n > 0 then out_close E c p 1 (emits [E_say (O_failed n)] w')
        else if \<not> c
          then out_close E c p 0 (emits [E_say (O_satisfied (length ops)), E_say O_dump_done] w')
        else apply_plan E p ops (emits [E_say (O_satisfied (length ops))] w'))"
  by (simp add: with_pool_def checked_world_def Let_def emits_def split: prod.split)

text \<open>The run of an import, and where it goes from there.\<close>

definition import_mode :: "bool \<Rightarrow> spa_mode" where
  "import_mode c = (if c then SPA_MODE_READ_WRITE else SPA_MODE_READ)"

definition import_flags :: "bool \<Rightarrow> import_flag" where
  "import_flags c = (if c then ZFS_IMPORT_NORMAL else ZFS_IMPORT_SKIP_MMP)"

definition import_calls :: "bool \<Rightarrow> string \<Rightarrow> event list" where
  "import_calls c p = [E_kernel_init (import_mode c), E_register_type, E_find_config p (\<not> c)]"

definition import_result :: "'m zpool_env \<Rightarrow> bool \<Rightarrow> string \<Rightarrow> 'm \<Rightarrow> c_int \<times> 'm \<times> 'm spa" where
  "import_result E c p d = spa_import E (import_mode c) (\<not> c) (import_flags c) p d"

lemma do_import_cases:
  obtains (abort) w' where "do_import E p (\<not> c) w = Inl w'" and "w_disk w' = w_disk w"
      and "w_trace w' = w_trace w @ import_calls c p" and "\<not> c" and "\<not> assert_ok E"
      and "w_feature_checks_disable w' = w_feature_checks_disable w"
  | (no_pool) err w' where "do_import E p (\<not> c) w = Inr (err, w')" and "err \<noteq> 0"
      and "w_disk w' = w_disk w"
      and "w_trace w' = w_trace w @ import_calls c p @ [E_say (O_no_pool p err), E_kernel_fini]"
      and "w_feature_checks_disable w' = w_feature_checks_disable w"
  | (failed) err w' where "do_import E p (\<not> c) w = Inr (err, w')" and "err \<noteq> 0"
      and "w_disk w' = fst (snd (import_result E c p (w_disk w)))"
      and "w_trace w' = w_trace w @ import_calls c p @
        [E_import p (\<not> c) (import_flags c) 1 True, E_say (O_import_failed p err), E_kernel_fini]"
      and "\<not> w_feature_checks_disable w'"
  | (imported) w' where "do_import E p (\<not> c) w = Inr (0, w')"
      and "w_disk w' = fst (snd (import_result E c p (w_disk w)))"
      and "w_spa w' = snd (snd (import_result E c p (w_disk w)))"
      and "w_mode w' = import_mode c"
      and "w_trace w' = w_trace w @ import_calls c p @
        [E_import p (\<not> c) (import_flags c) 1 True, E_say (O_imported p (\<not> c))]"
      and "\<not> w_feature_checks_disable w'"
proof -
  let ?w1 = "emits (import_calls c p)
    (w\<lparr>w_scan_suspend_progress := 1, w_mode := import_mode c, w_can_be_active := \<not> c\<rparr>)"
  obtain e d s where imp: "import_result E c p (w_disk w) = (e, d, s)" by (metis prod_cases3)
  let ?e = "if e = EEXIST then 0 else e"
  let ?w2 = "(emits [E_import p (\<not> c) (import_flags c) 1 True]
    (?w1\<lparr>w_feature_checks_disable := True\<rparr>))\<lparr>w_disk := d, w_spa := s, w_feature_checks_disable := False\<rparr>"
  let ?v = "continues (assert_ok E) (VERIFY0 (scast (nvlist_alloc E)) ''nvlist_alloc'') \<and>
    continues (assert_ok E) (VERIFY0 (scast (nvlist_add_uint64 E)) ''nvlist_add_uint64'')"
  have eq: "do_import E p (\<not> c) w =
    (if zpool_find_config E p (\<not> c) \<noteq> 0
     then Inr (zpool_find_config E p (\<not> c),
       emits [E_say (O_no_pool p (zpool_find_config E p (\<not> c))), E_kernel_fini] ?w1)
     else if \<not> c \<and> \<not> ?v then Inl ?w1
     else if ?e \<noteq> 0 then Inr (?e, emits [E_say (O_import_failed p ?e), E_kernel_fini] ?w2)
     else Inr (0, emits [E_say (O_imported p (\<not> c))] ?w2))"
    using imp
    by (cases c) (auto simp: do_import_def import_result_def import_mode_def import_flags_def
        import_calls_def Let_def emits_def)
  show thesis
  proof (cases "zpool_find_config E p (\<not> c) \<noteq> 0")
    case True
    then show thesis using no_pool eq by simp
  next
    case found: False
    show thesis
    proof (cases "\<not> c \<and> \<not> ?v")
      case True
      then show thesis using abort found eq by (simp add: continues_def) blast
    next
      case False
      then show thesis using failed imported found eq imp by (cases "?e = 0") simp_all
    qed
  qed
qed

subsection \<open>Storage\<close>

lemma out_export_exit: "exit_code (out_export E c p err w) = Some (if err = 0 then 0 else 1)"
  by (simp add: out_export_def Let_def split: prod.split)

lemma out_close_exit: "exit_code (out_close E c p err w) = Some (if err = 0 then 0 else 1)"
  by (simp add: out_close_def out_export_exit)

context zpool_contract
begin

lemma out_export_disk [simp]: "out_disk (out_export E c p err w) = w_disk w"
  using export_keeps by (auto simp: out_export_def Let_def split: prod.split)

lemma out_close_disk [simp]: "out_disk (out_close E c p err w) = w_disk w"
  by (simp add: out_close_def)

lemma apply_plan_disk:
  "out_disk (apply_plan E p ops w) = w_disk w \<and> exit_code (apply_plan E p ops w) \<noteq> Some 0 \<or>
   \<not> aborted (apply_sync (e_mos E) False ops (spa_meta_objset (w_spa w))) \<and>
   out_disk (apply_plan E p ops w) =
     sync_mos (apply_sync (e_mos E) False ops (spa_meta_objset (w_spa w)))"
proof -
  let ?f = "apply_sync (e_mos E) False ops" and ?m = "spa_meta_objset (w_spa w)"
  show ?thesis
  proof (cases "dsl_sync_task E ?f (w_disk w) ?m (length ops)")
    case (Returned err d m' log)
    with task_returned [OF Returned] assert_fatal show ?thesis
      by (auto simp: apply_plan_def Let_def)
        (auto simp: out_close_def out_export_def Let_def split: prod.splits)
  next
    case (Killed d log)
    with task_killed [OF Killed] assert_fatal show ?thesis
      by (simp add: apply_plan_def)
  qed
qed

lemma with_pool_disk:
  "out_disk (with_pool E c p ops w) = w_disk w \<and> (\<not> c \<or> exit_code (with_pool E c p ops w) \<noteq> Some 0) \<or>
   c \<and> \<not> aborted (apply_sync (e_mos E) False ops (spa_meta_objset (w_spa w))) \<and>
   out_disk (with_pool E c p ops w) =
     sync_mos (apply_sync (e_mos E) False ops (spa_meta_objset (w_spa w)))"
  using apply_plan_disk [of p ops "emits [E_say (O_satisfied (length ops))] (checked_world E c ops w)"]
  by (auto simp: with_pool_eq Let_def out_close_exit)

end

text \<open>The state of the pool when its checks and the transaction start, in commit mode.\<close>

definition opened_mos :: "'m zpool_env \<Rightarrow> bool \<Rightarrow> string \<Rightarrow> 'm \<Rightarrow> 'm" where
  "opened_mos E c p d =
     spa_meta_objset (snd (spa_open E p (snd (snd (import_result E c p d)))))"

lemma operate_imported:
  assumes "do_import E p (\<not> c) w = Inr (0, w')"
  shows "operate E c p ops w =
    (let w'' = (emits [E_open p True] w')\<lparr>w_feature_checks_disable := False\<rparr>;
         (err, sp) = spa_open E p (w_spa w')
     in if err \<noteq> 0 then out_export E c p err (emits [E_say (O_open_failed err)] w'')
        else with_pool E c p ops (w''\<lparr>w_spa := sp\<rparr>))"
  using assms by (simp add: operate_def Let_def emits_def split: prod.split)

context zpool_contract
begin

lemma operate_disk:
  "(out_disk (operate E c p ops w) = w_disk w \<or>
    out_disk (operate E c p ops w) = fst (snd (import_result E c p (w_disk w)))) \<and>
     (\<not> c \<or> exit_code (operate E c p ops w) \<noteq> Some 0) \<or>
   c \<and> \<not> aborted (apply_sync (e_mos E) False ops (opened_mos E c p (w_disk w))) \<and>
   out_disk (operate E c p ops w) =
     sync_mos (apply_sync (e_mos E) False ops (opened_mos E c p (w_disk w)))"
proof (cases rule: do_import_cases [of E p c w])
  case (imported w')
  obtain err sp where o: "spa_open E p (w_spa w') = (err, sp)" by force
  let ?w = "(emits [E_open p True] w')\<lparr>w_feature_checks_disable := False\<rparr>"
  show ?thesis
  proof (cases "err = 0")
    case True
    then have "operate E c p ops w = with_pool E c p ops (?w\<lparr>w_spa := sp\<rparr>)"
      using operate_imported [OF imported(1)] o by simp
    moreover have "opened_mos E c p (w_disk w) = spa_meta_objset sp"
      using imported(3) o by (simp add: opened_mos_def)
    ultimately show ?thesis
      using with_pool_disk [of c p ops "?w\<lparr>w_spa := sp\<rparr>"] imported(2) by auto
  next
    case False
    then have "operate E c p ops w = out_export E c p err (emits [E_say (O_open_failed err)] ?w)"
      using operate_imported [OF imported(1)] o by simp
    then have "exit_code (operate E c p ops w) \<noteq> Some 0"
      and "out_disk (operate E c p ops w) = fst (snd (import_result E c p (w_disk w)))"
      using False imported(2) by (simp_all add: out_export_exit)
    then show ?thesis by blast
  qed
qed (simp_all add: operate_def)

lemma import_result_read: "fst (snd (import_result E False p d)) = d"
  using import_read by (metis import_mode_def import_result_def prod.collapse)

end

subsection \<open>Traces\<close>

lemma out_export_trace:
  "\<exists>m tail. out_trace (out_export E c p err w) =
     w_trace w @ [banner ''Exporting pool'', E_export p, E_say m, E_kernel_fini] @ map E_say tail \<and>
     \<not> reports m \<and> list_all (\<lambda>x. \<not> reports x) tail"
proof -
  obtain x d where "spa_export E (w_mode w) p (w_disk w) (w_spa w) = (x, d)" by force
  then show ?thesis
    by (intro exI [of _ "if x \<noteq> 0 then O_export_warning else O_exported"]
        exI [of _ "if c \<and> err = 0 then [O_next_steps p] else []"])
      (simp add: out_export_def Let_def)
qed

text \<open>The claim for each phase: the trace is a life of the pool, and a normal exit ends it.\<close>

definition lives :: "'m outcome \<Rightarrow> bool" where
  "lives r \<longleftrightarrow> (case exit_code r of
      Some _ \<Rightarrow> life_steps L_down (out_trace r) L_down
    | None \<Rightarrow> (\<exists>s. life_steps L_down (out_trace r) s))"

lemma lives_export:
  assumes "life_steps L_down (w_trace w) L_closed"
  shows "lives (out_export E c p err w)"
  using assms out_export_trace [of E c p err w]
  by (auto simp: lives_def out_export_exit)

lemma lives_close:
  "life_steps L_down (w_trace w) s \<Longrightarrow> s = L_open m \<or> s = L_synced \<Longrightarrow>
     lives (out_close E c p err w)"
  unfolding out_close_def by (rule lives_export) auto

lemma lives_apply_plan:
  assumes "life_steps L_down (w_trace w) (L_open SPA_MODE_READ_WRITE)"
  shows "lives (apply_plan E p ops w)"
proof (cases "dsl_sync_task E (apply_sync (e_mos E) (assert_ok E) ops) (w_disk w)
    (spa_meta_objset (w_spa w)) (length ops)")
  case (Returned err d m log)
  then show ?thesis
    using assms by (auto simp: apply_plan_def Let_def intro!: lives_close [where s = L_synced])
next
  case (Killed d log)
  then show ?thesis using assms by (auto simp: apply_plan_def Let_def lives_def)
qed

lemma lives_with_pool:
  assumes "life_steps L_down (w_trace w) (L_opening (import_mode c))"
  shows "lives (with_pool E c p ops w)"
proof -
  let ?w = "checked_world E c ops w"
  have l: "life_steps L_down (w_trace ?w) (L_open (import_mode c))"
    using assms by (auto simp: import_mode_def)
  then have "lives (out_close E c p err (emits [E_say msg] ?w))" if "\<not> reports msg" for msg err
    using that by (intro lives_close [where s = "L_open (import_mode c)"]) auto
  moreover have "lives (out_close E c p err (emits [E_say msg, E_say msg'] ?w))"
    if "\<not> reports msg" "\<not> reports msg'" for msg msg' err
    using that l by (intro lives_close [where s = "L_open (import_mode c)"]) auto
  moreover have "c \<Longrightarrow> lives (apply_plan E p ops (emits [E_say (O_satisfied (length ops))] ?w))"
    using l by (intro lives_apply_plan) (auto simp: import_mode_def)
  ultimately show ?thesis by (auto simp: with_pool_eq Let_def)
qed

lemma life_import_calls:
  "life_steps s (import_calls c p) t \<longleftrightarrow> s = L_down \<and> t = L_found (import_mode c)"
  by (auto simp: import_calls_def import_mode_def)

lemma import_mode_flags:
  "(import_mode c = SPA_MODE_READ) = (\<not> c)"
  "import_flags c = (if import_mode c = SPA_MODE_READ then ZFS_IMPORT_SKIP_MMP else ZFS_IMPORT_NORMAL)"
  by (simp_all add: import_mode_def import_flags_def)

lemma lives_operate:
  assumes "life_steps L_down (w_trace w) L_down"
  shows "lives (operate E c p ops w)"
proof (cases rule: do_import_cases [of E p c w])
  case (abort w')
  then show ?thesis
    using assms by (auto simp: operate_def lives_def life_import_calls)
next
  case (no_pool err w')
  then show ?thesis
    using assms by (auto simp: operate_def lives_def life_import_calls)
next
  case (failed err w')
  then show ?thesis
    using assms by (auto simp: operate_def lives_def life_import_calls import_mode_flags)
next
  case (imported w')
  obtain err sp where o: "spa_open E p (w_spa w') = (err, sp)" by force
  have "life_steps L_down (w_trace w') (L_active (import_mode c))"
    using assms imported(5) by (auto simp: life_import_calls import_mode_flags)
  then show ?thesis
    using o by (auto simp: operate_imported [OF imported(1)] Let_def
        intro!: lives_export lives_with_pool) blast
qed

subsection \<open>From the command line to the import\<close>

text \<open>What the run prints before it touches libzpool.\<close>

definition preamble :: "bool \<Rightarrow> string \<Rightarrow> string \<Rightarrow> op_t list \<Rightarrow> event list" where
  "preamble c p l ops =
    [E_say (O_parsed (length ops) l),
     banner (if c then ''zhaxx: COMMIT MODE'' else ''zhaxx: DUMP MODE (read-only)''),
     E_say (O_pool p)] @ (if c then [E_say (O_prompt (length ops))] else [])"

lemma main_cases:
  obtains (usage) "main E fopen stdin argv w = exits 2 (emits [E_say O_usage] w)"
      and "\<forall>c p l. parse_args (tl argv) False None None \<noteq> Some (c, Some p, Some l)"
  | (bad_plan) c p l e where "main E fopen stdin argv w = exits 2 (emits [E_say (O_parse_error e)] w)"
      and "parse_args (tl argv) False None None = Some (c, Some p, Some l)"
      and "parse_plan fopen l = Inl e"
  | (empty) c p l where "main E fopen stdin argv w =
        exits 0 (emits [E_say (O_parsed 0 l), E_say O_empty] w)"
      and "parse_args (tl argv) False None None = Some (c, Some p, Some l)"
      and "parse_plan fopen l = Inr []"
  | (declined) p l ops where "main E fopen stdin argv w =
        exits 1 (emits (preamble True p l ops @ [E_say O_declined]) w)"
      and "parse_args (tl argv) False None None = Some (True, Some p, Some l)"
      and "parse_plan fopen l = Inr ops" and "\<not> consent stdin"
  | (run) c p l ops where "main E fopen stdin argv w = operate E c p ops (emits (preamble c p l ops) w)"
      and "parse_args (tl argv) False None None = Some (c, Some p, Some l)"
      and "parse_plan fopen l = Inr ops" and "ops \<noteq> []" and "c \<longrightarrow> consent stdin"
proof (cases "parse_args (tl argv) False None None")
  case None
  then show thesis using usage by (simp add: main_def)
next
  case (Some r)
  obtain c po lo where r: "r = (c, po, lo)" by (metis prod_cases3)
  show thesis
  proof (cases "po = None \<or> lo = None")
    case True
    then show thesis using Some r by (intro usage) (auto simp: main_def split: option.splits)
  next
    case False
    then obtain p l where pl: "po = Some p" "lo = Some l" by auto
    show thesis
    proof (cases "parse_plan fopen l")
      case (Inl e)
      then show thesis using bad_plan Some r pl by (simp add: main_def)
    next
      case (Inr ops)
      have eq: "main E fopen stdin argv w =
        (if ops = [] then exits 0 (emits [E_say (O_parsed 0 l), E_say O_empty] w)
         else if c \<and> \<not> consent stdin
           then exits 1 (emits (preamble True p l ops @ [E_say O_declined]) w)
         else operate E c p ops (emits (preamble c p l ops) w))"
        using Some r pl Inr
        by (auto simp: main_def Let_def preamble_def emits_def)
      show thesis
        using Some r pl Inr
        by (cases "ops = []"; cases "c \<and> \<not> consent stdin")
          (use eq in \<open>auto intro: empty declined run\<close>)
    qed
  qed
qed

lemma life_preamble [simp]: "life_steps s (preamble c p l ops) t \<longleftrightarrow> t = s"
  by (auto simp: preamble_def)

lemma preamble_says: "ev \<in> set (preamble c p l ops) \<Longrightarrow> \<exists>m. ev = E_say m"
  by (auto simp: preamble_def banner_def split: if_splits)

subsection \<open>The sync task in the trace\<close>

lemma out_export_sync [simp]:
  "E_sync_task n \<in> set (out_trace (out_export E c p err w)) \<longleftrightarrow> E_sync_task n \<in> set (w_trace w)"
  "E_sync_task n \<in> set (out_trace (out_close E c p err w)) \<longleftrightarrow> E_sync_task n \<in> set (w_trace w)"
proof -
  have x: "E_sync_task n \<in> set (out_trace (out_export E c p err w)) \<longleftrightarrow> E_sync_task n \<in> set (w_trace w)"
    for w
    using out_export_trace [of E c p err w] by (auto simp: banner_def)
  show "E_sync_task n \<in> set (out_trace (out_export E c p err w)) \<longleftrightarrow> E_sync_task n \<in> set (w_trace w)"
    "E_sync_task n \<in> set (out_trace (out_close E c p err w)) \<longleftrightarrow> E_sync_task n \<in> set (w_trace w)"
    by (simp_all add: x out_close_def)
qed

lemma apply_plan_trace:
  "\<exists>rest. out_trace (apply_plan E p ops w) =
     w_trace w @ [banner ''Applying plan'', E_sync_task (length ops)] @ rest"
proof -
  have x: "\<exists>rest. out_trace (out_close E True p err w) = w_trace w @ rest" for err and w :: "'a world"
    using out_export_trace [of E True p err "emits [E_close] w"] by (auto simp: out_close_def)
  show ?thesis
  proof (cases "dsl_sync_task E (apply_sync (e_mos E) (assert_ok E) ops) (w_disk w)
      (spa_meta_objset (w_spa w)) (length ops)")
    case (Returned err d m log)
    let ?w = "emits (map (E_say \<circ> O_sync) log)
      (emits [banner ''Applying plan'', E_sync_task (length ops)] w
        \<lparr>w_disk := d, w_spa := (w_spa w)\<lparr>spa_meta_objset := m\<rparr>\<rparr>)"
    define es where "es = (if err \<noteq> 0 then [E_say (O_task_failed err)]
        else [E_say O_applied, banner ''Verification (post-apply)''] @
          map (E_say \<circ> O_check) (snd (check_all (e_mos E) m ops)))"
    have eq: "out_trace (apply_plan E p ops w) = out_trace (out_close E True p err (emits es ?w))"
      using Returned by (simp add: apply_plan_def es_def)
    from x [of err "emits es ?w"] obtain rest where
      "out_trace (out_close E True p err (emits es ?w)) = w_trace (emits es ?w) @ rest" by blast
    with eq show ?thesis by simp
  next
    case (Killed d log)
    then show ?thesis by (simp add: apply_plan_def)
  qed
qed

lemma with_pool_sync:
  assumes "E_sync_task n \<in> set (out_trace (with_pool E c p ops w))" and "E_sync_task n \<notin> set (w_trace w)"
  shows "c \<and> (\<forall>op \<in> set ops. op_ok (e_mos E) (spa_meta_objset (w_spa w)) op) \<and>
    with_pool E c p ops w =
      apply_plan E p ops (emits [E_say (O_satisfied (length ops))] (checked_world E c ops w))"
  using assms check_all_count [of "e_mos E" "spa_meta_objset (w_spa w)" ops]
  by (auto simp: with_pool_eq Let_def banner_def split: if_splits)

lemma operate_sync:
  assumes "E_sync_task n \<in> set (out_trace (operate E c p ops w))" and "E_sync_task n \<notin> set (w_trace w)"
  obtains w' where "operate E c p ops w = with_pool E c p ops w'" and "E_sync_task n \<notin> set (w_trace w')"
    and "\<exists>pre. w_trace w' = w_trace w @ pre \<and> list_all (\<lambda>e. \<forall>d. e \<noteq> E_say (O_check d)) pre"
    and "spa_meta_objset (w_spa w') = opened_mos E c p (w_disk w)"
proof (cases rule: do_import_cases [of E p c w])
  case (abort w')
  then have False using assms by (simp add: operate_def import_calls_def)
  then show thesis ..
next
  case (no_pool err w')
  then have False using assms by (simp add: operate_def import_calls_def)
  then show thesis ..
next
  case (failed err w')
  then have False using assms by (simp add: operate_def import_calls_def)
  then show thesis ..
next
  case (imported w')
  obtain err sp where o: "spa_open E p (w_spa w') = (err, sp)" by force
  have "E_sync_task n \<notin> set (w_trace w')"
    using imported(5) assms(2) by (simp add: import_calls_def)
  moreover have "\<exists>pre. w_trace w' = w_trace w @ pre \<and> list_all (\<lambda>e. \<forall>d. e \<noteq> E_say (O_check d)) pre"
    using imported(5) by (simp add: import_calls_def)
  ultimately show thesis
    using assms o imported(3)
    by (intro that [of "emits [E_open p True] w'\<lparr>w_feature_checks_disable := False, w_spa := sp\<rparr>"])
      (auto simp: operate_imported [OF imported(1)] opened_mos_def Let_def split: if_splits)
qed

subsection \<open>Read-only runs\<close>

text \<open>The events of a run that cannot write.\<close>

fun read_only_event :: "event \<Rightarrow> bool" where
  "read_only_event (E_kernel_init m) = (m = SPA_MODE_READ)"
| "read_only_event (E_import _ ro fl _ _) = (ro \<and> fl = ZFS_IMPORT_SKIP_MMP)"
| "read_only_event E_errlog_clear = False"
| "read_only_event (E_sync_task _) = False"
| "read_only_event _ = True"

lemma read_only_banner [simp]: "read_only_event (banner msg)"
  by (simp add: banner_def)

lemma read_only_says [simp]:
  "list_all read_only_event (map E_say xs)" "list_all read_only_event (map (E_say \<circ> f) ys)"
  by (simp_all add: list_all_iff)

lemma out_export_read_only:
  "list_all read_only_event (out_trace (out_export E c p err w)) = list_all read_only_event (w_trace w)"
  "list_all read_only_event (out_trace (out_close E c p err w)) = list_all read_only_event (w_trace w)"
proof -
  have x: "list_all read_only_event (out_trace (out_export E c p err w)) =
      list_all read_only_event (w_trace w)" for w
    using out_export_trace [of E c p err w] by auto
  show "list_all read_only_event (out_trace (out_export E c p err w)) =
      list_all read_only_event (w_trace w)"
    "list_all read_only_event (out_trace (out_close E c p err w)) =
      list_all read_only_event (w_trace w)"
    by (simp_all add: x out_close_def)
qed

lemma operate_read_only:
  assumes "list_all read_only_event (w_trace w)"
  shows "list_all read_only_event (out_trace (operate E False p ops w))"
proof (cases rule: do_import_cases [of E p False w])
  case (imported w')
  then have "list_all read_only_event (w_trace w')"
    using assms by (simp add: import_calls_def import_mode_def import_flags_def)
  with operate_imported [of E p False] imported(1) show ?thesis
    by (auto simp: Let_def with_pool_eq out_export_read_only split: prod.split)
qed (use assms in \<open>simp_all add: operate_def import_calls_def import_mode_def import_flags_def\<close>)

lemma preamble_read_only [simp]: "list_all read_only_event (preamble c p l ops)"
  by (simp add: preamble_def)

subsection \<open>Feature checks\<close>

lemma out_close_feature [simp]:
  "out_feature_off (out_export E c p err w) = w_feature_checks_disable w"
  "out_feature_off (out_close E c p err w) = w_feature_checks_disable w"
  by (simp_all add: out_close_def out_export_def Let_def split: prod.split)

lemma apply_plan_feature [simp]:
  "out_feature_off (apply_plan E p ops w) = w_feature_checks_disable w"
  by (simp add: apply_plan_def Let_def split: task_end.split)

lemma operate_feature:
  "\<not> w_feature_checks_disable w \<Longrightarrow> \<not> out_feature_off (operate E c p ops w)"
proof (cases rule: do_import_cases [of E p c w])
  case (imported w')
  then show ?thesis
    by (auto simp: operate_imported Let_def with_pool_eq split: prod.split)
qed (simp_all add: operate_def)

subsection \<open>An executable pool\<close>

text \<open>
  A libzpool on the store of theory \<open>MosStore\<close>: the pool named \<^verbatim>\<open>tank\<close> is found and
  imported with the MOS its storage holds; a sync task is refused when the store has no root
  object and runs otherwise.
\<close>

definition store_env :: "mos zpool_env" where
  "store_env =
    \<lparr>e_mos = store_ops,
     zpool_find_config = (\<lambda>t _. if t = ''tank'' then 0 else ENOENT),
     nvlist_alloc = 0, nvlist_add_uint64 = 0,
     spa_import = (\<lambda>_ _ _ _ d.
       (0, d, \<lparr>spa_meta_objset = d, spa_errlog_last = 910, spa_errlog_scrub = 0\<rparr>)),
     spa_open = (\<lambda>_ s. (0, s)),
     dsl_sync_task = (\<lambda>f d m n.
       if m 1 = None then Returned ENOENT d m []
       else (case f m of Sync a m' log \<Rightarrow> if a then Killed d log else Returned 0 m' m' log)),
     spa_export = (\<lambda>_ _ d _. (0, d)),
     assert_ok = False\<rparr>"

interpretation store_pool: zpool_contract store_env
  by (rule zpool_contract.intro)
    (auto simp: store_env_def ENOENT_def store.mos_contract_axioms split: sync_run.splits if_splits)

text \<open>A process before its first call, and the example plan on disk.\<close>

definition pool_on :: "'m \<Rightarrow> 'm world" where
  "pool_on d = \<lparr>w_disk = d,
     w_spa = \<lparr>spa_meta_objset = d, spa_errlog_last = 0, spa_errlog_scrub = 0\<rparr>, w_mode = SPA_MODE_READ, w_scan_suspend_progress = 0,
     w_feature_checks_disable = False, w_can_be_active = False, w_trace = []\<rparr>"

definition orphan_file :: "string \<Rightarrow> string option" where
  "orphan_file = [''repair.plan'' \<mapsto> write_plan (plan_of (zip orphan_plan orphan_comments))]"

lemma orphan_file_parses: "parse_plan orphan_file ''repair.plan'' = Inr (map intended orphan_plan)"
proof -
  let ?pcs = "zip orphan_plan orphan_comments"
  have "list_all (\<lambda>(p, c). emit_ok p \<and> comment_ok c) ?pcs"
    using orphan_plan_ok orphan_comments_ok
    by (auto simp: list_all_iff dest: set_zip_leftD set_zip_rightD)
  moreover have len: "length orphan_plan = length orphan_comments"
    by (simp add: orphan_plan_def orphan_comments_def)
  moreover have "length ?pcs \<le> MAX_OPS" by (simp add: orphan_plan_def MAX_OPS_def)
  ultimately have "parse_plan orphan_file ''repair.plan'' = Inr (map (intended \<circ> fst) ?pcs)"
    by (intro parse_plan_written) (simp_all add: orphan_file_def)
  moreover have "map (intended \<circ> fst) ?pcs = map intended orphan_plan"
    using len by (simp add: map_map [symmetric] del: map_map)
  ultimately show ?thesis by simp
qed

definition commit_line :: "string list" where
  "commit_line = [''zhaxx'', ''--commit'', ''--plan'', ''repair.plan'', ''tank'']"

lemma commit_line_args:
  "parse_args (tl commit_line) False None None = Some (True, Some ''tank'', Some ''repair.plan'')"
  by (simp add: commit_line_def)

text \<open>The example plan applied to the damaged pool by a whole run of the program.\<close>

lemma commit_line_main:
  "main store_env orphan_file (''YES'' @ [NL]) commit_line (pool_on orphan_pool) =
     operate store_env True ''tank'' (map intended orphan_plan)
       (emits (preamble True ''tank'' ''repair.plan'' (map intended orphan_plan)) (pool_on orphan_pool))"
proof -
  have "consent (''YES'' @ [NL])" by (simp add: consent_iff)
  then show ?thesis
    using commit_line_args orphan_file_parses
    by (simp add: main_def Let_def preamble_def emits_def orphan_plan_def del: intended.simps)
qed

lemma commit_line_opened: "opened_mos store_env True ''tank'' orphan_pool = orphan_pool"
  by (simp add: opened_mos_def import_result_def store_env_def)

lemma commit_run:
  "exit_code (operate store_env True ''tank'' (map intended orphan_plan) w) = Some 0 \<and>
   E_sync_task (length orphan_plan) \<in>
     set (out_trace (operate store_env True ''tank'' (map intended orphan_plan) w))"
  if "w_disk w = orphan_pool" for w
proof -
  let ?ops = "map intended orphan_plan"
  have env: "e_mos store_env = store_ops" "\<not> assert_ok store_env" "zpool_find_config store_env ''tank'' b = 0"
    "spa_open store_env p s = (0, s)" for b p s
    by (simp_all add: store_env_def)
  have imp: "import_result store_env c p d =
      (0, d, \<lparr>spa_meta_objset = d, spa_errlog_last = 910, spa_errlog_scrub = 0\<rparr>)" for c p d
    by (simp add: import_result_def store_env_def)
  have root: "orphan_pool 1 \<noteq> None" by (simp add: orphan_pool_def)
  have ok: "fst (check_all store_ops orphan_pool ?ops) = 0"
    using orphan_checks by (simp add: check_all_count list_all_iff)
  obtain log where sync: "apply_sync store_ops False ?ops orphan_pool = Sync False repaired_pool log"
    using orphan_sync by (metis sync_run.collapse sync_run.exhaust)
  have task: "dsl_sync_task store_env (apply_sync store_ops False ?ops) orphan_pool orphan_pool n =
      Returned 0 repaired_pool repaired_pool log" for n
    using root sync by (auto simp: store_env_def)
  have applied: "exit_code (apply_plan store_env ''tank'' ?ops w) = Some 0 \<and>
      E_sync_task (length orphan_plan) \<in> set (out_trace (apply_plan store_env ''tank'' ?ops w))"
    if "w_disk w = orphan_pool" "spa_meta_objset (w_spa w) = orphan_pool" for w
    using that task by (simp add: apply_plan_def env out_close_exit)
  have pool: "exit_code (with_pool store_env True ''tank'' ?ops w) = Some 0 \<and>
      E_sync_task (length orphan_plan) \<in> set (out_trace (with_pool store_env True ''tank'' ?ops w))"
    if "w_disk w = orphan_pool" "spa_meta_objset (w_spa w) = orphan_pool" for w
    using that ok by (simp add: with_pool_eq env Let_def applied)
  show ?thesis
  proof (cases rule: do_import_cases [of store_env "''tank''" True w])
    case (abort w')
    then show ?thesis by simp
  next
    case (no_pool err w')
    then show ?thesis by (simp add: do_import_def store_env_def Let_def EEXIST_def)
  next
    case (failed err w')
    then show ?thesis by (simp add: do_import_def store_env_def Let_def EEXIST_def)
  next
    case (imported w')
    then show ?thesis
      using that operate_imported [of store_env "''tank''" True w w' ?ops]
      by (simp add: Let_def env imp pool)
  qed
qed

lemma commit_repairs:
  assumes "zpool_contract E" and "exit_code (main E fopen stdin argv w) = Some 0"
    and "parse_args (tl argv) False None None = Some (True, Some pool, Some path)"
    and "parse_plan fopen path = Inr ops" and "ops \<noteq> []" and "sorted_wrt independent ops"
  shows "list_all (op_post (e_mos E) (out_disk (main E fopen stdin argv w))) ops"
proof -
  have run: "main E fopen stdin argv w = operate E True pool ops (emits (preamble True pool path ops) w)"
    using assms(2-5) by (simp add: main_def Let_def preamble_def emits_def split: if_splits)
  let ?m = "opened_mos E True pool (w_disk w)"
  have "\<not> aborted (apply_sync (e_mos E) False ops ?m)"
    and "out_disk (main E fopen stdin argv w) = sync_mos (apply_sync (e_mos E) False ops ?m)"
    using zpool_contract.operate_disk [OF assms(1), of True pool ops "emits (preamble True pool path ops) w"]
      run assms(2) by auto
  with completed_goals [OF zpool_contract.mos [OF assms(1)] _ assms(6)] show ?thesis
    by (simp add: list_all_iff)
qed

text \<open>
  A run in commit mode whose calls to libzpool are not refused, whose checks pass and whose
  operations apply, exits with 0.
\<close>

lemma operate_completes:
  assumes "zpool_contract E" and "zpool_find_config E pool False = 0"
    and "fst (import_result E True pool (w_disk w)) \<in> {0, EEXIST}"
    and "fst (spa_open E pool (snd (snd (import_result E True pool (w_disk w))))) = 0"
    and "\<And>f err d m log. dsl_sync_task E f (fst (snd (import_result E True pool (w_disk w))))
           (opened_mos E True pool (w_disk w)) (length ops) = Returned err d m log \<Longrightarrow> err = 0"
    and "\<not> aborted (apply_sync (e_mos E) False ops (opened_mos E True pool (w_disk w)))"
  shows "exit_code (operate E True pool ops w) = Some 0"
proof -
  let ?imp = "import_result E True pool (w_disk w)" and ?m = "opened_mos E True pool (w_disk w)"
  obtain w' where w': "do_import E pool (\<not> True) w = Inr (0, w')"
    "w_disk w' = fst (snd ?imp)" "w_spa w' = snd (snd ?imp)"
  proof (cases rule: do_import_cases [of E pool True w])
    case (no_pool err w')
    with assms(2,3) show thesis
      by (auto simp: do_import_def Let_def import_result_def import_mode_def import_flags_def
          split: prod.splits if_splits)
  next
    case (failed err w')
    with assms(2,3) show thesis
      by (auto simp: do_import_def Let_def import_result_def import_mode_def import_flags_def
          split: prod.splits if_splits)
  qed (use that in simp_all)
  obtain sp where sp: "spa_open E pool (w_spa w') = (0, sp)" "spa_meta_objset sp = ?m"
    using assms(4) w'(3) by (cases "spa_open E pool (w_spa w')") (simp add: opened_mos_def)
  have ok: "\<not> assert_ok E" using zpool_contract.assert_fatal [OF assms(1)] .
  have checks: "fst (check_all (e_mos E) ?m ops) = 0"
    using assms(6) by (simp add: check_all_count apply_sync_cases)
  have applied: "exit_code (apply_plan E pool ops w2) = Some 0"
    if "w_disk w2 = fst (snd ?imp)" "spa_meta_objset (w_spa w2) = ?m" for w2
  proof (cases "dsl_sync_task E (apply_sync (e_mos E) False ops) (fst (snd ?imp)) ?m (length ops)")
    case (Returned err d m log)
    then show ?thesis using assms(5) [OF Returned] that ok by (simp add: apply_plan_def Let_def out_close_exit)
  next
    case (Killed d log)
    then show ?thesis using zpool_contract.task_killed [OF assms(1) Killed] assms(6) by simp
  qed
  show ?thesis
    using operate_imported [OF w'(1)] w'(2) sp checks
    by (simp add: Let_def with_pool_eq applied)
qed

subsection \<open>Properties\<close>


text \<open>
  C5: dump mode writes nothing. Without \<^verbatim>\<open>--commit\<close> on the command line the pool's storage
  is the same after the run, however it ends, and the run only ever starts libzpool in read
  mode, imports with the read-only property, and neither clears an error log nor starts a sync
  task.
\<close>

theorem dump_mode_writes_nothing:
  assumes "zpool_contract E" and "''--commit'' \<notin> set (tl argv)" and "w_trace w = []"
  shows "out_disk (main E fopen stdin argv w) = w_disk w \<and>
    list_all read_only_event (out_trace (main E fopen stdin argv w))"
proof (cases rule: main_cases [of E fopen stdin argv w])
  case (declined p l ops)
  then show ?thesis using assms(3) by simp
next
  case (run c p l ops)
  have c: "\<not> c" using parse_args_commit [OF run(2) assms(2)] by simp
  have "out_disk (operate E c p ops w') = w_disk w'" for w'
    using zpool_contract.operate_disk [OF assms(1), of c p ops w'] c
      zpool_contract.import_result_read [OF assms(1)] by auto
  with run(1) c assms(3) operate_read_only [of "emits (preamble c p l ops) w" E p ops]
  show ?thesis by simp
qed (use assms(3) in simp_all)

theorem dump_mode_writes_nothing_witness:
  "out_disk (main store_env orphan_file
     ''YES'' [''zhaxx'', ''--plan'', ''repair.plan'', ''tank''] (pool_on orphan_pool)) = orphan_pool"
  using dump_mode_writes_nothing [OF store_pool.zpool_contract_axioms,
      of "[''zhaxx'', ''--plan'', ''repair.plan'', ''tank'']" "pool_on orphan_pool"]
  by (simp add: pool_on_def)

text \<open>
  C6: nothing is applied without consent and checks. If a run starts a sync task then
  \<^verbatim>\<open>--commit\<close> was given, the operator's answer began with the line \<^verbatim>\<open>YES\<close>, the plan
  parsed and has as many operations as the task was started with, every precondition held on
  the MOS that was opened, and no failed check was reported before the task started.
\<close>

theorem apply_needs_consent_and_checks:
  assumes "E_sync_task n \<in> set (out_trace (main E fopen stdin argv w))" and "w_trace w = []"
  shows "''--commit'' \<in> set (tl argv) \<and> prefix (''YES'' @ [NL]) stdin \<and>
    (\<exists>path pool ops. parse_plan fopen path = Inr ops \<and> ops \<noteq> [] \<and>
       list_all (\<lambda>op. fst (check_op (e_mos E) (opened_mos E True pool (w_disk w)) op False)) ops \<and>
       (\<exists>pre post. out_trace (main E fopen stdin argv w) = pre @ [E_sync_task (length ops)] @ post \<and>
          list_all (\<lambda>e. \<forall>d. e = E_say (O_check d) \<longrightarrow> \<not> is_failure d) pre))"
proof (cases rule: main_cases [of E fopen stdin argv w])
  case (declined p l ops)
  then show ?thesis using assms by (auto dest: preamble_says)
next
  case (run c p l ops)
  let ?w = "emits (preamble c p l ops) w"
  have "E_sync_task n \<notin> set (w_trace ?w)" using assms(2) by (auto dest: preamble_says)
  with assms(1) run(1) obtain w' where
    w': "main E fopen stdin argv w = with_pool E c p ops w'" "E_sync_task n \<notin> set (w_trace w')"
      "\<exists>pre. w_trace w' = w_trace ?w @ pre \<and> list_all (\<lambda>e. \<forall>d. e \<noteq> E_say (O_check d)) pre"
      "spa_meta_objset (w_spa w') = opened_mos E c p (w_disk w)"
    by (metis emits_fields(1) operate_sync)
  have s: "c" "\<forall>op \<in> set ops. op_ok (e_mos E) (opened_mos E c p (w_disk w)) op"
    "main E fopen stdin argv w =
       apply_plan E p ops (emits [E_say (O_satisfied (length ops))] (checked_world E c ops w'))"
    using with_pool_sync [of n E c p ops w'] w' assms(1) by auto
  obtain rest where tr: "out_trace (main E fopen stdin argv w) =
      (w_trace (checked_world E c ops w') @ [E_say (O_satisfied (length ops)), banner ''Applying plan''])
      @ [E_sync_task (length ops)] @ rest"
    using apply_plan_trace [of E p ops "emits [E_say (O_satisfied (length ops))] (checked_world E c ops w')"]
      s(3) by auto
  have "fst (check_all (e_mos E) (opened_mos E c p (w_disk w)) ops) = 0"
    using s(2) by (simp add: check_all_count)
  from check_all_no_failure [OF this] w'(3) have
    "list_all (\<lambda>e. \<forall>d. e = E_say (O_check d) \<longrightarrow> \<not> is_failure d)
      (w_trace (checked_world E c ops w') @ [E_say (O_satisfied (length ops)), banner ''Applying plan''])"
    by (auto simp: list_all_iff w'(4) banner_def assms(2) preamble_def split: if_splits)
  with tr have "\<exists>pre post. out_trace (main E fopen stdin argv w) = pre @ [E_sync_task (length ops)] @ post \<and>
      list_all (\<lambda>e. \<forall>d. e = E_say (O_check d) \<longrightarrow> \<not> is_failure d) pre" by blast
  moreover have "''--commit'' \<in> set (tl argv)" using parse_args_commit [OF run(2)] s(1) by blast
  moreover have "list_all (\<lambda>op. fst (check_op (e_mos E) (opened_mos E True p (w_disk w)) op False)) ops"
    using s(1,2) by (simp add: list_all_iff check_op_verdict)
  ultimately show ?thesis using run(3-5) s(1) consent_iff [of stdin] by blast
qed (use assms in simp_all)

theorem apply_needs_consent_and_checks_witness:
  "\<exists>path pool ops. parse_plan orphan_file path = Inr ops \<and> ops \<noteq> [] \<and>
     list_all (\<lambda>op. fst (check_op store_ops (opened_mos store_env True pool orphan_pool) op False)) ops"
proof -
  have disk: "w_disk (emits es (pool_on orphan_pool)) = orphan_pool" for es
    by (simp add: pool_on_def)
  have sync: "E_sync_task (length orphan_plan) \<in>
      set (out_trace (main store_env orphan_file (''YES'' @ [NL]) commit_line (pool_on orphan_pool)))"
    unfolding commit_line_main using commit_run [OF disk] by blast
  have env: "e_mos store_env = store_ops" "w_disk (pool_on orphan_pool) = orphan_pool"
    and trace: "w_trace (pool_on orphan_pool) = []"
    by (simp_all add: store_env_def pool_on_def)
  from apply_needs_consent_and_checks [OF sync trace, unfolded env] show ?thesis by blast
qed

text \<open>
  C4: the storage is changed all or nothing. After any run, however it ends, the pool's storage
  is what it was at the start or what the import left, or else it is the MOS the pool was
  opened with after every operation of the plan was applied in order with every precondition
  checked on that MOS.
\<close>

theorem storage_all_or_nothing:
  assumes "zpool_contract E"
  shows "out_disk (main E fopen stdin argv w) = w_disk w \<or>
    (\<exists>c pool. out_disk (main E fopen stdin argv w) = fst (snd (import_result E c pool (w_disk w)))) \<or>
    (\<exists>path pool ops. parse_plan fopen path = Inr ops \<and>
       list_all (op_ok (e_mos E) (opened_mos E True pool (w_disk w))) ops \<and>
       apply_ops (e_mos E) (opened_mos E True pool (w_disk w)) ops =
         (True, out_disk (main E fopen stdin argv w)))"
proof (cases rule: main_cases [of E fopen stdin argv w])
  case (run c p l ops)
  let ?m = "opened_mos E c p (w_disk w)"
  consider (old) "out_disk (main E fopen stdin argv w) = w_disk w"
    | (imported) "out_disk (main E fopen stdin argv w) = fst (snd (import_result E c p (w_disk w)))"
    | (applied) "c" "\<not> aborted (apply_sync (e_mos E) False ops ?m)"
        "out_disk (main E fopen stdin argv w) = sync_mos (apply_sync (e_mos E) False ops ?m)"
    using zpool_contract.operate_disk [OF assms, of c p ops "emits (preamble c p l ops) w"] run(1)
    by fastforce
  then show ?thesis
  proof cases
    case applied
    have "list_all (op_ok (e_mos E) ?m) ops"
      using completed_run(2) [OF applied(2)] by (simp add: list_all_iff)
    moreover have "apply_ops (e_mos E) ?m ops = (True, out_disk (main E fopen stdin argv w))"
      using completed_run(1) [OF applied(2)] applied(3) by simp
    moreover have "?m = opened_mos E True p (w_disk w)" using applied(1) by simp
    ultimately show ?thesis using run(3) by metis
  qed blast+
qed simp_all

theorem storage_all_or_nothing_witness:
  "out_disk (main store_env orphan_file ''no'' commit_line (pool_on orphan_pool)) = orphan_pool \<or>
    (\<exists>c pool. out_disk (main store_env orphan_file ''no'' commit_line (pool_on orphan_pool)) =
       fst (snd (import_result store_env c pool (w_disk (pool_on orphan_pool))))) \<or>
    (\<exists>path pool ops. parse_plan orphan_file path = Inr ops \<and>
       list_all (op_ok (e_mos store_env) (opened_mos store_env True pool (w_disk (pool_on orphan_pool)))) ops \<and>
       apply_ops (e_mos store_env) (opened_mos store_env True pool (w_disk (pool_on orphan_pool))) ops =
         (True, out_disk (main store_env orphan_file ''no'' commit_line (pool_on orphan_pool))))"
  using storage_all_or_nothing [OF store_pool.zpool_contract_axioms, of orphan_file "''no''"
      commit_line "pool_on orphan_pool"]
  by (simp add: pool_on_def)



text \<open>
  C31: the exit codes. A run exits with 0, 1 or 2 or aborts; it exits with 2 exactly when the
  command line or the plan cannot be read, and then it has called nothing and changed nothing.
\<close>

theorem exit_code_2:
  "exit_code (main E fopen stdin argv w) \<in> {None, Some 0, Some 1, Some 2} \<and>
   (exit_code (main E fopen stdin argv w) = Some 2 \<longleftrightarrow>
     (\<forall>c pool path. parse_args (tl argv) False None None \<noteq> Some (c, Some pool, Some path)) \<or>
     (\<exists>c pool path e. parse_args (tl argv) False None None = Some (c, Some pool, Some path) \<and>
        parse_plan fopen path = Inl e)) \<and>
   (exit_code (main E fopen stdin argv w) = Some 2 \<longrightarrow>
     out_disk (main E fopen stdin argv w) = w_disk w \<and>
     (\<exists>m. out_trace (main E fopen stdin argv w) = w_trace w @ [E_say m]))"
proof -
  have op: "exit_code (operate E c p ops w) \<in> {None, Some 0, Some 1}" for c p ops w
  proof (cases rule: do_import_cases [of E p c w])
    case (imported w')
    then show ?thesis
      by (auto simp: operate_imported Let_def with_pool_eq out_export_exit out_close_exit apply_plan_def
          split: prod.split task_end.split)
  qed (simp_all add: operate_def)
  show ?thesis
  proof (cases rule: main_cases [of E fopen stdin argv w])
    case (run c p l ops)
    then show ?thesis using op [of c p ops "emits (preamble c p l ops) w"] by auto
  qed auto
qed

theorem exit_code_2_witness:
  "out_disk (main store_env orphan_file [] [''zhaxx'', ''--commit'', ''tank''] (pool_on orphan_pool))
     = orphan_pool"
  using exit_code_2 [of store_env orphan_file "[]" "[''zhaxx'', ''--commit'', ''tank'']" "pool_on orphan_pool"]
  by (simp add: pool_on_def)

text \<open>
  C32: the feature checks libzpool makes are switched off only around the import and the open.
  Whatever way the run ends, they are on again.
\<close>

theorem feature_checks_restored:
  "\<not> out_feature_off (main E fopen stdin argv (w\<lparr>w_feature_checks_disable := False\<rparr>))"
proof (cases rule: main_cases [of E fopen stdin argv "w\<lparr>w_feature_checks_disable := False\<rparr>"])
  case (run c p l ops)
  then show ?thesis by (simp add: operate_feature)
qed simp_all

end
