(* ===== verification/Scanner.thy ===== *)
theory Scanner
  imports PlanEmit "HOL-Library.List_Lexorder" "HOL-Library.Product_Lexorder" "HOL-Library.Char_ord"
begin

text \<open>
  The checks of the scanner (\<^verbatim>\<open>src/scan/zhaxx-scan\<close>, class \<^verbatim>\<open>Scanner\<close> and
  \<^verbatim>\<open>dedupe_ops\<close>): the error logs, the scan cursor, and the walk over the DSL directories
  with the datasets, child maps and clone lists it meets, each with the findings it reports and
  the operations it plans. A source of parsed object dumps is an argument. The walk is recursive
  in the code and has here the depth of the recursion it may use as a bound; \<open>walk_total\<close>
  shows that the number of directories is enough.
\<close>

subsection \<open>Object dumps\<close>

text \<open>The value of a field: a number, or the text when it is not one.\<close>

datatype ref = R_int nat | R_str string

text \<open>
  \<^verbatim>\<open>ObjDump\<close>. Dictionaries are lists of pairs in insertion order, each key at most once.
  Both kinds of numeric entries are in \<open>od_fields\<close> as well as in \<open>od_zap\<close>.
\<close>

record obj_dump =
  od_exists :: bool
  od_unreadable :: bool
  od_type :: "string option"
  od_bonus_type :: "string option"
  od_fields :: "(string \<times> ref) list"
  od_zap :: "(string \<times> nat) list"
  od_zap_multi :: "(string \<times> nat list) list"

definition missing :: obj_dump where
  "missing = \<lparr>od_exists = False, od_unreadable = False, od_type = None, od_bonus_type = None, od_fields = [], od_zap = [],
     od_zap_multi = []\<rparr>"

definition readable :: "obj_dump \<Rightarrow> bool" where
  "readable d \<longleftrightarrow> od_exists d \<and> \<not> od_unreadable d"

text \<open>
  The source: one dump per object for the whole scan, since both sources keep what they have
  read in a cache. No object has a text or a negative number as its number: a header line of a
  dump has digits there.
\<close>

type_synonym src = "nat \<Rightarrow> obj_dump"

fun get :: "src \<Rightarrow> ref \<Rightarrow> obj_dump" where
  "get s (R_int n) = s n"
| "get s (R_str _) = missing"

definition get_int :: "src \<Rightarrow> int \<Rightarrow> obj_dump" where
  "get_int s i = (if i < 0 then missing else s (nat i))"

text \<open>Python's truth of a value, and the lookups with a default.\<close>

fun truthy :: "ref \<Rightarrow> bool" where
  "truthy (R_int n) \<longleftrightarrow> n \<noteq> 0"
| "truthy (R_str t) \<longleftrightarrow> t \<noteq> []"

fun ref_nat :: "ref \<Rightarrow> nat" where
  "ref_nat (R_int n) = n"
| "ref_nat (R_str _) = 0"

definition field :: "obj_dump \<Rightarrow> string \<Rightarrow> ref" where
  "field d f = (case map_of (od_fields d) f of None \<Rightarrow> R_int 0 | Some r \<Rightarrow> r)"

definition zap_get :: "obj_dump \<Rightarrow> string \<Rightarrow> nat" where
  "zap_get d k = (case map_of (od_zap d) k of None \<Rightarrow> 0 | Some n \<Rightarrow> n)"

text \<open>\<^verbatim>\<open>"..." in (d.type or "")\<close>.\<close>

definition type_str :: "obj_dump \<Rightarrow> string" where
  "type_str d = (case od_type d of None \<Rightarrow> [] | Some t \<Rightarrow> t)"

definition type_has :: "string \<Rightarrow> obj_dump \<Rightarrow> bool" where
  "type_has t d \<longleftrightarrow> strstr t (type_str d) \<noteq> None"

text \<open>
  \<^verbatim>\<open>int(key, 16)\<close>: white space around, a sign, a prefix \<^verbatim>\<open>0x\<close> and single underscores
  between digits are allowed; \<open>None\<close> is the \<^verbatim>\<open>ValueError\<close>.
\<close>

definition strip :: "string \<Rightarrow> string" where
  "strip s = rev (dropWhile isspace (rev (dropWhile isspace s)))"

fun digits_ok :: "bool \<Rightarrow> string \<Rightarrow> bool" where
  "digits_ok after_digit [] \<longleftrightarrow> after_digit"
| "digits_ok after_digit (c # cs) \<longleftrightarrow>
    (if c = CHR ''_'' then after_digit \<and> cs \<noteq> [] \<and> digits_ok False cs
     else is_digit_in 16 c \<and> digits_ok True cs)"

definition py_int16 :: "string \<Rightarrow> int option" where
  "py_int16 key =
    (let (neg, s) = scan_sign (strip key);
         hex = prefix ''0x'' s \<or> prefix ''0X'' s;
         ds = (if hex then drop 2 s else s)
     in if ds \<noteq> [] \<and> (if hex \<and> hd ds = CHR ''_'' then digits_ok True ds else digits_ok False ds)
        then (let n = int (digits_value 16 (filter (\<lambda>c. c \<noteq> CHR ''_'') ds)) in Some (if neg then - n else n))
        else None)"

subsection \<open>Findings and state\<close>

datatype severity = CRITICAL | WARNING | INFO

datatype why = Freed | Unreadable | Recycled "string option"

text \<open>One constructor per message, with what is put into it.\<close>

datatype message =
    M_errlog_dangling string nat
  | M_errlog_recycled string nat "string option"
  | M_errlog_normal string nat
  | M_errlog_stale string string int bool
  | M_per_recycled nat "string option"
  | M_scan_queue string nat
  | M_scan_stale string
  | M_scan_running string string
  | M_dir_unreadable nat string
  | M_dir_type nat string "string option"
  | M_childmap_unreadable ref string
  | M_child_dangling string nat string
  | M_child_recycled string nat string "string option"
  | M_ds_missing ref string
  | M_ds_unreadable ref string
  | M_ds_type ref string "string option"
  | M_prev_dangling string ref
  | M_ref_dangling string string ref
  | M_clones_unreadable ref string
  | M_clone string string nat why
  | M_orphan_unreadable ref
  | M_orphan_typeless ref
  | M_mos_unreadable
  | M_no_root

record finding =
  f_severity :: severity
  f_obj :: ref
  f_message :: message

record scanner =
  findings :: "finding list"
  ops :: "(planned \<times> string) list"
  visited_dirs :: "nat set"
  num_children_fix :: "nat \<rightharpoonup> nat \<times> nat"

definition scanner_init :: scanner where
  "scanner_init = \<lparr>findings = [], ops = [], visited_dirs = {}, num_children_fix = Map.empty\<rparr>"

definition add :: "severity \<Rightarrow> ref \<Rightarrow> message \<Rightarrow> scanner \<Rightarrow> scanner" where
  "add sev ob m st = st\<lparr>findings := findings st @ [\<lparr>f_severity = sev, f_obj = ob, f_message = m\<rparr>]\<rparr>"

definition plan :: "planned \<Rightarrow> string \<Rightarrow> scanner \<Rightarrow> scanner" where
  "plan p comment st = st\<lparr>ops := ops st @ [(p, comment)]\<rparr>"

definition MOS_DIR_OBJ :: nat where "MOS_DIR_OBJ = 1"
definition SCAN_WORDS :: nat where "SCAN_WORDS = 24"
definition DSS_SCANNING :: nat where "DSS_SCANNING = 1"

subsection \<open>Error logs\<close>

text \<open>The entries of an error-log head whose object set cannot be read.\<close>

definition stale_entries :: "src \<Rightarrow> obj_dump \<Rightarrow> (string \<times> int \<times> nat \<times> bool) list" where
  "stale_entries s head =
    concat (map (\<lambda>(key, per_obj).
      case py_int16 key of
        None \<Rightarrow> []
      | Some objset \<Rightarrow>
          (let ds = get_int s objset in
           if readable ds then [] else [(key, objset, per_obj, od_exists ds)])) (od_zap head))"

definition free_per_objset :: "src \<Rightarrow> string \<times> int \<times> nat \<times> bool \<Rightarrow> scanner \<Rightarrow> scanner" where
  "free_per_objset s e st =
    (case e of (key, objset, per_obj, _) \<Rightarrow>
       let per = s per_obj in
       if od_exists per \<and> type_has ''error log'' per
       then plan (P_free per_obj (type_str per))
              (''free per-objset error log for objset '' @ py_str objset) st
       else if od_exists per
       then add WARNING (R_int per_obj) (M_per_recycled per_obj (od_type per)) st
       else st)"

definition check_errlog_head :: "src \<Rightarrow> string \<Rightarrow> nat \<Rightarrow> scanner \<Rightarrow> scanner" where
  "check_errlog_head s name head_obj st =
    (if head_obj = 0 then st
     else
       let head = s head_obj in
       if \<not> od_exists head
       then plan (P_zap_set MOS_DIR_OBJ name head_obj 0) (''clear dangling '' @ name @ '' reference'')
              (add CRITICAL (R_int MOS_DIR_OBJ) (M_errlog_dangling name head_obj) st)
       else if \<not> type_has ''error log'' head
       then plan (P_zap_set MOS_DIR_OBJ name head_obj 0)
              (''detach '' @ name @ '' from recycled object (leave the object itself alone)'')
              (add CRITICAL (R_int head_obj) (M_errlog_recycled name head_obj (od_type head)) st)
       else
         let stale = stale_entries s head in
         if stale = []
         then add INFO (R_int head_obj) (M_errlog_normal name head_obj) st
         else
           let st = fold (\<lambda>(key, objset, per_obj, ex).
                      add CRITICAL (R_int head_obj) (M_errlog_stale name key objset ex)) stale st;
               st = plan (P_zap_set MOS_DIR_OBJ name head_obj 0)
                      (''break the '' @ name @ '' error-log chain'') st;
               st = plan (P_free head_obj (type_str head)) (''free stale '' @ name @ '' head'') st
           in fold (free_per_objset s) stale st)"

definition check_errlog :: "src \<Rightarrow> obj_dump \<Rightarrow> scanner \<Rightarrow> scanner" where
  "check_errlog s mos st =
     check_errlog_head s ''errlog_scrub'' (zap_get mos ''errlog_scrub'')
       (check_errlog_head s ''errlog_last'' (zap_get mos ''errlog_last'') st)"

subsection \<open>The scan cursor\<close>

definition func_name :: "nat \<Rightarrow> string" where
  "func_name f = (if f = 0 then ''none'' else if f = 1 then ''scrub'' else if f = 2 then ''resilver'' else dec f)"

definition state_name :: "nat \<Rightarrow> string" where
  "state_name f = (if f = 0 then ''none'' else if f = 1 then ''SCANNING'' else if f = 2 then ''finished''
     else if f = 3 then ''canceled'' else dec f)"

definition scan_entry :: "obj_dump \<Rightarrow> nat list option" where
  "scan_entry mos =
    (case map_of (od_zap_multi mos) ''scan'' of
       Some ws \<Rightarrow> Some ws
     | None \<Rightarrow> map_option (\<lambda>n. [n]) (map_of (od_zap mos) ''scan''))"

definition word_at :: "nat list \<Rightarrow> nat \<Rightarrow> nat" where
  "word_at ws i = (if i < length ws then ws ! i else 0)"

definition check_scan :: "src \<Rightarrow> obj_dump \<Rightarrow> scanner \<Rightarrow> scanner" where
  "check_scan s mos st =
    (case scan_entry mos of
       None \<Rightarrow> st
     | Some scan \<Rightarrow>
         let fname = func_name (word_at scan 0); state = word_at scan 1; queue_obj = word_at scan 2 in
         if state \<noteq> DSS_SCANNING then st
         else if queue_obj \<noteq> 0 \<and> \<not> readable (s queue_obj)
         then plan (P_zap_zero MOS_DIR_OBJ ''scan'' SCAN_WORDS)
                ''zero the stale scan cursor (a fresh scrub/resilver restarts from DTLs after import)''
                (add CRITICAL (R_int MOS_DIR_OBJ) (M_scan_stale fname)
                  (add CRITICAL (R_int MOS_DIR_OBJ) (M_scan_queue fname queue_obj) st))
         else add INFO (R_int MOS_DIR_OBJ) (M_scan_running fname (state_name state)) st)"

subsection \<open>Clone lists\<close>

text \<open>One entry of a clone list; the loop counts the entries that dangle.\<close>

definition why_text :: "why \<Rightarrow> string" where
  "why_text w = (case w of Freed \<Rightarrow> ''freed'' | Unreadable \<Rightarrow> ''unreadable (EIO)''
     | Recycled t \<Rightarrow> ''recycled (type '' @ [CHR 0x27] @ (case t of None \<Rightarrow> ''None'' | Some t \<Rightarrow> t) @ [CHR 0x27] @ '')'')"

definition clone_ok :: "src \<Rightarrow> nat \<Rightarrow> bool" where
  "clone_ok s c \<longleftrightarrow> readable (s c) \<and> type_has ''DSL dataset'' (s c)"

definition clone_why :: "src \<Rightarrow> nat \<Rightarrow> why" where
  "clone_why s c = (if \<not> od_exists (s c) then Freed else if od_unreadable (s c) then Unreadable
     else Recycled (od_type (s c)))"

fun clones_loop :: "src \<Rightarrow> ref \<Rightarrow> string \<Rightarrow> (string \<times> nat) list \<Rightarrow> nat \<Rightarrow> scanner \<Rightarrow> nat \<times> scanner" where
  "clones_loop s z path [] dangling st = (dangling, st)"
| "clones_loop s z path ((key, clone_ds) # es) dangling st =
    (if clone_ok s clone_ds then clones_loop s z path es dangling st
     else
       let w = clone_why s clone_ds;
           st = add CRITICAL z (M_clone path key clone_ds w) st;
           st = plan (P_zap_remove (ref_nat z) key clone_ds)
                  (''drop '' @ why_text w @ '' clone reference from '' @ path) st
       in clones_loop s z path es (Suc dangling) st)"

definition check_clones_zap :: "src \<Rightarrow> ref \<Rightarrow> string \<Rightarrow> scanner \<Rightarrow> nat \<times> scanner" where
  "check_clones_zap s zap_obj path st =
    (let z = get s zap_obj in
     if \<not> readable z then (0, add CRITICAL zap_obj (M_clones_unreadable zap_obj path) st)
     else clones_loop s zap_obj path (sort (od_zap z)) 0 st)"

subsection \<open>Orphans\<close>

text \<open>The entries of a table that point at an object, each removed.\<close>

definition remove_refs :: "src \<Rightarrow> ref \<Rightarrow> ref \<Rightarrow> (string \<Rightarrow> string) \<Rightarrow> (nat \<Rightarrow> scanner \<Rightarrow> scanner) \<Rightarrow> scanner \<Rightarrow> scanner" where
  "remove_refs s z target comment extra st =
     fold (\<lambda>(key, val) st.
       if R_int val = target
       then extra val (plan (P_zap_remove (ref_nat z) key val) (comment key) st)
       else st) (od_zap (get s z)) st"

definition remove_from_namespace :: "src \<Rightarrow> obj_dump \<Rightarrow> nat \<Rightarrow> scanner \<Rightarrow> scanner" where
  "remove_from_namespace s d dir_obj st =
    (let parent = field d ''parent_dir_obj'' in
     if truthy parent
     then (let p = get s parent;
               pm = (if readable p then field p ''child_dir_zapobj'' else R_int 0)
           in if truthy pm
              then remove_refs s pm (R_int dir_obj)
                     (\<lambda>name. ''remove orphan '' @ [CHR 0x27] @ name @ [CHR 0x27] @ '' from namespace'')
                     (\<lambda>_ st. st) st
              else st)
     else st)"

definition remove_from_next_clones :: "src \<Rightarrow> ref \<Rightarrow> obj_dump \<Rightarrow> ref \<Rightarrow> scanner \<Rightarrow> scanner" where
  "remove_from_next_clones s origin od ds_obj st =
    (let nco = field od ''next_clones_obj''; nc = map_of (od_fields od) ''num_children'' in
     if truthy nco
     then remove_refs s nco ds_obj
            (\<lambda>_. ''remove orphan from origin'' @ [CHR 0x27] @ ''s next_clones ZAP'')
            (\<lambda>_ st. case nc of
               Some (R_int n) \<Rightarrow> plan (P_bonus_set (ref_nat origin) n (int n - 1))
                                   ''decrement origin snapshot child count'' st
             | _ \<Rightarrow> st) st
     else st)"

definition remove_from_dd_clones :: "src \<Rightarrow> obj_dump \<Rightarrow> ref \<Rightarrow> scanner \<Rightarrow> scanner" where
  "remove_from_dd_clones s od ds_obj st =
    (let odir = field od ''dir_obj'' in
     if truthy odir
     then (let dd = get s odir;
               ocl = (if readable dd then field dd ''clones'' else R_int 0)
           in if truthy ocl
              then remove_refs s ocl ds_obj
                     (\<lambda>_. ''remove orphan from origin dir'' @ [CHR 0x27] @ ''s dd_clones ZAP'') (\<lambda>_ st. st) st
              else st)
     else st)"

definition remove_clone_refs :: "src \<Rightarrow> obj_dump \<Rightarrow> ref \<Rightarrow> scanner \<Rightarrow> scanner" where
  "remove_clone_refs s d ds_obj st =
    (let origin = field d ''origin_obj'' in
     if truthy origin
     then (let od = get s origin in
           if readable od
           then remove_from_dd_clones s od ds_obj (remove_from_next_clones s origin od ds_obj st)
           else st)
     else st)"

text \<open>One object of the orphan's subtree.\<close>

definition free_structure :: "src \<Rightarrow> string \<Rightarrow> ref \<Rightarrow> scanner \<Rightarrow> scanner" where
  "free_structure s path ob st =
    (if \<not> truthy ob then st
     else
       let d = get s ob in
       if od_exists d \<and> od_unreadable d then add WARNING ob (M_orphan_unreadable ob) st
       else if od_exists d \<and> type_str d \<noteq> []
       then plan (P_free (ref_nat ob) (type_str d))
              (''free orphan structure ('' @ type_str d @ '') of '' @ path) st
       else if od_exists d then add WARNING ob (M_orphan_typeless ob) st
       else st)"

definition orphan_subtree :: "src \<Rightarrow> obj_dump \<Rightarrow> nat \<Rightarrow> ref \<Rightarrow> ref list" where
  "orphan_subtree s d dir_obj ds_obj =
    [R_int dir_obj, field d ''props_zapobj'', field d ''child_dir_zapobj'', ds_obj,
     field (get s ds_obj) ''snapnames_zapobj'', field (get s ds_obj) ''deadlist_obj'']"

definition plan_orphan_removal :: "src \<Rightarrow> ref \<Rightarrow> nat option \<Rightarrow> string \<Rightarrow> scanner \<Rightarrow> scanner" where
  "plan_orphan_removal s ds_obj dir path st =
    (case dir of
       None \<Rightarrow> st
     | Some dir_obj \<Rightarrow>
         let d = s dir_obj in
         if \<not> readable d then st
         else fold (free_structure s path) (orphan_subtree s d dir_obj ds_obj)
                (remove_clone_refs s d ds_obj (remove_from_namespace s d dir_obj st)))"

subsection \<open>Datasets\<close>

text \<open>The two checks that only report.\<close>

definition check_prev :: "src \<Rightarrow> ref \<Rightarrow> string \<Rightarrow> obj_dump \<Rightarrow> scanner \<Rightarrow> scanner" where
  "check_prev s ds_obj path ds st =
    (let prev = field ds ''prev_snap_obj'' in
     if truthy prev \<and> \<not> od_exists (get s prev) then add CRITICAL ds_obj (M_prev_dangling path prev) st
     else st)"

definition check_ref :: "src \<Rightarrow> ref \<Rightarrow> string \<Rightarrow> obj_dump \<Rightarrow> string \<Rightarrow> scanner \<Rightarrow> scanner" where
  "check_ref s ds_obj path ds f st =
    (let r = field ds f in
     if truthy r \<and> \<not> od_exists (get s r) then add WARNING ds_obj (M_ref_dangling path f r) st else st)"

definition check_next_clones :: "src \<Rightarrow> ref \<Rightarrow> string \<Rightarrow> obj_dump \<Rightarrow> scanner \<Rightarrow> scanner" where
  "check_next_clones s ds_obj path ds st =
    (let nco = field ds ''next_clones_obj'' in
     if truthy nco
     then (let (n_dangling, st) = check_clones_zap s nco (path @ '' next_clones'') st in
           case map_of (od_fields ds) ''num_children'' of
             Some (R_int nc) \<Rightarrow>
               if n_dangling \<noteq> 0
               then plan (P_bonus_set (ref_nat ds_obj) nc (int nc - int n_dangling))
                      (''account for '' @ dec n_dangling @ '' removed clone ref(s)'')
                      (st\<lparr>num_children_fix := (num_children_fix st)(ref_nat ds_obj \<mapsto> (nc, n_dangling))\<rparr>)
               else st
           | _ \<Rightarrow> st)
     else st)"

definition check_dataset :: "src \<Rightarrow> ref \<Rightarrow> string \<Rightarrow> nat option \<Rightarrow> scanner \<Rightarrow> scanner" where
  "check_dataset s ds_obj path expect_dir st =
    (let ds = get s ds_obj in
     if \<not> od_exists ds then add CRITICAL ds_obj (M_ds_missing ds_obj path) st
     else if od_unreadable ds
     then plan_orphan_removal s ds_obj expect_dir path
            (add CRITICAL ds_obj (M_ds_unreadable ds_obj path) st)
     else if \<not> type_has ''DSL dataset'' ds
     then add WARNING ds_obj (M_ds_type ds_obj path (od_type ds)) st
     else
       check_ref s ds_obj path ds ''snapnames_zapobj''
         (check_ref s ds_obj path ds ''deadlist_obj''
           (check_prev s ds_obj path ds
             (check_next_clones s ds_obj path ds st))))"

subsection \<open>The walk\<close>

text \<open>
  A child map, with the walk into a directory as an argument; \<open>None\<close> is a recursion deeper than
  the bound.
\<close>

definition special_names :: "string list" where
  "special_names = [''$MOS'', ''$FREE'', ''$LEAKED'']"

fun childmap_loop :: "(nat \<Rightarrow> string \<Rightarrow> scanner \<Rightarrow> scanner option) \<Rightarrow> src \<Rightarrow> ref \<Rightarrow> string \<Rightarrow>
    (string \<times> nat) list \<Rightarrow> scanner \<Rightarrow> scanner option" where
  "childmap_loop w s z path [] st = Some st"
| "childmap_loop w s z path ((name, child) # es) st =
    (if name \<in> set special_names then childmap_loop w s z path es st
     else
       let c = s child in
       if \<not> od_exists c
       then childmap_loop w s z path es
              (plan (P_zap_remove (ref_nat z) name child)
                (''drop dangling namespace entry '' @ [CHR 0x27] @ name @ [CHR 0x27])
                (add CRITICAL z (M_child_dangling name child path) st))
       else if \<not> type_has ''DSL directory'' c
       then childmap_loop w s z path es
              (plan (P_zap_remove (ref_nat z) name child)
                (''drop stale namespace entry '' @ [CHR 0x27] @ name @ [CHR 0x27] @ '' (recycled ID)'')
                (add CRITICAL z (M_child_recycled name child path (od_type c)) st))
       else Option.bind (w child (path @ ''/'' @ name) st) (childmap_loop w s z path es))"

definition check_childmap :: "(nat \<Rightarrow> string \<Rightarrow> scanner \<Rightarrow> scanner option) \<Rightarrow> src \<Rightarrow> ref \<Rightarrow> string \<Rightarrow>
    scanner \<Rightarrow> scanner option" where
  "check_childmap w s zap_obj path st =
    (let z = get s zap_obj in
     if \<not> readable z then Some (add CRITICAL zap_obj (M_childmap_unreadable zap_obj path) st)
     else childmap_loop w s zap_obj path (sort (od_zap z)) st)"

text \<open>The three references of a directory.\<close>

definition check_head :: "src \<Rightarrow> obj_dump \<Rightarrow> nat \<Rightarrow> string \<Rightarrow> scanner \<Rightarrow> scanner" where
  "check_head s d dir_obj path st =
    (let head = field d ''head_dataset_obj'' in
     if truthy head then check_dataset s head (path @ ''@head'') (Some dir_obj) st else st)"

definition check_children :: "(nat \<Rightarrow> string \<Rightarrow> scanner \<Rightarrow> scanner option) \<Rightarrow> src \<Rightarrow> obj_dump \<Rightarrow> string \<Rightarrow>
    scanner \<Rightarrow> scanner option" where
  "check_children w s d path st =
    (let childmap = field d ''child_dir_zapobj'' in
     if truthy childmap then check_childmap w s childmap path st else Some st)"

definition check_dd_clones :: "src \<Rightarrow> obj_dump \<Rightarrow> string \<Rightarrow> scanner \<Rightarrow> scanner" where
  "check_dd_clones s d path st =
    (let clones = field d ''clones'' in
     if truthy clones then snd (check_clones_zap s clones (path @ '' dd_clones'') st) else st)"

primrec walk_dsl_dir :: "nat \<Rightarrow> src \<Rightarrow> nat \<Rightarrow> string \<Rightarrow> scanner \<Rightarrow> scanner option" where
  "walk_dsl_dir 0 s dir_obj path st = None"
| "walk_dsl_dir (Suc depth) s dir_obj path st =
    (if dir_obj \<in> visited_dirs st then Some st
     else
       let st = st\<lparr>visited_dirs := insert dir_obj (visited_dirs st)\<rparr>; d = s dir_obj in
       if \<not> readable d then Some (add CRITICAL (R_int dir_obj) (M_dir_unreadable dir_obj path) st)
       else if \<not> type_has ''DSL directory'' d
       then Some (add CRITICAL (R_int dir_obj) (M_dir_type dir_obj path (od_type d)) st)
       else map_option (check_dd_clones s d path)
              (check_children (walk_dsl_dir depth s) s d path (check_head s d dir_obj path st)))"

definition run :: "nat \<Rightarrow> src \<Rightarrow> scanner option" where
  "run depth s =
    (let mos = s MOS_DIR_OBJ; st = scanner_init in
     if \<not> readable mos then Some (add CRITICAL (R_int MOS_DIR_OBJ) M_mos_unreadable st)
     else
       let st = check_scan s mos (check_errlog s mos st); root = zap_get mos ''root_dataset'' in
       if root \<noteq> 0 then walk_dsl_dir depth s root ''<root>'' st
       else Some (add CRITICAL (R_int MOS_DIR_OBJ) M_no_root st))"

subsection \<open>The plan\<close>

fun dedupe :: "string set \<Rightarrow> (planned \<times> string) list \<Rightarrow> (planned \<times> string) list" where
  "dedupe seen [] = []"
| "dedupe seen ((p, c) # ps) =
    (if emit_line p \<in> seen then dedupe seen ps
     else (p, c) # dedupe (insert (emit_line p) seen) ps)"

definition dedupe_ops :: "(planned \<times> string) list \<Rightarrow> (planned \<times> string) list" where
  "dedupe_ops ps = dedupe {} ps"

text \<open>The exit code of the scanner.\<close>

definition scan_exit :: "scanner \<Rightarrow> nat" where
  "scan_exit st = (if findings st = [] then 0 else 1)"


subsection \<open>What the scanner bases an operation on\<close>

text \<open>
  An operation is observed when the dumps show the state it expects: the entry, the count or
  the type with exactly that value. Only the two error-log entries are ever set, only to 0;
  only the scan cursor of a scan in progress is zeroed; entries are only removed from objects
  that a directory or a dataset names as its child map or clone list; and an unreadable object
  is only freed if it is an error log.
\<close>

definition table_fields :: "string list" where
  "table_fields = [''child_dir_zapobj'', ''next_clones_obj'', ''clones'']"

definition table :: "src \<Rightarrow> ref \<Rightarrow> bool" where
  "table s z \<longleftrightarrow> (\<exists>r f. f \<in> set table_fields \<and> z = field (get s r) f \<and> truthy z)"

fun observed :: "src \<Rightarrow> planned \<Rightarrow> bool" where
  "observed s (P_zap_set ob name ex v) \<longleftrightarrow>
     ob = MOS_DIR_OBJ \<and> readable (s ob) \<and> name \<in> {''errlog_last'', ''errlog_scrub''} \<and>
     (name, ex) \<in> set (od_zap (s ob)) \<and> ex \<noteq> 0 \<and> v = 0"
| "observed s (P_zap_zero ob name c) \<longleftrightarrow>
     ob = MOS_DIR_OBJ \<and> readable (s ob) \<and> name = ''scan'' \<and> c = SCAN_WORDS \<and>
     (\<exists>ws. (name, ws) \<in> set (od_zap_multi (s ob)) \<and> word_at ws 1 = DSS_SCANNING)"
| "observed s (P_zap_remove ob name ex) \<longleftrightarrow> (name, ex) \<in> set (od_zap (s ob)) \<and> table s (R_int ob)"
| "observed s (P_bonus_set ob nc v) \<longleftrightarrow>
     (''num_children'', R_int nc) \<in> set (od_fields (s ob)) \<and> readable (s ob) \<and> v < int nc"
| "observed s (P_free ob ty) \<longleftrightarrow> od_exists (s ob) \<and> od_type (s ob) = Some ty \<and> ty \<noteq> [] \<and>
     (od_unreadable (s ob) \<longrightarrow> type_has ''error log'' (s ob))"

definition reported :: "scanner \<Rightarrow> bool" where
  "reported st \<longleftrightarrow> (\<exists>f \<in> set (findings st). f_severity f = CRITICAL)"

lemma reported_simps [simp]:
  "reported (add CRITICAL ob m st)"
  "reported st \<Longrightarrow> reported (add sev ob m st)"
  "reported (plan p c st) = reported st"
  "reported (st\<lparr>visited_dirs := V\<rparr>) = reported st"
  "reported (st\<lparr>num_children_fix := N\<rparr>) = reported st"
  by (auto simp: reported_def add_def plan_def)

lemma field_get_simps [simp]:
  "field missing f = R_int 0" "od_zap missing = []" "\<not> od_exists missing" "\<not> readable missing"
  by (simp_all add: field_def missing_def readable_def)

lemma type_has_nonempty: "type_has t d \<Longrightarrow> t \<noteq> [] \<Longrightarrow> od_type d = Some (type_str d) \<and> type_str d \<noteq> []"
  by (cases "od_type d"; cases "type_str d") (auto simp: type_has_def type_str_def)

lemma tableI: "f \<in> set table_fields \<Longrightarrow> truthy (field (get s r) f) \<Longrightarrow> table s (field (get s r) f)"
  unfolding table_def by blast

lemma table_zaps:
  "truthy (field (get s r) ''child_dir_zapobj'') \<Longrightarrow> table s (field (get s r) ''child_dir_zapobj'')"
  "truthy (field (get s r) ''next_clones_obj'') \<Longrightarrow> table s (field (get s r) ''next_clones_obj'')"
  "truthy (field (get s r) ''clones'') \<Longrightarrow> table s (field (get s r) ''clones'')"
  by (rule tableI; simp add: table_fields_def)+

lemma zap_get_in: "zap_get d k \<noteq> 0 \<Longrightarrow> (k, zap_get d k) \<in> set (od_zap d)"
  by (auto simp: zap_get_def split: option.splits dest: map_of_SomeD)

lemma scan_entry_running:
  "scan_entry d = Some ws \<Longrightarrow> word_at ws 1 = DSS_SCANNING \<Longrightarrow> (''scan'', ws) \<in> set (od_zap_multi d)"
  by (auto simp: scan_entry_def word_at_def DSS_SCANNING_def split: option.splits dest: map_of_SomeD)

text \<open>
  The contract of an invariant of the checks: it survives every finding, every correction of a
  child count and every operation that is observed and planned after a critical finding. Each
  check of one object then keeps it.
\<close>

locale check_invariant =
  fixes s :: src and I :: "scanner \<Rightarrow> bool"
  assumes add_inv: "I st \<Longrightarrow> I (add sev ob m st)"
    and plan_inv: "I st \<Longrightarrow> observed s p \<Longrightarrow> reported st \<Longrightarrow> I (plan p c st)"
    and fix_inv: "I st \<Longrightarrow> I (st\<lparr>num_children_fix := N\<rparr>)"
begin

abbreviation J :: "scanner \<Rightarrow> bool" where
  "J st \<equiv> I st \<and> reported st"

lemma critical_inv: "I st \<Longrightarrow> J (add CRITICAL ob m st)"
  by (simp add: add_inv)

lemma planned_inv: "J st \<Longrightarrow> observed s p \<Longrightarrow> J (plan p c st)"
  by (simp add: plan_inv)

lemma noted_inv: "J st \<Longrightarrow> J (add sev ob m st)"
  by (simp add: add_inv)

lemma fold_inv:
  assumes "J st" and "\<And>x st. x \<in> set xs \<Longrightarrow> J st \<Longrightarrow> J (f x st)"
  shows "J (fold f xs st)"
  using assms by (induction xs arbitrary: st) simp_all

lemmas report_inv = critical_inv planned_inv noted_inv

lemma free_per_objset_inv: "J st \<Longrightarrow> J (free_per_objset s e st)"
proof (cases e)
  case (fields key objset per_obj ex)
  assume "J st"
  moreover have "observed s (P_free per_obj (type_str (s per_obj)))"
    if "od_exists (s per_obj)" "type_has ''error log'' (s per_obj)"
    using that type_has_nonempty [OF that(2)] by simp
  ultimately show ?thesis
    unfolding free_per_objset_def fields Let_def prod.case by (simp add: report_inv del: observed.simps)
qed

lemma stale_report_inv:
  assumes "I st" "es \<noteq> []"
  shows "J (fold (\<lambda>(key, objset, per_obj, ex). add CRITICAL ob (M_errlog_stale name key objset ex)) es st)"
proof -
  obtain e es' where es: "es = e # es'" using assms(2) by (cases es) auto
  show ?thesis
    unfolding es fold.simps o_apply using assms(1)
    by (intro fold_inv) (auto simp: report_inv split: prod.splits)
qed

lemma check_errlog_head_inv:
  assumes "I st" "name \<in> {''errlog_last'', ''errlog_scrub''}"
    and "head_obj \<noteq> 0 \<Longrightarrow> (name, head_obj) \<in> set (od_zap (s MOS_DIR_OBJ))" "readable (s MOS_DIR_OBJ)"
  shows "I (check_errlog_head s name head_obj st)"
proof (cases "head_obj = 0")
  case False
  then have set: "observed s (P_zap_set MOS_DIR_OBJ name head_obj 0)"
    using assms by simp
  have free: "observed s (P_free head_obj (type_str (s head_obj)))"
    if "od_exists (s head_obj)" "type_has ''error log'' (s head_obj)"
    using that type_has_nonempty [OF that(2)] by simp
  have "J (fold (free_per_objset s) stale (plan (P_free head_obj (type_str (s head_obj))) c2
      (plan (P_zap_set MOS_DIR_OBJ name head_obj 0) c1
        (fold (\<lambda>(key, objset, per_obj, ex). add CRITICAL ob (M_errlog_stale name key objset ex)) stale st))))"
    if "stale \<noteq> []" "od_exists (s head_obj)" "type_has ''error log'' (s head_obj)" for stale ob c1 c2
    by (intro fold_inv free_per_objset_inv planned_inv stale_report_inv assms(1) that(1) set free that(2,3))
  with False show ?thesis
    using assms(1) set by (simp add: check_errlog_head_def Let_def report_inv add_inv del: observed.simps)
qed (simp add: check_errlog_head_def assms(1))

lemma check_errlog_inv: "I st \<Longrightarrow> readable (s MOS_DIR_OBJ) \<Longrightarrow> I (check_errlog s (s MOS_DIR_OBJ) st)"
  unfolding check_errlog_def by (intro check_errlog_head_inv) (auto intro: zap_get_in)

lemma check_scan_inv:
  assumes "I st" "readable (s MOS_DIR_OBJ)"
  shows "I (check_scan s (s MOS_DIR_OBJ) st)"
proof (cases "scan_entry (s MOS_DIR_OBJ)")
  case (Some ws)
  have "observed s (P_zap_zero MOS_DIR_OBJ ''scan'' SCAN_WORDS)" if "word_at ws 1 = DSS_SCANNING"
    using scan_entry_running [OF Some that] that assms(2) by auto
  then show ?thesis
    using assms by (simp add: check_scan_def Some Let_def report_inv add_inv del: observed.simps)
qed (simp add: check_scan_def assms)

lemma get_zap_obj: "(key, v) \<in> set (od_zap (get s z)) \<Longrightarrow> table s z \<Longrightarrow> observed s (P_zap_remove (ref_nat z) key v)"
  by (cases z) auto

lemma clones_loop_inv:
  "I st \<Longrightarrow> table s z \<Longrightarrow> set es \<subseteq> set (od_zap (get s z)) \<Longrightarrow> clones_loop s z path es n st = (n', st') \<Longrightarrow>
     I st' \<and> (reported st \<longrightarrow> reported st') \<and> n \<le> n' \<and> (n < n' \<longrightarrow> reported st')"
proof (induction es arbitrary: n st)
  case (Cons e es)
  obtain key c where e: "e = (key, c)" by (cases e)
  show ?case
  proof (cases "clone_ok s c")
    case False
    let ?st = "plan (P_zap_remove (ref_nat z) key c)
      (''drop '' @ why_text (clone_why s c) @ '' clone reference from '' @ path)
      (add CRITICAL z (M_clone path key c (clone_why s c)) st)"
    have "J ?st" using Cons.prems(1-3) e by (intro report_inv get_zap_obj) auto
    moreover have "clones_loop s z path es (Suc n) ?st = (n', st')"
      using Cons.prems(4) False by (simp add: e Let_def)
    ultimately show ?thesis
      using Cons.IH [of ?st "Suc n"] Cons.prems(2,3) by auto
  qed (use Cons in \<open>auto simp: e\<close>)
qed simp

lemma check_clones_zap_inv:
  "I st \<Longrightarrow> table s z \<Longrightarrow> check_clones_zap s z path st = (n, st') \<Longrightarrow>
     I st' \<and> (reported st \<longrightarrow> reported st') \<and> (n \<noteq> 0 \<longrightarrow> reported st')"
  using clones_loop_inv [of st z "sort (od_zap (get s z))" path 0 n st']
  by (auto simp: check_clones_zap_def Let_def add_inv split: if_splits)

lemma remove_refs_inv:
  assumes "J st" "table s z" "\<And>v st. R_int v = target \<Longrightarrow> J st \<Longrightarrow> J (extra v st)"
  shows "J (remove_refs s z target comment extra st)"
  unfolding remove_refs_def
proof (rule fold_inv [OF assms(1)])
  fix e st assume e: "e \<in> set (od_zap (get s z))" and J: "J st"
  obtain key v where kv: "e = (key, v)" by (cases e)
  have "J (plan (P_zap_remove (ref_nat z) key v) c st)" for c
    using e J assms(2) unfolding kv by (intro planned_inv get_zap_obj)
  then show "J ((\<lambda>(key, val) st. if R_int val = target
      then extra val (plan (P_zap_remove (ref_nat z) key val) (comment key) st) else st) e st)"
    using assms(3) J by (simp add: kv)
qed

lemma remove_from_namespace_inv: "J st \<Longrightarrow> J (remove_from_namespace s d dir_obj st)"
  by (simp add: remove_from_namespace_def Let_def remove_refs_inv table_zaps)

lemma bonus_observed:
  "map_of (od_fields (get s z)) ''num_children'' = Some (R_int n) \<Longrightarrow> readable (get s z) \<Longrightarrow> v < int n \<Longrightarrow>
     observed s (P_bonus_set (ref_nat z) n v)"
  by (cases z) (auto dest: map_of_SomeD)

lemma remove_clone_refs_inv:
  assumes "J st"
  shows "J (remove_clone_refs s d ds_obj st)"
proof -
  have "J (remove_from_next_clones s origin (get s origin) ds_obj st)" if "readable (get s origin)" for origin
  proof -
    have "J (case map_of (od_fields (get s origin)) ''num_children'' of
        Some (R_int n) \<Rightarrow> plan (P_bonus_set (ref_nat origin) n (int n - 1)) c st | _ \<Rightarrow> st)" if "J st" for c st
      using that \<open>readable (get s origin)\<close>
      by (simp add: planned_inv bonus_observed del: observed.simps split: option.split ref.split)
    with assms show ?thesis
      by (simp add: remove_from_next_clones_def Let_def remove_refs_inv table_zaps)
  qed
  then show ?thesis
    using assms by (simp add: remove_clone_refs_def remove_from_dd_clones_def Let_def remove_refs_inv table_zaps)
qed

lemma free_structure_inv:
  assumes "J st"
  shows "J (free_structure s path ob st)"
proof -
  have "observed s (P_free (ref_nat ob) (type_str (get s ob)))"
    if "od_exists (get s ob)" "\<not> od_unreadable (get s ob)" "type_str (get s ob) \<noteq> []"
    using that by (cases ob) (auto simp: type_str_def split: option.splits)
  then show ?thesis
    using assms by (simp add: free_structure_def Let_def report_inv del: observed.simps)
qed

lemma plan_orphan_removal_inv: "J st \<Longrightarrow> J (plan_orphan_removal s ds_obj dir path st)"
  by (simp add: plan_orphan_removal_def Let_def fold_inv free_structure_inv remove_clone_refs_inv
      remove_from_namespace_inv split: option.split)

lemma check_next_clones_inv:
  assumes "I st" "readable (get s ds_obj)"
  shows "I (check_next_clones s ds_obj path (get s ds_obj) st)"
proof -
  obtain n st' where c: "check_clones_zap s (field (get s ds_obj) ''next_clones_obj'') (path @ '' next_clones'') st = (n, st')"
    by fastforce
  note inv = check_clones_zap_inv [OF assms(1) table_zaps(2) c]
  have "observed s (P_bonus_set (ref_nat ds_obj) nc (int nc - int n))"
    if "map_of (od_fields (get s ds_obj)) ''num_children'' = Some (R_int nc)" "n \<noteq> 0" for nc
    using that assms(2) by (intro bonus_observed) simp_all
  then show ?thesis
    using inv assms(1) c
    by (auto simp: check_next_clones_def Let_def plan_inv fix_inv simp del: observed.simps
        split: option.split ref.split)
qed

lemma check_dataset_inv: "I st \<Longrightarrow> I (check_dataset s ds_obj path dir st)"
  using plan_orphan_removal_inv [OF critical_inv]
  by (auto simp: check_dataset_def check_ref_def check_prev_def Let_def add_inv readable_def check_next_clones_inv)

lemma childmap_loop_inv:
  assumes "\<And>n p st st'. I st \<Longrightarrow> w n p st = Some st' \<Longrightarrow> I st'"
  shows "I st \<Longrightarrow> table s z \<Longrightarrow> set es \<subseteq> set (od_zap (get s z)) \<Longrightarrow> childmap_loop w s z path es st = Some st' \<Longrightarrow> I st'"
proof (induction es arbitrary: st)
  case (Cons e es)
  obtain name child where e: "e = (name, child)" by (cases e)
  have "observed s (P_zap_remove (ref_nat z) name child)"
    using Cons.prems(2,3) unfolding e by (intro get_zap_obj) simp_all
  then have "I (plan (P_zap_remove (ref_nat z) name child) c (add CRITICAL z m st))" for c m
    using report_inv Cons.prems(1) by blast
  note removed = Cons.IH [OF this]
  show ?case
  proof (cases "name \<in> set special_names \<or> od_exists (s child) \<and> type_has ''DSL directory'' (s child)")
    case True
    then show ?thesis
      using Cons assms by (fastforce simp: e Let_def split: if_splits bind_splits)
  next
    case False
    then show ?thesis
      using Cons.prems(2-4) by (auto simp: e Let_def intro: removed split: if_splits)
  qed
qed simp

lemma check_children_inv:
  assumes "\<And>n p st st'. I st \<Longrightarrow> w n p st = Some st' \<Longrightarrow> I st'"
    and "I st" "check_children w s (s n) path st = Some st'"
  shows "I st'"
proof (cases "truthy (field (s n) ''child_dir_zapobj'') \<and> readable (get s (field (s n) ''child_dir_zapobj''))")
  case True
  then have loop: "childmap_loop w s (field (s n) ''child_dir_zapobj'') path
      (sort (od_zap (get s (field (s n) ''child_dir_zapobj'')))) st = Some st'"
    using assms(3) by (simp add: check_children_def check_childmap_def Let_def)
  show ?thesis by (rule childmap_loop_inv [of w, OF assms(1) assms(2) _ _ loop])
      (use True table_zaps(1) [of s "R_int n"] in simp_all)
next
  case False
  then show ?thesis
    using assms(2,3) add_inv by (auto simp: check_children_def check_childmap_def Let_def split: if_splits)
qed

lemma check_dd_clones_inv: "I st \<Longrightarrow> I (check_dd_clones s (s n) path st)"
  using check_clones_zap_inv [OF _ _ prod.collapse [symmetric], of st "field (s n) ''clones''" "path @ '' dd_clones''"]
    table_zaps(3) [of s "R_int n"]
  by (simp add: check_dd_clones_def Let_def)

lemma check_head_inv: "I st \<Longrightarrow> I (check_head s d dir_obj path st)"
  by (simp add: check_head_def Let_def check_dataset_inv)

end

text \<open>An invariant that the walk keeps too holds at the end of a scan.\<close>

locale scan_invariant = check_invariant +
  assumes visit_inv: "I st \<Longrightarrow> I (st\<lparr>visited_dirs := V\<rparr>)"
begin

lemma walk_inv: "I st \<Longrightarrow> walk_dsl_dir depth s n path st = Some st' \<Longrightarrow> I st'"
proof (induction depth arbitrary: n path st st')
  case (Suc depth)
  let ?st = "st\<lparr>visited_dirs := insert n (visited_dirs st)\<rparr>"
  have visited: "I ?st" using Suc.prems(1) by (rule visit_inv)
  note children = check_children_inv [OF Suc.IH check_head_inv [OF this]]
  show ?case
    using Suc.prems visited
    by (auto simp: Let_def add_inv intro: check_dd_clones_inv children split: if_splits)
qed simp

lemma run_inv:
  assumes "I scanner_init" "run depth s = Some st"
  shows "I st"
proof -
  have "I (check_scan s (s MOS_DIR_OBJ) (check_errlog s (s MOS_DIR_OBJ) scanner_init))"
    if "readable (s MOS_DIR_OBJ)"
    by (intro check_scan_inv check_errlog_inv assms(1) that)
  then show ?thesis
    using assms by (auto simp: run_def Let_def add_inv intro: walk_inv split: if_splits)
qed

end

text \<open>
  The invariants: the directories seen so far change only in the walk itself, findings and
  operations are only added, every operation is observed, and nothing is planned without a
  critical finding.
\<close>

interpretation seen: check_invariant s "\<lambda>st. visited_dirs st = V" for s V
  by unfold_locales (auto simp: add_def plan_def)

interpretation ext: scan_invariant s "\<lambda>st. prefix (findings st0) (findings st) \<and> prefix (ops st0) (ops st)" for s st0
  by unfold_locales (auto simp: add_def plan_def)

interpretation obs: scan_invariant s "\<lambda>st. \<forall>(p, c) \<in> set (ops st). observed s p" for s
  by unfold_locales (auto simp: add_def plan_def)

interpretation rep: scan_invariant s "\<lambda>st. ops st \<noteq> [] \<longrightarrow> reported st" for s
  by unfold_locales (auto simp: add_def plan_def reported_def)

subsection \<open>Duplicates\<close>

lemma dedupe_set:
  "emit_line ` fst ` set (dedupe seen ps) = emit_line ` fst ` set ps - seen"
proof (induction ps arbitrary: seen)
  case (Cons x ps)
  obtain p c where "x = (p, c)" by (cases x)
  with Cons show ?case by (cases "emit_line p \<in> seen") (simp_all, blast+)
qed simp

lemma dedupe_distinct: "distinct (map (emit_line \<circ> fst) (dedupe seen ps))"
proof (induction ps arbitrary: seen)
  case (Cons x ps)
  obtain p c where x: "x = (p, c)" by (cases x)
  have "emit_line p \<notin> emit_line ` fst ` set (dedupe (insert (emit_line p) seen) ps)"
    by (simp add: dedupe_set)
  then show ?case using Cons by (auto simp: x image_image)
qed simp

lemma dedupe_subseq: "subseq (dedupe seen ps) ps"
proof (induction ps arbitrary: seen)
  case (Cons x ps)
  obtain p c where "x = (p, c)" by (cases x)
  with Cons show ?case by (cases "emit_line p \<in> seen") (simp_all add: list_emb.list_emb_Cons)
qed simp

lemma dedupe_ops_subset: "set (dedupe_ops ps) \<subseteq> set ps"
  unfolding dedupe_ops_def using list_emb_set [OF dedupe_subseq] by blast

lemma run_observed:
  assumes "run depth s = Some st"
  shows "list_all (\<lambda>(p, c). observed s p) (dedupe_ops (ops st))"
proof -
  have "\<forall>(p, c) \<in> set (ops st). observed s p"
    by (rule obs.run_inv [OF _ assms]) (simp add: scanner_init_def)
  then show ?thesis using dedupe_ops_subset [of "ops st"] by (auto simp: list_all_iff)
qed

subsection \<open>Properties\<close>


text \<open>
  Nothing is planned unless the scan has a critical finding to go with it.
\<close>

theorem scan_plan_reported:
  assumes "run depth s = Some st" "ops st \<noteq> []"
  shows "reported st"
  using rep.run_inv [OF _ assms(1)] assms(2) by (simp add: scanner_init_def)

text \<open>
  \<^verbatim>\<open>dedupe_ops\<close> keeps every line exactly once, in the order of its first occurrence.
\<close>

theorem dedupe_ops_spec:
  "subseq (dedupe_ops ps) ps \<and> distinct (map (emit_line \<circ> fst) (dedupe_ops ps)) \<and>
   set (map (emit_line \<circ> fst) (dedupe_ops ps)) = set (map (emit_line \<circ> fst) ps)"
  using dedupe_set [of "{}" ps]
  by (auto simp: dedupe_ops_def dedupe_subseq dedupe_distinct image_image)

end
