(* ===== verification/PyRegex.thy ===== *)
theory PyRegex
  imports CString
begin

text \<open>
  The part of Python's \<^verbatim>\<open>re\<close> and \<^verbatim>\<open>str\<close> the scanner uses, on ASCII text: patterns that are
  sequences of character classes with repetitions, matched by backtracking as \<^verbatim>\<open>re\<close> does, and
  the string methods \<^verbatim>\<open>splitlines\<close>, \<^verbatim>\<open>split\<close> and \<^verbatim>\<open>strip\<close>. The matcher is shown to find a
  match exactly when there is one, and of several the one that the greedy and lazy repetitions
  prefer from left to right.
\<close>

subsection \<open>Characters\<close>

text \<open>White space of \<^verbatim>\<open>str\<close>, which has the four separators 28 to 31 too, and its line breaks.\<close>

definition py_space :: "char \<Rightarrow> bool" where
  "py_space c \<longleftrightarrow> (let n = of_char c :: nat in 9 \<le> n \<and> n \<le> 13 \<or> 28 \<le> n \<and> n \<le> 32)"

definition py_break :: "char \<Rightarrow> bool" where
  "py_break c \<longleftrightarrow> (let n = of_char c :: nat in 10 \<le> n \<and> n \<le> 13 \<or> 28 \<le> n \<and> n \<le> 30)"

definition py_digit :: "char \<Rightarrow> bool" where
  "py_digit c \<longleftrightarrow> is_digit_in 10 c"

definition py_word :: "char \<Rightarrow> bool" where
  "py_word c \<longleftrightarrow> c = CHR ''_'' \<or> is_digit_in 36 c"

subsection \<open>Patterns\<close>

text \<open>
  One character of a class; any number of them, greedily or lazily; one or none, greedily; a
  word boundary; the end of the line. A match is the list of what each item matched.
\<close>

datatype item =
    One "char \<Rightarrow> bool"
  | Many bool "char \<Rightarrow> bool"
  | Opt "char \<Rightarrow> bool"
  | Wordb
  | Eol

definition wordb :: "char option \<Rightarrow> string \<Rightarrow> bool" where
  "wordb p s \<longleftrightarrow>
     (case p of None \<Rightarrow> False | Some c \<Rightarrow> py_word c) \<noteq> (case s of [] \<Rightarrow> False | c # _ \<Rightarrow> py_word c)"

definition cons_first :: "char \<Rightarrow> string list option \<Rightarrow> string list option" where
  "cons_first c r = (case r of Some (x # xs) \<Rightarrow> Some ((c # x) # xs) | _ \<Rightarrow> None)"

text \<open>\<^verbatim>\<open>p\<close> is the character before \<^verbatim>\<open>s\<close>.\<close>

function rmatch :: "item list \<Rightarrow> char option \<Rightarrow> string \<Rightarrow> string list option" where
  "rmatch [] p s = Some []"
| "rmatch (One f # is) p s =
    (case s of
       [] \<Rightarrow> None
     | c # t \<Rightarrow> if f c then map_option (Cons [c]) (rmatch is (Some c) t) else None)"
| "rmatch (Many True f # is) p s =
    (case s of
       [] \<Rightarrow> map_option (Cons []) (rmatch is p s)
     | c # t \<Rightarrow>
         if f c
         then (case cons_first c (rmatch (Many True f # is) (Some c) t) of
                 Some r \<Rightarrow> Some r
               | None \<Rightarrow> map_option (Cons []) (rmatch is p s))
         else map_option (Cons []) (rmatch is p s))"
| "rmatch (Many False f # is) p s =
    (case map_option (Cons []) (rmatch is p s) of
       Some r \<Rightarrow> Some r
     | None \<Rightarrow>
         (case s of
            [] \<Rightarrow> None
          | c # t \<Rightarrow> if f c then cons_first c (rmatch (Many False f # is) (Some c) t) else None))"
| "rmatch (Opt f # is) p s =
    (case s of
       [] \<Rightarrow> map_option (Cons []) (rmatch is p s)
     | c # t \<Rightarrow>
         if f c
         then (case map_option (Cons [c]) (rmatch is (Some c) t) of
                 Some r \<Rightarrow> Some r
               | None \<Rightarrow> map_option (Cons []) (rmatch is p s))
         else map_option (Cons []) (rmatch is p s))"
| "rmatch (Wordb # is) p s = (if wordb p s then map_option (Cons []) (rmatch is p s) else None)"
| "rmatch (Eol # is) p s = (if s = [] then map_option (Cons []) (rmatch is p s) else None)"
  by pat_completeness auto
termination
  by (relation "measure (\<lambda>(is, p, s). length is + length s)") auto

text \<open>\<^verbatim>\<open>search\<close> with a choice of patterns: at some position one of them matches.\<close>

fun rsearch :: "item list list \<Rightarrow> char option \<Rightarrow> string \<Rightarrow> bool" where
  "rsearch alts p [] \<longleftrightarrow> list_ex (\<lambda>a. rmatch a p [] \<noteq> None) alts"
| "rsearch alts p (c # s) \<longleftrightarrow> list_ex (\<lambda>a. rmatch a p (c # s) \<noteq> None) alts \<or> rsearch alts (Some c) s"

text \<open>The notations of the patterns: \<^verbatim>\<open>+\<close> and \<^verbatim>\<open>+?\<close>, a literal under \<^verbatim>\<open>IGNORECASE\<close>.\<close>

definition rep1 :: "bool \<Rightarrow> (char \<Rightarrow> bool) \<Rightarrow> item list" where
  "rep1 greedy f = [One f, Many greedy f]"

definition lit :: "string \<Rightarrow> item list" where
  "lit t = map (\<lambda>c. One (\<lambda>d. tolower d = tolower c)) t"

subsection \<open>Strings\<close>

definition rstrip :: "string \<Rightarrow> string" where
  "rstrip s = rev (dropWhile py_space (rev s))"

definition py_strip :: "string \<Rightarrow> string" where
  "py_strip s = rstrip (dropWhile py_space s)"

text \<open>A carriage return and a newline after it are one break.\<close>

function splitlines :: "string \<Rightarrow> string list" where
  "splitlines s =
    (if s = [] then []
     else
       let l = takeWhile (\<lambda>c. \<not> py_break c) s; r = dropWhile (\<lambda>c. \<not> py_break c) s in
       l # splitlines (if prefix [CHR 0x0D, NL] r then drop 2 r else drop 1 r))"
  by pat_completeness auto
termination
proof (relation "measure length")
  fix s l r
  assume s: "s \<noteq> []" and l: "l = takeWhile (\<lambda>c. \<not> py_break c) s" and r: "r = dropWhile (\<lambda>c. \<not> py_break c) s"
  have "length s = length l + length r" unfolding l r by (metis length_append takeWhile_dropWhile_id)
  with s show "((if prefix [CHR 0x0D, NL] r then drop 2 r else drop 1 r), s) \<in> measure length"
    by (cases r) (auto simp: prefix_def)
qed simp

function py_split :: "string \<Rightarrow> string list" where
  "py_split s =
    (let t = dropWhile py_space s in
     if t = [] then []
     else takeWhile (\<lambda>c. \<not> py_space c) t # py_split (dropWhile (\<lambda>c. \<not> py_space c) t))"
  by pat_completeness auto
termination
proof (relation "measure length")
  fix s t
  assume t: "t = dropWhile py_space s" "t \<noteq> []"
  then have "\<not> py_space (hd t)" using hd_dropWhile by blast
  with t(2) have "length (dropWhile (\<lambda>c. \<not> py_space c) t) < length t"
    by (cases t) (auto simp: le_imp_less_Suc length_dropWhile_le')
  moreover have "length t \<le> length s" unfolding t(1) by (rule length_dropWhile_le')
  ultimately show "(dropWhile (\<lambda>c. \<not> py_space c) t, s) \<in> measure length" by simp
qed simp

declare splitlines.simps [simp del] py_split.simps [simp del]

subsection \<open>What the matcher finds\<close>

text \<open>What an item may match, between the character before and the text after.\<close>

fun fits :: "item \<Rightarrow> char option \<Rightarrow> string \<Rightarrow> string \<Rightarrow> bool" where
  "fits (One f) p x t \<longleftrightarrow> (\<exists>c. x = [c] \<and> f c)"
| "fits (Many g f) p x t \<longleftrightarrow> (\<forall>c \<in> set x. f c)"
| "fits (Opt f) p x t \<longleftrightarrow> x = [] \<or> (\<exists>c. x = [c] \<and> f c)"
| "fits Wordb p x t \<longleftrightarrow> x = [] \<and> wordb p t"
| "fits Eol p x t \<longleftrightarrow> x = [] \<and> t = []"

definition before :: "char option \<Rightarrow> string \<Rightarrow> char option" where
  "before p x = (if x = [] then p else Some (last x))"

fun parses :: "item list \<Rightarrow> char option \<Rightarrow> string \<Rightarrow> string list \<Rightarrow> bool" where
  "parses [] p s xs \<longleftrightarrow> xs = []"
| "parses (i # is) p s [] \<longleftrightarrow> False"
| "parses (i # is) p s (x # xs) \<longleftrightarrow> (\<exists>t. s = x @ t \<and> fits i p x t \<and> parses is (before p x) t xs)"

text \<open>At the first item where two matches differ, a lazy repetition prefers the shorter, any other the longer.\<close>

fun prefers :: "item list \<Rightarrow> string list \<Rightarrow> string list \<Rightarrow> bool" where
  "prefers (i # is) (x # xs) (y # ys) \<longleftrightarrow>
     (if x = y then prefers is xs ys
      else case i of Many False f \<Rightarrow> length x < length y | _ \<Rightarrow> length y < length x)"
| "prefers _ _ _ \<longleftrightarrow> False"

lemma parses_Many:
  "parses (Many g f # is) p s zs \<longleftrightarrow>
     (\<exists>ys. zs = [] # ys \<and> parses is p s ys) \<or>
     (\<exists>c t x ys. s = c # t \<and> zs = (c # x) # ys \<and> f c \<and> parses (Many g f # is) (Some c) t (x # ys))"
proof (cases zs)
  case (Cons z ys)
  then show ?thesis by (cases z) (auto simp: before_def)
qed simp

lemma parses_One:
  "parses (One f # is) p s zs \<longleftrightarrow> (\<exists>c t ys. s = c # t \<and> zs = [c] # ys \<and> f c \<and> parses is (Some c) t ys)"
  by (cases zs) (auto simp: before_def)

lemma parses_Opt:
  "parses (Opt f # is) p s zs \<longleftrightarrow>
     (\<exists>ys. zs = [] # ys \<and> parses is p s ys) \<or>
     (\<exists>c t ys. s = c # t \<and> zs = [c] # ys \<and> f c \<and> parses is (Some c) t ys)"
  by (cases zs) (auto simp: before_def)

lemma parses_Wordb: "parses (Wordb # is) p s zs \<longleftrightarrow> (\<exists>ys. zs = [] # ys \<and> wordb p s \<and> parses is p s ys)"
  by (cases zs) (auto simp: before_def)

lemma parses_Eol: "parses (Eol # is) p s zs \<longleftrightarrow> (\<exists>ys. zs = [] # ys \<and> s = [] \<and> parses is p s ys)"
  by (cases zs) (auto simp: before_def)

text \<open>The matcher on empty and nonempty text.\<close>

lemma rmatch_step:
  "rmatch (One f # is) p [] = None"
  "rmatch (One f # is) p (c # t) = (if f c then map_option (Cons [c]) (rmatch is (Some c) t) else None)"
  "rmatch (Many g f # is) p [] = map_option (Cons []) (rmatch is p [])"
  "rmatch (Many g f # is) p (c # t) =
     (let skip = map_option (Cons []) (rmatch is p (c # t));
          more = (if f c then cons_first c (rmatch (Many g f # is) (Some c) t) else None)
      in if g then (case more of None \<Rightarrow> skip | Some r \<Rightarrow> more) else (case skip of None \<Rightarrow> more | Some r \<Rightarrow> skip))"
  "rmatch (Opt f # is) p [] = map_option (Cons []) (rmatch is p [])"
  "rmatch (Opt f # is) p (c # t) =
     (case if f c then map_option (Cons [c]) (rmatch is (Some c) t) else None of
        None \<Rightarrow> map_option (Cons []) (rmatch is p (c # t)) | Some r \<Rightarrow> Some r)"
  by (cases g; simp split: option.splits)+

declare rmatch.simps [simp del]

lemmas rmatch_simps = rmatch_step rmatch.simps(1,6,7)

lemma cons_first_Some: "cons_first c r = Some z \<longleftrightarrow> (\<exists>x xs. r = Some (x # xs) \<and> z = (c # x) # xs)"
  by (auto simp: cons_first_def split: option.splits list.splits)

text \<open>Induction over the items and the text, as the matcher recurses.\<close>

lemma rmatch_induct [case_names Nil One Many_Nil Many_Cons Opt Wordb Eol]:
  assumes "\<And>p s. P [] p s"
    and "\<And>f is p s. (\<And>c t. s = c # t \<Longrightarrow> P is (Some c) t) \<Longrightarrow> P (One f # is) p s"
    and "\<And>g f is p. P is p [] \<Longrightarrow> P (Many g f # is) p []"
    and "\<And>g f is p c t. P is p (c # t) \<Longrightarrow> P (Many g f # is) (Some c) t \<Longrightarrow> P (Many g f # is) p (c # t)"
    and "\<And>f is p s. P is p s \<Longrightarrow> (\<And>c t. s = c # t \<Longrightarrow> P is (Some c) t) \<Longrightarrow> P (Opt f # is) p s"
    and "\<And>is p s. P is p s \<Longrightarrow> P (Wordb # is) p s"
    and "\<And>is p s. P is p s \<Longrightarrow> P (Eol # is) p s"
  shows "P is p s"
proof (induction "length is + length s" arbitrary: "is" p s rule: less_induct)
  case less
  show ?case
  proof (cases "is")
    case (Cons i is')
    have rest: "P is' p' s'" if "length s' \<le> length s" for p' s' using less that Cons by simp
    show ?thesis
    proof (cases i)
      case (Many g f)
      show ?thesis unfolding Cons Many
      proof (cases s)
        case (Cons c t)
        then show "P (Many g f # is') p s" using rest less \<open>is = i # is'\<close> Many by (simp add: assms(4))
      qed (simp add: assms(3) rest)
    qed (auto simp: Cons assms(2,5,6,7) rest)
  qed (simp add: assms(1))
qed

lemma rmatch_sound: "rmatch is p s = Some xs \<Longrightarrow> parses is p s xs"
proof (induction "is" p s arbitrary: xs rule: rmatch_induct)
  case (Many_Cons g f "is" p c t)
  from Many_Cons.prems consider ys where "xs = [] # ys" "rmatch is p (c # t) = Some ys"
    | x ys where "xs = (c # x) # ys" "f c" "rmatch (Many g f # is) (Some c) t = Some (x # ys)"
    by (auto simp: rmatch_simps Let_def cons_first_Some split: if_splits option.splits)
  then show ?case
    by cases (subst parses_Many, use Many_Cons.IH in blast)+
next
  case (One f "is" p s)
  then show ?case by (cases s) (auto simp: rmatch_simps parses_One split: if_splits)
next
  case (Opt f "is" p s)
  then show ?case
    by (cases s) (auto simp: rmatch_simps parses_Opt split: if_splits option.splits)
next
  case (Many_Nil g f "is" p)
  then show ?case by (subst parses_Many) (auto simp: rmatch_simps)
qed (auto simp: rmatch_simps parses_Wordb parses_Eol split: if_splits)

text \<open>Every match is found or beaten.\<close>

lemma rmatch_best:
  "parses is p s ys \<Longrightarrow> \<exists>xs. rmatch is p s = Some xs \<and> (xs = ys \<or> prefers is xs ys)"
proof (induction "is" p s arbitrary: ys rule: rmatch_induct)
  case (Many_Cons g f "is" p c t)
  from Many_Cons.prems consider zs where "ys = [] # zs" "parses is p (c # t) zs"
    | x zs where "ys = (c # x) # zs" "f c" "parses (Many g f # is) (Some c) t (x # zs)"
    by (subst (asm) parses_Many) auto
  then show ?case
  proof cases
    case 1
    with Many_Cons.IH(1) [OF 1(2)] show ?thesis
      by (auto simp: rmatch_simps Let_def cons_first_Some split: option.splits)
  next
    case 2
    obtain w ws where w: "rmatch (Many g f # is) (Some c) t = Some (w # ws)"
        "w # ws = x # zs \<or> prefers (Many g f # is) (w # ws) (x # zs)"
      using Many_Cons.IH(2) [OF 2(3)] rmatch_sound parses.simps(2) by (metis neq_Nil_conv)
    have more: "cons_first c (rmatch (Many g f # is) (Some c) t) = Some ((c # w) # ws)"
      "(c # w) # ws = ys \<or> prefers (Many g f # is) ((c # w) # ws) ys"
      using w by (cases g; auto simp: cons_first_def 2(1) split: if_splits)+
    show ?thesis
      using more 2 by (cases g) (auto simp: rmatch_simps Let_def split: option.splits)
  qed
next
  case (One f "is" p s)
  then show ?case by (fastforce simp: rmatch_simps parses_One)
next
  case (Opt f "is" p s)
  from Opt.prems consider zs where "ys = [] # zs" "parses is p s zs"
    | c t zs where "s = c # t" "ys = [c] # zs" "f c" "parses is (Some c) t zs"
    by (auto simp: parses_Opt)
  then show ?case
  proof cases
    case 1
    with Opt.IH(1) [OF 1(2)] show ?thesis by (cases s) (auto simp: rmatch_simps split: option.splits)
  next
    case 2
    with Opt.IH(2) [OF 2(1,4)] show ?thesis by (auto simp: rmatch_simps)
  qed
next
  case (Many_Nil g f "is" p)
  then obtain zs where "ys = [] # zs" "parses is p [] zs" by (subst (asm) parses_Many) auto
  with Many_Nil.IH show ?case by (fastforce simp: rmatch_simps)
next
  case (Wordb "is" p s)
  then show ?case by (fastforce simp: rmatch_simps parses_Wordb)
next
  case (Eol "is" p s)
  then show ?case by (fastforce simp: rmatch_simps parses_Eol)
qed (simp add: rmatch_simps)

lemma rmatch_None_iff: "rmatch is p s = None \<longleftrightarrow> (\<nexists>xs. parses is p s xs)"
  using rmatch_sound rmatch_best by (metis not_None_eq option.distinct(1))

text \<open>A greedy repetition takes all it can when the rest matches after it.\<close>

lemma rmatch_greedy:
  "\<forall>c \<in> set xs. f c \<Longrightarrow> t = [] \<or> \<not> f (hd t) \<Longrightarrow> rmatch is (before p xs) t = Some r \<Longrightarrow>
     rmatch (Many True f # is) p (xs @ t) = Some (xs # r)"
proof (induction xs arbitrary: p)
  case Nil
  then show ?case by (cases t) (auto simp: rmatch_simps before_def)
next
  case (Cons x xs)
  have "before (Some x) xs = before p (x # xs)" by (simp add: before_def)
  with Cons show ?case by (simp add: rmatch_simps Let_def cons_first_def)
qed

text \<open>A lazy repetition stops where the rest first matches.\<close>

lemma rmatch_lazy:
  "\<forall>c \<in> set xs. f c \<Longrightarrow> rmatch is (before p xs) t = Some r \<Longrightarrow>
     (\<And>ys zs. xs = ys @ zs \<Longrightarrow> zs \<noteq> [] \<Longrightarrow> rmatch is (before p ys) (zs @ t) = None) \<Longrightarrow>
     rmatch (Many False f # is) p (xs @ t) = Some (xs # r)"
proof (induction xs arbitrary: p)
  case Nil
  then show ?case by (cases t) (auto simp: rmatch_simps before_def)
next
  case (Cons x xs)
  have "rmatch is p (x # xs @ t) = None" using Cons.prems(3) [of "[]" "x # xs"] by (simp add: before_def)
  moreover have "rmatch (Many False f # is) (Some x) (xs @ t) = Some (xs # r)"
  proof (rule Cons.IH)
    show "rmatch is (before (Some x) xs) t = Some r" using Cons.prems(2) by (simp add: before_def split: if_splits)
    fix ys zs assume "xs = ys @ zs" "zs \<noteq> []"
    then show "rmatch is (before (Some x) ys) (zs @ t) = None"
      using Cons.prems(3) [of "x # ys" zs] by (cases ys rule: rev_cases) (auto simp: before_def)
  qed (use Cons.prems(1) in simp)
  ultimately show ?case using Cons.prems(1) by (simp add: rmatch_simps Let_def cons_first_def)
qed

lemma rmatch_rep1:
  assumes "xs \<noteq> []" "\<forall>c \<in> set xs. f c" "t = [] \<or> \<not> f (hd t)" "rmatch is (Some (last xs)) t = Some r"
  shows "rmatch (rep1 True f @ is) p (xs @ t) = Some ([hd xs] # tl xs # r)"
proof -
  obtain x xs' where xs: "xs = x # xs'" using assms(1) by (cases xs) auto
  have "before (Some x) xs' = Some (last xs)" by (simp add: before_def xs)
  then have "rmatch (Many True f # is) (Some x) (xs' @ t) = Some (xs' # r)"
    using assms(2-4) by (intro rmatch_greedy) (simp_all add: xs)
  then show ?thesis using assms(2) by (simp add: rep1_def xs rmatch_simps)
qed

text \<open>A row of columns, each a greedy repetition that ends where the next column begins.\<close>

fun columns_ok :: "((char \<Rightarrow> bool) \<times> string) list \<Rightarrow> string \<Rightarrow> bool" where
  "columns_ok [] t \<longleftrightarrow> True"
| "columns_ok ((f, x) # cs) t \<longleftrightarrow>
     x \<noteq> [] \<and> (\<forall>c \<in> set x. f c) \<and>
     (concat (map snd cs) @ t = [] \<or> \<not> f (hd (concat (map snd cs) @ t))) \<and> columns_ok cs t"

lemma rmatch_columns:
  "columns_ok cs t \<Longrightarrow> (\<And>q. rmatch is q t = Some r) \<Longrightarrow>
     rmatch (concat (map (\<lambda>(f, x). rep1 True f) cs) @ is) p (concat (map snd cs) @ t) =
       Some (concat (map (\<lambda>(f, x). [[hd x], tl x]) cs) @ r)"
proof (induction cs arbitrary: p)
  case (Cons col cs)
  obtain f x where col: "col = (f, x)" by (cases col)
  have "rmatch (rep1 True f @ concat (map (\<lambda>(f, x). rep1 True f) cs) @ is) p (x @ concat (map snd cs) @ t) =
      Some ([hd x] # tl x # concat (map (\<lambda>(f, x). [[hd x], tl x]) cs) @ r)"
    using Cons.prems by (intro rmatch_rep1 Cons.IH) (simp_all add: col)
  then show ?case by (simp add: col)
qed simp

subsection \<open>Lines and words\<close>

lemma splitlines_Nil [simp]: "splitlines [] = []"
  by (simp add: splitlines.simps)

lemma splitlines_line:
  "\<forall>c \<in> set l. \<not> py_break c \<Longrightarrow> splitlines (l @ NL # s) = l # splitlines s"
  by (subst splitlines.simps) (simp add: takeWhile_append_stop dropWhile_append_stop py_break_def)

lemma splitlines_lines:
  "list_all (\<lambda>l. \<forall>c \<in> set l. \<not> py_break c) ls \<Longrightarrow> splitlines (concat (map (\<lambda>l. l @ [NL]) ls)) = ls"
  by (induction ls) (auto simp: splitlines_line)

lemma py_split_Nil [simp]: "py_split [] = []"
  by (simp add: py_split.simps)

lemma py_split_word:
  assumes "w \<noteq> []" "\<forall>c \<in> set w. \<not> py_space c" "s = [] \<or> py_space (hd s)"
  shows "py_split (w @ s) = w # py_split s"
proof -
  have d: "dropWhile py_space (w @ s) = w @ s" using assms(1,2) by (cases w) auto
  have "takeWhile (\<lambda>c. \<not> py_space c) (w @ s) = w" "dropWhile (\<lambda>c. \<not> py_space c) (w @ s) = s"
    using assms(2,3) by (cases s; auto simp: takeWhile_append dropWhile_append)+
  then show ?thesis using assms(1) by (subst py_split.simps) (simp add: d)
qed

lemma py_split_space: "py_space c \<Longrightarrow> py_split (c # s) = py_split s"
  by (subst py_split.simps, subst (2) py_split.simps) simp

end
