(* ===== verification/ZdbDump.thy ===== *)
theory ZdbDump
  imports Scanner PyRegex
begin

text \<open>
  The scanner's reading of \<^verbatim>\<open>zdb\<close> output (\<^verbatim>\<open>src/scan/zhaxx-scan\<close>, the regular expressions,
  \<^verbatim>\<open>parse_obj_dump\<close>): the text of a dump becomes the parsed dump the checks work on. Text is
  ASCII. The lemmas show that dumps are well formed, that the dumps the scanner is tested on are
  read back as they were meant, and what else can make an object unreadable.
\<close>

subsection \<open>Patterns\<close>

definition nonspace :: "char \<Rightarrow> bool" where "nonspace c \<longleftrightarrow> \<not> py_space c"

definition any_char :: "char \<Rightarrow> bool" where "any_char c \<longleftrightarrow> c \<noteq> NL"

definition digit_dot :: "char \<Rightarrow> bool" where "digit_dot c \<longleftrightarrow> py_digit c \<or> c = CHR ''.''"

definition OBJ_HEADER_RE :: "item list" where
  "OBJ_HEADER_RE =
     rep1 True py_space @ rep1 True py_digit @ rep1 True py_space @ rep1 True py_digit @
     rep1 True py_space @ rep1 True nonspace @ rep1 True py_space @ rep1 True nonspace @
     rep1 True py_space @ rep1 True nonspace @ rep1 True py_space @ rep1 True nonspace @
     rep1 True py_space @ rep1 True nonspace @ rep1 True py_space @ rep1 True digit_dot @
     rep1 True py_space @ rep1 False any_char @ [Many True py_space, Eol]"

definition exactly :: "string \<Rightarrow> item list" where
  "exactly t = map (\<lambda>c. One ((=) c)) t"

definition BONUS_RE :: "item list" where
  "BONUS_RE =
     rep1 True py_space @ rep1 True py_digit @ rep1 True py_space @ exactly ''bonus'' @
     rep1 True py_space @ rep1 False any_char @ [Many True py_space, Eol]"

definition KV_RE :: "item list" where
  "KV_RE =
     exactly [TAB, TAB] @ [One (\<lambda>c. \<not> py_space c \<and> c \<noteq> CHR ''=''), Many False (\<lambda>c. c \<noteq> CHR ''='')] @
     rep1 True py_space @ exactly ''='' @ rep1 True py_space @
     [Many False any_char, Many True py_space, Eol]"

definition ERROR_RE :: "item list list" where
  "ERROR_RE =
    [lit ''i/o error'', lit ''input/output error'',
     lit ''errno'' @ [Many True py_space, Opt ((=) CHR ''=''), Many True py_space, One ((=) CHR ''5''), Wordb],
     lit ''EIO'', lit ''failed to read'', lit ''error reading'', lit (''zdb: can'' @ [CHR 0x27] @ ''t''),
     lit ''dmu_bonus_hold('' @ rep1 True py_digit @ lit '') failed'',
     lit ''dmu_object_info('' @ [Opt ((=) CHR '')'')] @ lit '' failed'']"

text \<open>The text of a group, from the items it consists of.\<close>

definition group_of :: "nat \<Rightarrow> nat \<Rightarrow> string list \<Rightarrow> string" where
  "group_of i j m = concat (take (j - i) (drop i m))"

definition match_header :: "string \<Rightarrow> (string \<times> string) option" where
  "match_header line = map_option (\<lambda>m. (group_of 2 4 m, group_of 34 36 m)) (rmatch OBJ_HEADER_RE None line)"

definition match_bonus :: "string \<Rightarrow> string option" where
  "match_bonus line = map_option (group_of 13 15) (rmatch BONUS_RE None line)"

definition match_kv :: "string \<Rightarrow> (string \<times> string) option" where
  "match_kv line = map_option (\<lambda>m. (group_of 2 4 m, group_of 9 10 m)) (rmatch KV_RE None line)"

definition error_line :: "string \<Rightarrow> bool" where
  "error_line line \<longleftrightarrow> rsearch ERROR_RE None line"

subsection \<open>Parsing a dump\<close>

text \<open>What is asked for: an object number, or a text that stands where a number should be.\<close>

datatype py_obj = O_int int | O_text string

text \<open>\<^verbatim>\<open>s.split(sep)[0]\<close>.\<close>

definition before_sep :: "string \<Rightarrow> string \<Rightarrow> string" where
  "before_sep sep s = (case strstr sep s of None \<Rightarrow> s | Some r \<Rightarrow> take (length s - length r) s)"

text \<open>Assignment to a key of a dictionary, which keeps the place of a key it has.\<close>

fun dict_set :: "'k \<Rightarrow> 'v \<Rightarrow> ('k \<times> 'v) list \<Rightarrow> ('k \<times> 'v) list" where
  "dict_set k v [] = [(k, v)]"
| "dict_set k v ((k', v') # xs) = (if k' = k then (k, v) # xs else (k', v') # dict_set k v xs)"

definition store_kv :: "string \<Rightarrow> string \<Rightarrow> obj_dump \<Rightarrow> obj_dump" where
  "store_kv key val d =
    (let words = py_split val in
     if 1 < length words \<and> list_all (list_all py_digit) words
     then d\<lparr>od_zap_multi := dict_set key (map (digits_value 10) words) (od_zap_multi d)\<rparr>
     else
       let v = (case words of [] \<Rightarrow> [] | w # _ \<Rightarrow> w) in
       if v \<noteq> [] \<and> list_all py_digit v
       then d\<lparr>od_fields := dict_set key (R_int (digits_value 10 v)) (od_fields d),
              od_zap := dict_set key (digits_value 10 v) (od_zap d)\<rparr>
       else d\<lparr>od_fields := dict_set key (R_str val) (od_fields d)\<rparr>)"

text \<open>What happens to a line that is not the header of the object asked for.\<close>

definition parse_rest :: "string \<Rightarrow> obj_dump \<times> bool \<Rightarrow> obj_dump \<times> bool" where
  "parse_rest line state =
    (case state of (d, in_object) \<Rightarrow>
       if \<not> in_object
       then (if error_line line then (d\<lparr>od_unreadable := od_exists d\<rparr>, in_object) else (d, in_object))
       else
         case match_bonus line of
           Some b \<Rightarrow> (d\<lparr>od_bonus_type := Some b\<rparr>, in_object)
         | None \<Rightarrow>
             if error_line line then (d\<lparr>od_unreadable := True\<rparr>, in_object)
             else
               case match_kv line of
                 Some (key, val) \<Rightarrow> (store_kv key val d, in_object)
               | None \<Rightarrow> (d, in_object))"

definition parse_line :: "py_obj \<Rightarrow> obj_dump \<times> bool \<Rightarrow> string \<Rightarrow> obj_dump \<times> bool" where
  "parse_line ob state line =
    (case match_header line of
       Some (num, ty) \<Rightarrow>
         if O_int (int (digits_value 10 num)) = ob
         then ((fst state)\<lparr>od_exists := True, od_type := Some (py_strip (before_sep '' (K='' ty))\<rparr>, True)
         else parse_rest line state
     | None \<Rightarrow> parse_rest line state)"

definition parse_obj_dump :: "py_obj \<Rightarrow> string \<Rightarrow> obj_dump" where
  "parse_obj_dump ob text = fst (foldl (parse_line ob) (missing, False) (splitlines text))"

subsection \<open>Lines of a dump\<close>

lemma parses_rep1D:
  assumes "parses (rep1 g f @ is) p s xs"
  shows "\<exists>y t q ys. s = y @ t \<and> y \<noteq> [] \<and> (\<forall>c \<in> set y. f c) \<and> parses is q t ys"
proof -
  obtain c t ys where s: "s = c # t" "f c" and rest: "parses (Many g f # is) (Some c) t ys"
    using assms by (auto simp: rep1_def parses_One)
  obtain z zs where "ys = z # zs" using rest by (cases ys) auto
  with rest obtain u where "t = z @ u" "\<forall>c \<in> set z. f c" "parses is (before (Some c) z) u zs" by auto
  with s show ?thesis by (intro exI [of _ "c # z"] exI [of _ u]) auto
qed

lemma parses_ManyE:
  assumes "parses (Many g f # is) p s xs"
  obtains y t q ys where "s = y @ t" "\<forall>c \<in> set y. f c" "parses is q t ys"
  using assms by (cases xs) auto

lemma parses_space_end: "parses [Many g f, Eol] p s xs \<Longrightarrow> \<forall>c \<in> set s. f c"
  by (cases xs; cases "tl xs") auto

text \<open>An entry as \<^verbatim>\<open>zdb\<close> prints it, and when it can be read back.\<close>

definition kv_line :: "string \<Rightarrow> string \<Rightarrow> string" where
  "kv_line k v = [TAB, TAB] @ k @ '' = '' @ v @ '' ''"

definition solid :: "string \<Rightarrow> bool" where
  "solid v \<longleftrightarrow> v \<noteq> [] \<and> (\<forall>c \<in> set v. \<not> py_break c) \<and> \<not> py_space (hd v) \<and> \<not> py_space (last v)"

definition key_ok :: "string \<Rightarrow> bool" where
  "key_ok k \<longleftrightarrow> solid k \<and> CHR ''='' \<notin> set k \<and> (py_digit (hd k) \<longrightarrow> (\<forall>c \<in> set k. \<not> py_space c))"

lemma char_facts [simp]:
  "py_space SP" "py_space TAB" "py_space NL" "\<not> py_space (CHR ''='')" "\<not> py_digit (CHR ''='')"
  "\<not> py_break SP" "\<not> py_break TAB" "\<not> py_break (CHR ''='')" "py_break NL"
  by (simp_all add: py_space_def py_digit_def py_break_def is_digit_in_def digit_val_def)

lemma digit_not_space: "py_digit c \<Longrightarrow> \<not> py_space c"
  by (auto simp: py_digit_def is_digit_in_def digit_val_def py_space_def Let_def split: if_splits)

lemma break_any: "\<not> py_break c \<Longrightarrow> any_char c"
  by (auto simp: any_char_def)

text \<open>The words of an entry: a text without blanks at its ends, and blanks.\<close>

definition blanks :: "string \<Rightarrow> bool" where
  "blanks s \<longleftrightarrow> (\<forall>c \<in> set s. py_space c)"

definition trimmed :: "string \<Rightarrow> bool" where
  "trimmed v \<longleftrightarrow> v = [] \<or> \<not> py_space (hd v) \<and> \<not> py_space (last v)"

lemma match_value:
  assumes "trimmed v" "NL \<notin> set v" "blanks c"
  shows "rmatch [Many False any_char, Many True py_space, Eol] p (v @ c) = Some [v, c, []]"
proof (rule rmatch_lazy)
  show "\<forall>c \<in> set v. any_char c" using assms(2) by (auto simp: any_char_def)
  show "rmatch [Many True py_space, Eol] (before p v) c = Some [c, []]"
    using rmatch_greedy [of c py_space "[]" "[Eol]" "before p v" "[[]]"] assms(3)
    by (simp add: blanks_def rmatch_simps)
  fix ys zs assume "v = ys @ zs" "zs \<noteq> []"
  then have "last zs \<in> set zs" "\<not> py_space (last zs)" using assms(1) by (auto simp: trimmed_def)
  then show "rmatch [Many True py_space, Eol] (before p ys) (zs @ c) = None"
    unfolding rmatch_None_iff using parses_space_end by fastforce
qed

lemma key_end:
  assumes "parses (rep1 True py_space @ exactly ''='' @ is) p (zs @ a @ CHR ''='' # u) xs"
    and "CHR ''='' \<notin> set zs" "zs \<noteq> []" "blanks a"
  shows "py_space (last zs)"
proof -
  obtain y t q ys where y: "zs @ a @ CHR ''='' # u = y @ t" "\<forall>c \<in> set y. py_space c"
    and rest: "parses (exactly ''='' @ is) q t ys"
    using parses_rep1D [OF assms(1)] by blast
  obtain t' where "t = CHR ''='' # t'" using rest by (auto simp: exactly_def parses_One)
  moreover have "CHR ''='' \<notin> set y" using y(2) by auto
  ultimately have "takeWhile (\<lambda>c. c \<noteq> CHR ''='') (zs @ a @ CHR ''='' # u) = y"
    using y(1) by (auto simp: takeWhile_append)
  moreover have "CHR ''='' \<notin> set a" using assms(4) by (auto simp: blanks_def)
  then have "takeWhile (\<lambda>c. c \<noteq> CHR ''='') (zs @ a @ CHR ''='' # u) = zs @ a"
    using assms(2) by (simp add: takeWhile_append)
  ultimately show ?thesis using y(2) assms(3) by auto
qed

lemma match_kv_parts:
  assumes k: "k \<noteq> []" "trimmed k" "CHR ''='' \<notin> set k"
    and v: "trimmed v" "NL \<notin> set v" "v = [] \<longrightarrow> c = []"
    and blanks: "blanks a" "a \<noteq> []" "blanks b" "b \<noteq> []" "blanks c"
  shows "match_kv ([TAB, TAB] @ k @ a @ CHR ''='' # b @ v @ c) = Some (k, v)"
proof -
  obtain x k' where x: "k = x # k'" using k(1) by (auto simp: neq_Nil_conv)
  let ?vals = "[Many False any_char, Many True py_space, Eol]"
  let ?sep = "rep1 True py_space @ exactly ''='' @ rep1 True py_space @ ?vals"
  let ?found = "[[hd b], tl b, v, c, []]"
  have "v @ c = [] \<or> \<not> py_space (hd (v @ c))" using v(1,3) by (auto simp: trimmed_def)
  then have val: "rmatch (rep1 True py_space @ ?vals) q (b @ v @ c) = Some ?found" for q
    using blanks(3,4) match_value [OF v(1,2) blanks(5)] by (intro rmatch_rep1) (simp_all add: blanks_def)
  have sep: "rmatch ?sep q (a @ CHR ''='' # b @ v @ c) = Some ([hd a] # tl a # ''='' # ?found)" for q
    using blanks(1,2) val by (intro rmatch_rep1) (simp_all add: blanks_def exactly_def rmatch_simps)
  have "rmatch (Many False (\<lambda>c. c \<noteq> CHR ''='') # ?sep) (Some x) (k' @ a @ CHR ''='' # b @ v @ c) =
      Some (k' # [hd a] # tl a # ''='' # ?found)"
  proof (rule rmatch_lazy)
    show "\<forall>c \<in> set k'. c \<noteq> CHR ''=''" using k(3) by (auto simp: x)
    fix ys zs assume z: "k' = ys @ zs" "zs \<noteq> []"
    then have "\<not> py_space (last zs)" "CHR ''='' \<notin> set zs" using k by (auto simp: trimmed_def x)
    then show "rmatch ?sep (before (Some x) ys) (zs @ a @ CHR ''='' # b @ v @ c) = None"
      unfolding rmatch_None_iff using key_end z(2) blanks(1) by blast
  qed (rule sep)
  moreover have "x \<noteq> CHR ''=''" "\<not> py_space x" using k by (auto simp: trimmed_def x)
  ultimately show ?thesis
    by (simp add: match_kv_def KV_RE_def exactly_def rmatch_simps x group_of_def)
qed

text \<open>Any match can be brought into this form, by moving blanks.\<close>

lemma trim_parts: "\<exists>a y z. s = a @ y @ z \<and> blanks a \<and> trimmed y \<and> blanks z"
proof -
  let ?t = "dropWhile py_space s"
  let ?y = "rev (dropWhile py_space (rev ?t))" and ?z = "rev (takeWhile py_space (rev ?t))"
  have t: "?y @ ?z = ?t" by (metis rev_append rev_rev_ident takeWhile_dropWhile_id)
  have "trimmed ?y"
  proof (cases "?y = []")
    case False
    have "\<not> py_space (last ?y)" using False hd_dropWhile by (metis last_rev rev_is_Nil_conv)
    moreover have "hd ?y = hd ?t" using False t by (metis hd_append2)
    moreover have "?t \<noteq> []" using False by (metis dropWhile.simps(1) rev.simps(1))
    ultimately show ?thesis using hd_dropWhile by (metis trimmed_def)
  qed (simp add: trimmed_def)
  moreover have "blanks ?z" "blanks (takeWhile py_space s)"
    using set_takeWhileD [of _ py_space "rev ?t"] set_takeWhileD [of _ py_space s] unfolding blanks_def set_rev
    by blast+
  moreover have "s = takeWhile py_space s @ ?y @ ?z" by (simp only: t takeWhile_dropWhile_id)
  ultimately show ?thesis by blast
qed

lemma match_kv_decomposes:
  assumes "match_kv l = Some r"
  shows "\<exists>k a b v. l = [TAB, TAB] @ k @ a @ CHR ''='' # b @ v \<and> k \<noteq> [] \<and> \<not> py_space (hd k) \<and>
    CHR ''='' \<notin> set k \<and> a \<noteq> [] \<and> blanks a \<and> b \<noteq> [] \<and> blanks b"
proof -
  obtain m where "parses KV_RE None l m" using assms by (auto simp: match_kv_def dest!: rmatch_sound)
  then have "parses (One ((=) TAB) # One ((=) TAB) # One (\<lambda>c. \<not> py_space c \<and> c \<noteq> CHR ''='') #
      Many False (\<lambda>c. c \<noteq> CHR ''='') # rep1 True py_space @ exactly ''='' @ rep1 True py_space @
      [Many False any_char, Many True py_space, Eol]) None l m"
    by (simp add: KV_RE_def exactly_def)
  then obtain x t q m0 where l: "l = TAB # TAB # x # t" "\<not> py_space x" "x \<noteq> CHR ''=''"
    and p0: "parses (Many False (\<lambda>c. c \<noteq> CHR ''='') # rep1 True py_space @ exactly ''='' @ rep1 True py_space @
      [Many False any_char, Many True py_space, Eol]) q t m0"
    unfolding parses_One by blast
  obtain k s1 q1 m1 where k: "t = k @ s1" "\<forall>c \<in> set k. c \<noteq> CHR ''=''"
    and p1: "parses (rep1 True py_space @ exactly ''='' @ rep1 True py_space @
      [Many False any_char, Many True py_space, Eol]) q1 s1 m1"
    by (rule parses_ManyE [OF p0])
  obtain a s2 q2 m2 where a: "s1 = a @ s2" "a \<noteq> []" "blanks a"
    and p2: "parses (exactly ''='' @ rep1 True py_space @ [Many False any_char, Many True py_space, Eol]) q2 s2 m2"
    using parses_rep1D [OF p1] unfolding blanks_def by blast
  then obtain s3 q3 m3 where s2: "s2 = CHR ''='' # s3"
    and p3: "parses (rep1 True py_space @ [Many False any_char, Many True py_space, Eol]) q3 s3 m3"
    by (auto simp: exactly_def parses_One)
  obtain b s4 where b: "s3 = b @ s4" "b \<noteq> []" "blanks b"
    using parses_rep1D [OF p3] unfolding blanks_def by blast
  show ?thesis
    by (rule exI [of _ "x # k"], rule exI [of _ a], rule exI [of _ b], rule exI [of _ s4])
      (use l k a s2 b in auto)
qed

lemma match_kv_line:
  assumes "key_ok k" "solid v"
  shows "match_kv (kv_line k v) = Some (k, v)"
  using assms match_kv_parts [of k v "'' ''" "'' ''" "'' ''"]
  by (fastforce simp: kv_line_def key_ok_def solid_def trimmed_def blanks_def)

text \<open>An entry is never taken for a header or a bonus line: its second word is \<^verbatim>\<open>=\<close>.\<close>

lemma kv_line_second_word:
  assumes "key_ok k" "\<not> P (CHR ''='')" "\<And>c. py_space c \<Longrightarrow> \<not> P c"
  shows "\<not> parses (rep1 True py_space @ rep1 True py_digit @ rep1 True py_space @ One P # is) p (kv_line k v) xs"
proof
  assume p0: "parses (rep1 True py_space @ rep1 True py_digit @ rep1 True py_space @ One P # is) p (kv_line k v) xs"
  obtain a s1 q1 x1 where a: "kv_line k v = a @ s1" "\<forall>c \<in> set a. py_space c"
    and p1: "parses (rep1 True py_digit @ rep1 True py_space @ One P # is) q1 s1 x1"
    using parses_rep1D [OF p0] by blast
  obtain b s2 q2 x2 where b: "s1 = b @ s2" "b \<noteq> []" "\<forall>c \<in> set b. py_digit c"
    and p2: "parses (rep1 True py_space @ One P # is) q2 s2 x2"
    using parses_rep1D [OF p1] by blast
  obtain c s3 q3 x3 where c: "s2 = c @ s3" "c \<noteq> []" "\<forall>x \<in> set c. py_space x"
    and p3: "parses (One P # is) q3 s3 x3"
    using parses_rep1D [OF p2] by blast
  obtain e s4 where e: "s3 = e # s4" "P e" using p3 by (auto simp: parses_One)
  have k: "k \<noteq> []" "\<not> py_space (hd k)" using assms(1) by (auto simp: key_ok_def solid_def)
  have "dropWhile py_space (kv_line k v) = k @ '' = '' @ v @ '' ''"
    using k by (cases k) (simp_all add: kv_line_def)
  moreover have "dropWhile py_space (kv_line k v) = s1"
    using a b digit_not_space by (cases b) (simp_all add: dropWhile_append)
  ultimately have s1: "k @ '' = '' @ v @ '' '' = b @ c @ e # s4" using b(1) c(1) e(1) by simp
  then have "hd k = hd b" using k(1) b(2) by (metis hd_append2)
  then have "\<forall>x \<in> set k. \<not> py_space x" using assms(1) b(2,3) by (simp add: key_ok_def)
  then have "takeWhile (\<lambda>x. \<not> py_space x) (k @ '' = '' @ v @ '' '') = k" by (simp add: takeWhile_append)
  moreover have "takeWhile (\<lambda>x. \<not> py_space x) (b @ c @ e # s4) = b"
    using b(3) c(2,3) digit_not_space by (cases c) (auto simp: takeWhile_append)
  ultimately have "k = b" using s1 by simp
  with s1 have "'' = '' @ v @ '' '' = c @ e # s4" by simp
  then have "dropWhile py_space ('' = '' @ v @ '' '') = dropWhile py_space (e # s4)"
    using c(3) by (simp add: dropWhile_append)
  then show False using assms(2,3) e(2) by (auto split: if_splits)
qed

lemma header_second_word:
  "\<exists>is. OBJ_HEADER_RE = rep1 True py_space @ rep1 True py_digit @ rep1 True py_space @ One py_digit # is"
  by (simp add: OBJ_HEADER_RE_def rep1_def)

lemma bonus_second_word:
  "\<exists>is. BONUS_RE = rep1 True py_space @ rep1 True py_digit @ rep1 True py_space @ One ((=) CHR ''b'') # is"
  by (simp add: BONUS_RE_def rep1_def exactly_def)

lemma kv_line_no_header:
  assumes "key_ok k"
  shows "match_header (kv_line k v) = None"
proof -
  have "\<not> parses OBJ_HEADER_RE None (kv_line k v) xs" for xs
    using header_second_word kv_line_second_word [OF assms, of py_digit] digit_not_space by (metis char_facts(5))
  then show ?thesis by (simp add: match_header_def rmatch_None_iff)
qed

lemma kv_line_no_bonus:
  assumes "key_ok k"
  shows "match_bonus (kv_line k v) = None"
proof -
  have b: "CHR ''b'' \<noteq> CHR ''=''" "\<not> py_space (CHR ''b'')" by (simp_all add: py_space_def)
  have "\<not> parses BONUS_RE None (kv_line k v) xs" for xs
    using bonus_second_word kv_line_second_word [OF assms, of "(=) CHR ''b''"] b by metis
  then show ?thesis by (simp add: match_bonus_def rmatch_None_iff)
qed

text \<open>The row with the columns of an object, in the format of \<^verbatim>\<open>src/tests/fixtures.py\<close>.\<close>

definition header_row :: "nat \<Rightarrow> string \<Rightarrow> string" where
  "header_row n t = ''    '' @ dec n @ ''    1   128K    512    12K     512    512  100.00  '' @ t"

lemma dec_py_digit: "c \<in> set (dec n) \<Longrightarrow> py_digit c"
  by (simp add: py_digit_def dec_is_digit)

lemma match_type:
  assumes "solid t"
  shows "rmatch (rep1 False any_char @ [Many True py_space, Eol]) p t = Some [[hd t], tl t, [], []]"
proof -
  obtain x t' where t: "t = x # t'" using assms by (auto simp: solid_def neq_Nil_conv)
  have "rmatch (Many False any_char # [Many True py_space, Eol]) (Some x) (t' @ []) = Some [t', [], []]"
  proof (rule rmatch_lazy)
    show "\<forall>c \<in> set t'. any_char c" using assms by (auto simp: solid_def t break_any)
    show "rmatch [Many True py_space, Eol] (before (Some x) t') [] = Some [[], []]" by (simp add: rmatch_simps)
    fix ys zs assume "t' = ys @ zs" "zs \<noteq> []"
    then have "last zs \<in> set (zs @ [])" "\<not> py_space (last zs)" using assms by (auto simp: solid_def t)
    then show "rmatch [Many True py_space, Eol] (before (Some x) ys) (zs @ []) = None"
      unfolding rmatch_None_iff using parses_space_end by blast
  qed
  then show ?thesis using assms by (simp add: rep1_def t rmatch_simps solid_def break_any)
qed

definition header_columns :: "nat \<Rightarrow> ((char \<Rightarrow> bool) \<times> string) list" where
  "header_columns n =
    [(py_space, ''    ''), (py_digit, dec n), (py_space, ''    ''), (py_digit, ''1''),
     (py_space, ''   ''), (nonspace, ''128K''), (py_space, ''    ''), (nonspace, ''512''),
     (py_space, ''    ''), (nonspace, ''12K''), (py_space, ''     ''), (nonspace, ''512''),
     (py_space, ''    ''), (nonspace, ''512''), (py_space, ''  ''), (digit_dot, ''100.00''), (py_space, ''  '')]"

lemma digit_facts [simp]:
  "py_digit (CHR ''0'')" "py_digit (CHR ''1'')" "py_digit (CHR ''2'')" "py_digit (CHR ''5'')" "\<not> py_digit SP"
  "\<not> py_space (CHR ''0'')" "\<not> py_space (CHR ''1'')" "\<not> py_space (CHR ''2'')" "\<not> py_space (CHR ''5'')"
  "\<not> py_space (CHR ''8'')" "\<not> py_space (CHR ''K'')"
  by (simp_all add: py_digit_def is_digit_in_def digit_val_def py_space_def)

lemma match_header_row:
  assumes "solid t"
  shows "match_header (header_row n t) = Some (dec n, t)"
proof -
  have t: "t \<noteq> []" "\<not> py_space (hd t)" using assms by (auto simp: solid_def)
  have d: "dec n \<noteq> []" "\<not> py_space (hd (dec n))" "\<forall>c \<in> set (dec n). py_digit c"
    using dec_py_digit digit_not_space by (simp_all, meson dec_nonempty hd_in_set)
  have cols: "columns_ok (header_columns n) t"
    using t d by (simp add: header_columns_def nonspace_def digit_dot_def)
  have re: "OBJ_HEADER_RE = concat (map (\<lambda>(f, x). rep1 True f) (header_columns n)) @
      rep1 False any_char @ [Many True py_space, Eol]"
    by (simp add: OBJ_HEADER_RE_def header_columns_def)
  have row: "header_row n t = concat (map snd (header_columns n)) @ t"
    by (simp add: header_row_def header_columns_def)
  have "rmatch OBJ_HEADER_RE None (header_row n t) =
      Some (concat (map (\<lambda>(f, x). [[hd x], tl x]) (header_columns n)) @ [[hd t], tl t, [], []])"
    unfolding re row by (rule rmatch_columns [OF cols match_type [OF assms]])
  then show ?thesis
    using t(1) by (simp add: match_header_def group_of_def header_columns_def)
qed

subsection \<open>A printed object\<close>

text \<open>\<^verbatim>\<open>Obj.render\<close> of \<^verbatim>\<open>src/tests/fixtures.py\<close>: the dumps the scanner is tested on.\<close>

definition value_text :: "nat list \<Rightarrow> string" where
  "value_text ns = concat (map (\<lambda>n. dec n @ '' '') (butlast ns)) @ dec (last ns)"

definition error_row :: "nat \<Rightarrow> string" where
  "error_row n = ''zdb: can'' @ [CHR 0x27] @ ''t open object '' @ dec n @ '': Input/output error''"

definition preamble_lines :: "string list" where
  "preamble_lines =
    [''Dataset mos [META], ID 0, cr_txg 4, 1.00G, 1000 objects'', [],
     ''    Object  lvl   iblk   dblk  dsize  dnsize  lsize   %full  type'']"

definition render :: "nat \<Rightarrow> string \<Rightarrow> (string \<times> nat list) list \<Rightarrow> bool \<Rightarrow> string" where
  "render n t kv bad = concat (map (\<lambda>l. l @ [NL])
     (preamble_lines @ [header_row n t] @
      (if bad then [error_row n] else map (\<lambda>(k, ns). kv_line k (value_text ns)) kv)))"

text \<open>The dump that is meant.\<close>

definition meant :: "string \<Rightarrow> (string \<times> nat list) list \<Rightarrow> obj_dump" where
  "meant t kv = missing\<lparr>od_exists := True, od_type := Some t,
     od_fields := [(k, R_int (hd ns)). (k, ns) \<leftarrow> kv, length ns = 1],
     od_zap := [(k, hd ns). (k, ns) \<leftarrow> kv, length ns = 1],
     od_zap_multi := [(k, ns). (k, ns) \<leftarrow> kv, length ns \<noteq> 1]\<rparr>"

definition type_fit :: "string \<Rightarrow> bool" where
  "type_fit t \<longleftrightarrow> solid t \<and> strstr '' (K='' t = None"

definition entry_fit :: "string \<times> nat list \<Rightarrow> bool" where
  "entry_fit e \<longleftrightarrow> key_ok (fst e) \<and> snd e \<noteq> [] \<and> \<not> error_line (kv_line (fst e) (value_text (snd e)))"

lemma dict_set_new: "k \<notin> fst ` set xs \<Longrightarrow> dict_set k v xs = xs @ [(k, v)]"
  by (induction xs) auto

lemma dec_split: "py_split (dec n) = [dec n]" "py_split (dec n @ SP # s) = dec n # py_split s"
proof -
  have "\<forall>c \<in> set (dec n). \<not> py_space c" using dec_py_digit digit_not_space by blast
  then show "py_split (dec n) = [dec n]" "py_split (dec n @ SP # s) = dec n # py_split s"
    using py_split_word [of "dec n" "[]"] py_split_word [of "dec n" "SP # s"] by (simp_all add: py_split_space)
qed

lemma value_text_simps [simp]:
  "value_text [n] = dec n" "ns \<noteq> [] \<Longrightarrow> value_text (n # ns) = dec n @ SP # value_text ns"
  by (simp_all add: value_text_def)

lemma py_split_value: "ns \<noteq> [] \<Longrightarrow> py_split (value_text ns) = map dec ns"
proof (induction ns)
  case (Cons n ns)
  then show ?case by (cases "ns = []") (simp_all add: dec_split)
qed simp

lemma digit_not_break: "py_digit c \<Longrightarrow> \<not> py_break c"
  by (auto simp: py_digit_def is_digit_in_def digit_val_def py_break_def Let_def split: if_splits)

lemma value_text_nonempty: "value_text ns \<noteq> []"
  by (simp add: value_text_def)

lemma solid_value: "ns \<noteq> [] \<Longrightarrow> solid (value_text ns)"
proof (induction ns)
  case (Cons n ns)
  have d: "\<forall>c \<in> set (dec n). \<not> py_break c \<and> \<not> py_space c"
    using dec_py_digit digit_not_space digit_not_break by blast
  then have "solid (dec n)" using hd_in_set last_in_set dec_nonempty by (auto simp: solid_def)
  then show ?case
    using Cons d by (cases "ns = []") (auto simp: solid_def)
qed simp

lemma store_kv_value:
  assumes "ns \<noteq> []" "k \<notin> fst ` set (od_fields d)" "k \<notin> fst ` set (od_zap d)" "k \<notin> fst ` set (od_zap_multi d)"
  shows "store_kv k (value_text ns) d =
    (if length ns = 1
     then d\<lparr>od_fields := od_fields d @ [(k, R_int (hd ns))], od_zap := od_zap d @ [(k, hd ns)]\<rparr>
     else d\<lparr>od_zap_multi := od_zap_multi d @ [(k, ns)]\<rparr>)"
proof -
  have digits: "list_all (list_all py_digit) (map dec ns)"
    using dec_py_digit by (auto simp: list_all_iff)
  have "map (digits_value 10 \<circ> dec) ns = ns" by (simp add: digits_value_dec comp_def)
  then show ?thesis
    using assms digits
    by (cases ns; cases "tl ns") (simp_all add: store_kv_def py_split_value dict_set_new digits_value_dec del: value_text_simps)
qed

lemma preamble_no_header: "list_all (\<lambda>l. match_header l = None) preamble_lines"
  by code_simp

lemma preamble_skipped: "foldl (parse_line ob) (missing, False) preamble_lines = (missing, False)"
proof -
  have "foldl (parse_line ob) (missing, False) ls = (missing, False)" if "list_all (\<lambda>l. match_header l = None) ls" for ls
    using that by (induction ls) (auto simp: parse_line_def parse_rest_def missing_def)
  then show ?thesis using preamble_no_header by blast
qed

lemma solid_strip: "solid t \<Longrightarrow> py_strip t = t"
proof -
  assume "solid t"
  then have "t \<noteq> []" "\<not> py_space (hd t)" "\<not> py_space (last t)" by (auto simp: solid_def)
  moreover from this have "dropWhile py_space t = t" by (cases t) simp_all
  moreover from calculation have "dropWhile py_space (rev t) = rev t" by (cases t rule: rev_cases) simp_all
  ultimately show ?thesis by (simp add: py_strip_def rstrip_def)
qed

lemma parse_header_row:
  assumes "type_fit t"
  shows "parse_line (O_int (int n)) st (header_row n t) = ((fst st)\<lparr>od_exists := True, od_type := Some t\<rparr>, True)"
  using assms
  by (simp add: parse_line_def match_header_row type_fit_def digits_value_dec before_sep_def solid_strip)

lemma parse_kv_line:
  assumes "key_ok k" "ns \<noteq> []"
  shows "parse_line ob (d, True) (kv_line k (value_text ns)) =
    (if error_line (kv_line k (value_text ns)) then d\<lparr>od_unreadable := True\<rparr> else store_kv k (value_text ns) d, True)"
  using assms
  by (simp add: parse_line_def parse_rest_def kv_line_no_header kv_line_no_bonus match_kv_line solid_value)

text \<open>Nothing a line of the object does makes it readable again.\<close>

lemma parse_line_unreadable:
  "snd st \<Longrightarrow> od_unreadable (fst st) \<Longrightarrow>
     snd (parse_line ob st l) \<and> od_unreadable (fst (parse_line ob st l))"
  by (auto simp: parse_line_def parse_rest_def store_kv_def Let_def split: option.splits prod.splits if_splits)

lemma parse_lines_unreadable:
  "snd st \<Longrightarrow> od_unreadable (fst st) \<Longrightarrow> od_unreadable (fst (foldl (parse_line ob) st ls))"
proof (induction ls arbitrary: st)
  case (Cons l ls)
  then show ?case using parse_line_unreadable [of st ob l] by simp
qed simp

lemma parse_entries:
  "list_all entry_fit kv \<Longrightarrow> distinct (map fst kv) \<Longrightarrow>
   fst ` set kv \<inter> (fst ` set (od_fields d) \<union> fst ` set (od_zap d) \<union> fst ` set (od_zap_multi d)) = {} \<Longrightarrow>
   foldl (parse_line ob) (d, True) (map (\<lambda>(k, ns). kv_line k (value_text ns)) kv) =
     (d\<lparr>od_fields := od_fields d @ [(k, R_int (hd ns)). (k, ns) \<leftarrow> kv, length ns = 1],
        od_zap := od_zap d @ [(k, hd ns). (k, ns) \<leftarrow> kv, length ns = 1],
        od_zap_multi := od_zap_multi d @ [(k, ns). (k, ns) \<leftarrow> kv, length ns \<noteq> 1]\<rparr>, True)"
proof (induction kv arbitrary: d)
  case (Cons e kv)
  obtain k ns where e: "e = (k, ns)" by (cases e)
  have fit: "key_ok k" "ns \<noteq> []" "\<not> error_line (kv_line k (value_text ns))"
    using Cons.prems(1) by (auto simp: entry_fit_def e)
  have new: "k \<notin> fst ` set (od_fields d)" "k \<notin> fst ` set (od_zap d)" "k \<notin> fst ` set (od_zap_multi d)"
    using Cons.prems(3) by (auto simp: e)
  have step: "parse_line ob (d, True) (kv_line k (value_text ns)) =
      (if length ns = 1
       then d\<lparr>od_fields := od_fields d @ [(k, R_int (hd ns))], od_zap := od_zap d @ [(k, hd ns)]\<rparr>
       else d\<lparr>od_zap_multi := od_zap_multi d @ [(k, ns)]\<rparr>, True)"
    using fit new by (simp add: parse_kv_line store_kv_value)
  have "k \<notin> fst ` set kv" using Cons.prems(2) by (simp add: e)
  then show ?case
    using Cons.prems by (cases "length ns = 1") (simp_all add: e step Cons.IH)
qed simp

lemma parse_entries_inside:
  "list_all (\<lambda>(k, ns). key_ok k \<and> ns \<noteq> []) kv \<Longrightarrow>
     \<exists>d'. foldl (parse_line ob) (d, True) (map (\<lambda>(k, ns). kv_line k (value_text ns)) kv) = (d', True)"
  by (induction kv arbitrary: d) (auto simp: parse_kv_line)

text \<open>Words that mean an error.\<close>

lemma rmatch_lit: "map tolower x = map tolower t \<Longrightarrow> rmatch (lit t) p (x @ s) \<noteq> None"
proof (induction x arbitrary: t p)
  case (Cons c x)
  then obtain d t' where "t = d # t'" by (cases t) auto
  with Cons show ?case by (simp add: lit_def rmatch_simps)
qed (simp add: lit_def rmatch_simps)

lemma map_split:
  assumes "map f xs = a @ b"
  obtains u v where "xs = u @ v" "map f v = b" "map f u = a"
  using assms unfolding map_eq_append_conv by blast

lemma rsearch_skip: "rsearch alts q s \<Longrightarrow> q = before p x \<Longrightarrow> rsearch alts p (x @ s)"
  by (induction x arbitrary: p) (auto simp: before_def split: if_splits)

lemma rsearch_here: "a \<in> set alts \<Longrightarrow> rmatch a p s \<noteq> None \<Longrightarrow> rsearch alts p s"
  by (cases s) (auto simp: list_ex_iff)

lemma error_word:
  assumes "lit t \<in> set ERROR_RE" "map tolower x = map tolower t"
  shows "error_line (a @ x @ b)"
  unfolding error_line_def
  by (rule rsearch_skip [OF rsearch_here [OF assms(1) rmatch_lit [OF assms(2)]] refl])

text \<open>A quick test that a line is no error: none of the letters that an error begins with.\<close>

definition error_starts :: "string list" where
  "error_starts = [''i/o'', ''inp'', ''errn'', ''EIO'', ''fai'', ''erro'', ''zdb'', ''dmu'']"

definition calm :: "string \<Rightarrow> bool" where
  "calm l \<longleftrightarrow> (let s = map tolower l in list_all (\<lambda>w. strstr (map tolower w) s = None) error_starts)"

lemma rsearchD: "rsearch alts p s \<Longrightarrow> \<exists>x y q. \<exists>a \<in> set alts. s = x @ y \<and> rmatch a q y \<noteq> None"
proof (induction alts p s rule: rsearch.induct)
  case (2 alts p c s)
  then consider a where "a \<in> set alts" "rmatch a p (c # s) \<noteq> None" | "rsearch alts (Some c) s"
    by (auto simp: list_ex_iff)
  then show ?case
  proof cases
    case 1
    then show ?thesis by (metis append_Nil)
  next
    case 2
    then show ?thesis using "2.IH" by (metis append_Cons)
  qed
qed (auto simp: list_ex_iff)

lemma rmatch_lit_prefix: "rmatch (lit w @ is) q y \<noteq> None \<Longrightarrow> prefix (map tolower w) (map tolower y)"
proof (induction w arbitrary: q y)
  case (Cons c w)
  then show ?case by (cases y) (auto simp: lit_def rmatch_simps split: if_splits)
qed simp

lemma strstr_infix: "prefix pat y \<Longrightarrow> strstr pat (x @ y) \<noteq> None"
  by (induction x) (auto simp: strstr_here)

lemma ERROR_RE_starts:
  "ERROR_RE =
    [lit ''i/o'' @ lit '' error'', lit ''inp'' @ lit ''ut/output error'',
     lit ''errn'' @ lit ''o'' @ [Many True py_space, Opt ((=) CHR ''=''), Many True py_space, One ((=) CHR ''5''), Wordb],
     lit ''EIO'' @ [], lit ''fai'' @ lit ''led to read'', lit ''erro'' @ lit ''r reading'',
     lit ''zdb'' @ lit ('': can'' @ [CHR 0x27] @ ''t''),
     lit ''dmu'' @ lit ''_bonus_hold('' @ rep1 True py_digit @ lit '') failed'',
     lit ''dmu'' @ lit ''_object_info('' @ [Opt ((=) CHR '')'')] @ lit '' failed'']"
  by (simp add: ERROR_RE_def lit_def)

lemma error_prefix:
  assumes "a \<in> set ERROR_RE"
  shows "\<exists>w is. a = lit w @ is \<and> w \<in> set error_starts"
  using assms unfolding ERROR_RE_starts list.set
  by (elim insertE emptyE) (rule exI, rule exI, rule conjI, assumption, simp add: error_starts_def)+

lemma calm_no_error: "calm l \<Longrightarrow> \<not> error_line l"
proof
  assume calm: "calm l" and "error_line l"
  then obtain x y q a where a: "a \<in> set ERROR_RE" "l = x @ y" "rmatch a q y \<noteq> None"
    using rsearchD [of ERROR_RE None l] unfolding error_line_def by metis
  obtain w "is" where w: "a = lit w @ is" "w \<in> set error_starts" using error_prefix [OF a(1)] by metis
  have "prefix (map tolower w) (map tolower y)" using a(3) unfolding w(1) by (rule rmatch_lit_prefix)
  from strstr_infix [OF this, of "map tolower x"] show False
    using calm w(2) by (simp add: calm_def a(2) list_all_iff)
qed

definition entry_calm :: "string \<times> nat list \<Rightarrow> bool" where
  "entry_calm e \<longleftrightarrow> key_ok (fst e) \<and> snd e \<noteq> [] \<and> calm (kv_line (fst e) (value_text (snd e)))"

lemma entry_calm_fit: "list_all entry_calm kv \<Longrightarrow> list_all entry_fit kv"
  by (auto simp: list_all_iff entry_calm_def entry_fit_def calm_no_error)

lemma render_lines:
  assumes "type_fit t" "list_all (\<lambda>(k, ns). key_ok k \<and> ns \<noteq> []) kv"
  shows "splitlines (render n t kv bad) = preamble_lines @ [header_row n t] @
      (if bad then [error_row n] else map (\<lambda>(k, ns). kv_line k (value_text ns)) kv)"
  unfolding render_def
proof (rule splitlines_lines)
  have dec: "\<forall>c \<in> set (dec n). \<not> py_break c" using dec_py_digit digit_not_break by blast
  have "list_all (\<lambda>l. \<forall>c \<in> set l. \<not> py_break c) preamble_lines" by code_simp
  moreover have "\<forall>c \<in> set (header_row n t). \<not> py_break c"
    using assms(1) dec by (auto simp: header_row_def type_fit_def solid_def py_break_def)
  moreover have "\<forall>c \<in> set (error_row n). \<not> py_break c"
    using dec by (auto simp: error_row_def py_break_def)
  moreover have "\<forall>c \<in> set (kv_line k (value_text ns)). \<not> py_break c" if "(k, ns) \<in> set kv" for k ns
    using assms(2) that solid_value [of ns] by (fastforce simp: kv_line_def list_all_iff key_ok_def solid_def)
  ultimately show "list_all (\<lambda>l. \<forall>c \<in> set l. \<not> py_break c) (preamble_lines @ [header_row n t] @
      (if bad then [error_row n] else map (\<lambda>(k, ns). kv_line k (value_text ns)) kv))"
    by (auto simp: list_all_iff)
qed

lemma parse_render:
  assumes "type_fit t" "list_all (\<lambda>(k, ns). key_ok k \<and> ns \<noteq> []) kv"
  shows "parse_obj_dump (O_int (int n)) (render n t kv bad) =
    fst (foldl (parse_line (O_int (int n))) (missing\<lparr>od_exists := True, od_type := Some t\<rparr>, True)
      (if bad then [error_row n] else map (\<lambda>(k, ns). kv_line k (value_text ns)) kv))"
  using assms by (simp add: parse_obj_dump_def render_lines preamble_skipped parse_header_row)

lemma parse_error_row: "parse_line (O_int (int n)) (d, True) (error_row n) = (d\<lparr>od_unreadable := True\<rparr>, True)"
proof -
  have z: "\<not> py_space (CHR ''z'')" by (simp add: py_space_def)
  have "match_header (error_row n) = None" "match_bonus (error_row n) = None"
    by (simp_all add: match_header_def match_bonus_def OBJ_HEADER_RE_def BONUS_RE_def rep1_def error_row_def
        rmatch_simps z)
  moreover have "error_line (error_row n)"
    using error_word [of "''zdb: can'' @ [CHR 0x27] @ ''t''" "''zdb: can'' @ [CHR 0x27] @ ''t''" "[]"]
    by (simp add: error_row_def ERROR_RE_def)
  ultimately show ?thesis by (simp add: parse_line_def parse_rest_def)
qed

subsection \<open>Well-formed dumps\<close>

lemma dict_set_keys: "fst ` set (dict_set k v xs) = insert k (fst ` set xs)"
proof (induction xs)
  case (Cons x xs)
  then show ?case by (cases x; cases "fst x = k") auto
qed simp

lemma dict_set_distinct: "distinct (map fst xs) \<Longrightarrow> distinct (map fst (dict_set k v xs))"
proof (induction xs)
  case (Cons x xs)
  then show ?case using dict_set_keys [of k v xs] by (cases x) (auto simp del: set_map simp flip: set_map)
qed simp

definition wf_dump :: "obj_dump \<Rightarrow> bool" where
  "wf_dump d \<longleftrightarrow>
     (if od_exists d then od_type d \<noteq> None else d = missing) \<and>
     distinct (map fst (od_fields d)) \<and> distinct (map fst (od_zap d)) \<and> distinct (map fst (od_zap_multi d))"

lemma wf_missing [simp]: "wf_dump missing"
  by (simp add: wf_dump_def) (simp add: missing_def)

lemma parse_line_wf:
  assumes "wf_dump (fst st)" "snd st = od_exists (fst st)"
  shows "wf_dump (fst (parse_line ob st l)) \<and> snd (parse_line ob st l) = od_exists (fst (parse_line ob st l))"
proof -
  obtain d b where st: "st = (d, b)" by (cases st)
  have "missing\<lparr>od_unreadable := False\<rparr> = missing" by (simp add: missing_def)
  then show ?thesis
    using assms
    by (auto simp: st parse_line_def parse_rest_def store_kv_def Let_def wf_dump_def dict_set_distinct
        split: option.splits prod.splits if_splits)
qed

lemma parse_lines_wf:
  "wf_dump (fst st) \<Longrightarrow> snd st = od_exists (fst st) \<Longrightarrow> wf_dump (fst (foldl (parse_line ob) st ls))"
proof (induction ls arbitrary: st)
  case (Cons l ls)
  then show ?case using parse_line_wf [of st ob l] by simp
qed simp

lemma parse_no_number: "\<nexists>n. ob = O_int (int n) \<Longrightarrow> parse_obj_dump ob text = missing"
proof -
  assume ob: "\<nexists>n. ob = O_int (int n)"
  then have "foldl (parse_line ob) (missing, False) ls = (missing, False)" for ls
    by (induction ls) (auto simp: parse_line_def parse_rest_def missing_def split: option.splits)
  then show ?thesis by (simp add: parse_obj_dump_def)
qed

lemma parse_printed:
  assumes "type_fit t" "list_all entry_fit kv" "distinct (map fst kv)"
  shows "parse_obj_dump (O_int (int n)) (render n t kv bad) =
    (if bad then (meant t [])\<lparr>od_unreadable := True\<rparr> else meant t kv)"
proof -
  have "list_all (\<lambda>(k, ns). key_ok k \<and> ns \<noteq> []) kv"
    using assms(2) by (auto simp: list_all_iff entry_fit_def)
  note parse = parse_render [OF assms(1) this, of n bad]
  show ?thesis
  proof (cases bad)
    case True
    then show ?thesis unfolding parse by (simp add: parse_error_row meant_def missing_def)
  next
    case False
    then show ?thesis
      unfolding parse using parse_entries [OF assms(2,3), of "missing\<lparr>od_exists := True, od_type := Some t\<rparr>"]
      by (simp add: meant_def missing_def)
  qed
qed

subsection \<open>Properties\<close>

text \<open>
  What \<^verbatim>\<open>parse_obj_dump\<close> returns is well formed: a dump without a header for the object is
  the empty one, an existing object has a type, and no dictionary has a key twice. Asked for
  anything that is not a natural number it returns the empty dump.
\<close>

theorem parse_obj_dump_wf:
  "wf_dump (parse_obj_dump ob text) \<and>
   ((\<nexists>n. ob = O_int (int n)) \<longrightarrow> parse_obj_dump ob text = missing)"
  using parse_no_number parse_lines_wf [of "(missing, False)" ob "splitlines text"]
  by (simp add: parse_obj_dump_def)

theorem parse_obj_dump_wf_witness:
  "parse_obj_dump (O_text ''3 (error reading)'') (render 3 ''DSL props'' [] True) = missing"
  using parse_obj_dump_wf [of "O_text ''3 (error reading)''" "render 3 ''DSL props'' [] True"] by simp

text \<open>
  C23: what is taken as an entry. A line is split into name and value exactly when it is two tabs,
  a name without an equals sign and without blanks at its ends, blanks, the first equals sign,
  blanks, and a value without blanks at its ends: the backtracking of the pattern finds this
  division and no other.
\<close>

theorem match_kv_iff:
  assumes "NL \<notin> set l"
  shows "match_kv l = Some (k, v) \<longleftrightarrow>
    (\<exists>a b c. l = [TAB, TAB] @ k @ a @ CHR ''='' # b @ v @ c \<and>
      k \<noteq> [] \<and> trimmed k \<and> CHR ''='' \<notin> set k \<and> trimmed v \<and>
      a \<noteq> [] \<and> blanks a \<and> b \<noteq> [] \<and> blanks b \<and> blanks c)" (is "_ \<longleftrightarrow> ?divided k v")
proof
  have found: "match_kv l = Some (k, v)" if "?divided k v" for k v
  proof -
    from that obtain a b c where l: "l = [TAB, TAB] @ k @ a @ CHR ''='' # b @ v @ c"
      and parts: "k \<noteq> []" "trimmed k" "CHR ''='' \<notin> set k" "trimmed v" "a \<noteq> []" "blanks a" "b \<noteq> []"
        "blanks b" "blanks c" by blast
    have "NL \<notin> set v" using assms l by simp
    then show ?thesis
      using match_kv_parts [of k v c a b] match_kv_parts [of k "[]" "[]" a "b @ c"] parts
      by (cases "v = []") (auto simp: l trimmed_def blanks_def)
  qed
  then show "?divided k v \<Longrightarrow> match_kv l = Some (k, v)" .
  assume m: "match_kv l = Some (k, v)"
  then obtain k0 a b s where l: "l = [TAB, TAB] @ k0 @ a @ CHR ''='' # b @ s"
    and k0: "k0 \<noteq> []" "\<not> py_space (hd k0)" "CHR ''='' \<notin> set k0" "a \<noteq> []" "blanks a" "b \<noteq> []" "blanks b"
    using match_kv_decomposes [OF m] by blast
  obtain x k1 y where k1: "k0 = x @ k1 @ y" "blanks x" "trimmed k1" "blanks y" using trim_parts by blast
  have x: "x = []" using k0(2) k1(1,2) by (cases x) (auto simp: blanks_def)
  have "k1 \<noteq> []" using k0(1,2) k1 x by (cases y) (auto simp: blanks_def)
  moreover obtain b1 v1 c1 where v1: "s = b1 @ v1 @ c1" "blanks b1" "trimmed v1" "blanks c1" using trim_parts by blast
  moreover have "l = [TAB, TAB] @ k1 @ (y @ a) @ CHR ''='' # (b @ b1) @ v1 @ c1" by (simp add: l k1(1) x v1(1))
  moreover have "blanks (y @ a)" "blanks (b @ b1)" using k0 k1 v1 by (auto simp: blanks_def)
  ultimately have divided: "?divided k1 v1" using k0 k1 by (intro exI [of _ "y @ a"] exI [of _ "b @ b1"] exI [of _ c1]) auto
  with found [OF divided] m show "?divided k v" by simp
qed

theorem match_kv_iff_witness:
  "match_kv ([TAB, TAB] @ ''a b  = c = d '') = Some (''a b'', ''c = d'')"
proof (rule iffD2 [OF match_kv_iff])
  show "NL \<notin> set ([TAB, TAB] @ ''a b  = c = d '')" by code_simp
  have "trimmed ''a b''" "trimmed ''c = d''" "blanks ''  ''" "blanks '' ''" by code_simp+
  then show "\<exists>a b c. [TAB, TAB] @ ''a b  = c = d '' = [TAB, TAB] @ ''a b'' @ a @ CHR ''='' # b @ ''c = d'' @ c \<and>
      ''a b'' \<noteq> [] \<and> trimmed ''a b'' \<and> CHR ''='' \<notin> set ''a b'' \<and> trimmed ''c = d'' \<and>
      a \<noteq> [] \<and> blanks a \<and> b \<noteq> [] \<and> blanks b \<and> blanks c"
    by (intro exI [of _ "''  ''"] exI [of _ "'' ''"]) simp
qed



text \<open>
  C27: a name can make its table unreadable. The pattern for errors is tried on every line of an
  object, and it has \<^verbatim>\<open>EIO\<close> in any case and anywhere: a table with an entry whose name contains
  these letters, such as \<^verbatim>\<open>meiosis\<close>, is taken as unreadable although every line of it was printed.
\<close>

theorem error_word_in_name:
  assumes "type_fit t" "list_all (\<lambda>(k, ns). key_ok k \<and> ns \<noteq> []) kv"
    and "(k, ns) \<in> set kv" "map tolower k = a @ ''eio'' @ b"
  shows "od_unreadable (parse_obj_dump (O_int (int n)) (render n t kv False))"
proof -
  obtain x u where x: "k = x @ u" "map tolower u = ''eio'' @ b" "map tolower x = a" by (rule map_split [OF assms(4)])
  obtain y z where y: "u = y @ z" "map tolower z = b" "map tolower y = ''eio''" by (rule map_split [OF x(2)])
  have "map tolower ''EIO'' = ''eio''" by code_simp
  with x(1) y have k: "k = x @ y @ z" "map tolower y = map tolower ''EIO''" by simp_all
  have "error_line ([TAB, TAB] @ x @ y @ z @ '' = '' @ value_text ns @ '' '')"
    using error_word [of "''EIO''" y "[TAB, TAB] @ x" "z @ '' = '' @ value_text ns @ '' ''"] k(2)
    by (simp add: ERROR_RE_def)
  then have error: "error_line (kv_line k (value_text ns))" by (simp add: kv_line_def k(1))
  obtain us vs where kv: "kv = us @ (k, ns) # vs" using assms(3) by (meson split_list)
  obtain d where d: "foldl (parse_line (O_int (int n))) (missing\<lparr>od_exists := True, od_type := Some t\<rparr>, True)
      (map (\<lambda>(k, ns). kv_line k (value_text ns)) us) = (d, True)"
    using parse_entries_inside assms(2) kv by (metis list_all_append)
  have "key_ok k" "ns \<noteq> []" using assms(2) kv by auto
  then have "parse_line (O_int (int n)) (d, True) (kv_line k (value_text ns)) = (d\<lparr>od_unreadable := True\<rparr>, True)"
    using error by (simp add: parse_kv_line)
  then show ?thesis
    unfolding parse_render [OF assms(1,2)] by (simp add: kv d parse_lines_unreadable)
qed

theorem error_word_in_name_witness:
  "od_unreadable (parse_obj_dump (O_int (int 34))
     (render 34 ''DSL directory child map'' [(''data'', [1792]), (''Meiosis'', [670])] False))"
proof (rule error_word_in_name)
  show "type_fit ''DSL directory child map''" by code_simp
  show "list_all (\<lambda>(k, ns). key_ok k \<and> ns \<noteq> []) [(''data'', [1792]), (''Meiosis'', [670])]" by code_simp
  show "(''Meiosis'', [670]) \<in> set [(''data'', [1792]), (''Meiosis'', [670])]" by simp
  show "map tolower ''Meiosis'' = ''m'' @ ''eio'' @ ''sis''" by code_simp
qed

end
