(* ===== verification/ScanWalk.thy ===== *)
theory ScanWalk
  imports Scanner
begin

text \<open>
  What the findings of a scan mean. The walk returns when its recursion may go as deep as there
  are directories, and does not depend on the bound then. A scan whose findings are all \<open>INFO\<close>
  is a scan of a consistent MOS, where consistency is a property of the dumps alone: every
  directory that the child maps reach from the root is in order.
\<close>

subsection \<open>Consistency\<close>

definition errlog_ok :: "src \<Rightarrow> nat \<Rightarrow> bool" where
  "errlog_ok s h \<longleftrightarrow>
     h = 0 \<or> od_exists (s h) \<and> type_has ''error log'' (s h) \<and>
       (\<forall>(key, per_obj) \<in> set (od_zap (s h)).
          case py_int16 key of None \<Rightarrow> True | Some objset \<Rightarrow> readable (get_int s objset))"

definition scan_ok :: "src \<Rightarrow> obj_dump \<Rightarrow> bool" where
  "scan_ok s mos \<longleftrightarrow>
     (case scan_entry mos of
        None \<Rightarrow> True
      | Some ws \<Rightarrow> word_at ws 1 = DSS_SCANNING \<longrightarrow> word_at ws 2 \<noteq> 0 \<longrightarrow> readable (s (word_at ws 2)))"

definition clones_ok :: "src \<Rightarrow> ref \<Rightarrow> bool" where
  "clones_ok s z \<longleftrightarrow> readable (get s z) \<and> (\<forall>(key, c) \<in> set (od_zap (get s z)). clone_ok s c)"

definition dataset_ok :: "src \<Rightarrow> ref \<Rightarrow> bool" where
  "dataset_ok s ob \<longleftrightarrow>
     (let ds = get s ob; there = (\<lambda>f. truthy (field ds f) \<longrightarrow> od_exists (get s (field ds f))) in
      readable ds \<and> type_has ''DSL dataset'' ds \<and>
      (truthy (field ds ''next_clones_obj'') \<longrightarrow> clones_ok s (field ds ''next_clones_obj'')) \<and>
      there ''prev_snap_obj'' \<and> there ''deadlist_obj'' \<and> there ''snapnames_zapobj'')"

definition entry_ok :: "src \<Rightarrow> string \<times> nat \<Rightarrow> bool" where
  "entry_ok s e \<longleftrightarrow> fst e \<in> set special_names \<or>
     od_exists (s (snd e)) \<and> type_has ''DSL directory'' (s (snd e))"

definition dsl_dirs :: "src \<Rightarrow> nat set" where
  "dsl_dirs s = {n. readable (s n) \<and> type_has ''DSL directory'' (s n)}"

definition child_entries :: "src \<Rightarrow> nat \<Rightarrow> (string \<times> nat) set" where
  "child_entries s n =
     (let z = field (s n) ''child_dir_zapobj'' in if truthy z then set (od_zap (get s z)) else {})"

definition dir_ok :: "src \<Rightarrow> nat \<Rightarrow> bool" where
  "dir_ok s n \<longleftrightarrow>
     (let d = s n; z = field d ''child_dir_zapobj'' in
      n \<in> dsl_dirs s \<and>
      (truthy (field d ''head_dataset_obj'') \<longrightarrow> dataset_ok s (field d ''head_dataset_obj'')) \<and>
      (truthy z \<longrightarrow> readable (get s z) \<and> (\<forall>e \<in> set (od_zap (get s z)). entry_ok s e)) \<and>
      (truthy (field d ''clones'') \<longrightarrow> clones_ok s (field d ''clones'')))"

text \<open>The directories the child maps reach.\<close>

definition children :: "src \<Rightarrow> nat \<Rightarrow> nat set" where
  "children s n = {c. \<exists>name. (name, c) \<in> child_entries s n \<and> name \<notin> set special_names}"

inductive in_tree :: "src \<Rightarrow> nat \<Rightarrow> nat \<Rightarrow> bool" for s where
  in_tree_root: "in_tree s n n"
| in_tree_child: "c \<in> children s n \<Longrightarrow> in_tree s c m \<Longrightarrow> in_tree s n m"

definition consistent :: "src \<Rightarrow> bool" where
  "consistent s \<longleftrightarrow>
     (let mos = s MOS_DIR_OBJ; root = zap_get mos ''root_dataset'' in
      readable mos \<and> errlog_ok s (zap_get mos ''errlog_last'') \<and>
      errlog_ok s (zap_get mos ''errlog_scrub'') \<and> scan_ok s mos \<and> root \<noteq> 0 \<and>
      (\<forall>n. in_tree s root n \<longrightarrow> dir_ok s n))"

definition clean :: "scanner \<Rightarrow> bool" where
  "clean st \<longleftrightarrow> list_all (\<lambda>f. f_severity f = INFO) (findings st)"

subsection \<open>What each check adds to the findings\<close>

lemma clean_simps [simp]:
  "clean scanner_init"
  "clean (add sev ob m st) \<longleftrightarrow> clean st \<and> sev = INFO"
  "clean (plan p c st) \<longleftrightarrow> clean st"
  "clean (st\<lparr>visited_dirs := V\<rparr>) \<longleftrightarrow> clean st"
  "clean (st\<lparr>num_children_fix := N\<rparr>) \<longleftrightarrow> clean st"
  by (auto simp: clean_def add_def plan_def scanner_init_def)

lemma visited_simps [simp]:
  "visited_dirs scanner_init = {}"
  "visited_dirs (add sev ob m st) = visited_dirs st"
  "visited_dirs (plan p c st) = visited_dirs st"
  by (simp_all add: add_def plan_def scanner_init_def)

lemma reported_not_clean: "reported st \<Longrightarrow> \<not> clean st"
  by (force simp: reported_def clean_def list_all_iff)

interpretation any: scan_invariant s "\<lambda>_. True" for s
  by unfold_locales simp_all

lemma stale_entries_Nil:
  "stale_entries s d = [] \<longleftrightarrow>
     (\<forall>(key, per_obj) \<in> set (od_zap d).
        case py_int16 key of None \<Rightarrow> True | Some objset \<Rightarrow> readable (get_int s objset))"
  by (auto simp: stale_entries_def Let_def split: option.splits if_splits prod.splits)

lemma clean_check_errlog_head:
  "clean (check_errlog_head s name h st) \<longleftrightarrow> clean st \<and> errlog_ok s h"
proof -
  have "\<not> clean (fold (free_per_objset s) stale (plan p2 c2 (plan p1 c1
      (fold (\<lambda>(key, objset, per_obj, ex). add CRITICAL ob (M_errlog_stale name key objset ex)) stale st))))"
    if "stale \<noteq> []" for stale ob p1 p2 c1 c2
    using any.stale_report_inv [OF _ that] any.free_per_objset_inv
    by (intro reported_not_clean any.fold_inv [THEN conjunct2]) simp_all
  then show ?thesis
    by (simp add: check_errlog_head_def errlog_ok_def Let_def stale_entries_Nil [symmetric])
qed

lemma clean_check_scan: "clean (check_scan s mos st) \<longleftrightarrow> clean st \<and> scan_ok s mos"
  by (simp add: check_scan_def scan_ok_def Let_def split: option.split)

lemma clean_clones_loop:
  "clean (snd (clones_loop s z path es n st)) \<longleftrightarrow> clean st \<and> (\<forall>(key, c) \<in> set es. clone_ok s c)"
  by (induction es arbitrary: n st) (auto simp: Let_def split: if_splits)

lemma clean_check_clones_zap: "clean (snd (check_clones_zap s z path st)) \<longleftrightarrow> clean st \<and> clones_ok s z"
  by (simp add: check_clones_zap_def clones_ok_def Let_def clean_clones_loop)

lemma clean_check_next_clones:
  "clean (check_next_clones s ob path ds st) \<longleftrightarrow>
     clean st \<and> (truthy (field ds ''next_clones_obj'') \<longrightarrow> clones_ok s (field ds ''next_clones_obj''))"
  using clean_check_clones_zap [of s "field ds ''next_clones_obj''" "path @ '' next_clones''" st]
  by (auto simp: check_next_clones_def Let_def split: prod.split option.split ref.split)

lemma clean_check_dataset: "clean (check_dataset s ob path dir st) \<longleftrightarrow> clean st \<and> dataset_ok s ob"
proof (cases "readable (get s ob)")
  case True
  then show ?thesis
    by (auto simp: check_dataset_def dataset_ok_def Let_def readable_def check_ref_def check_prev_def
        clean_check_next_clones)
next
  case False
  have "\<not> clean (plan_orphan_removal s ob dir path (add CRITICAL ob m st))" for m
    by (rule reported_not_clean [OF any.plan_orphan_removal_inv [THEN conjunct2]]) simp
  with False show ?thesis
    by (auto simp: check_dataset_def dataset_ok_def Let_def readable_def)
qed

lemma clean_check_errlog:
  "clean (check_errlog s mos st) \<longleftrightarrow>
     clean st \<and> errlog_ok s (zap_get mos ''errlog_last'') \<and> errlog_ok s (zap_get mos ''errlog_scrub'')"
  by (auto simp: check_errlog_def clean_check_errlog_head)

lemma clean_check_head:
  "clean (check_head s d n path st) \<longleftrightarrow>
     clean st \<and> (truthy (field d ''head_dataset_obj'') \<longrightarrow> dataset_ok s (field d ''head_dataset_obj''))"
  by (simp add: check_head_def Let_def clean_check_dataset)

lemma clean_check_dd_clones:
  "clean (check_dd_clones s d path st) \<longleftrightarrow>
     clean st \<and> (truthy (field d ''clones'') \<longrightarrow> clones_ok s (field d ''clones''))"
  by (simp add: check_dd_clones_def Let_def clean_check_clones_zap)

subsection \<open>The walk explores what it has not seen\<close>

text \<open>
  From \<open>st\<close> to \<open>st'\<close> the walk has seen only directories of \<open>R\<close>, has reported a defect exactly if
  \<open>K\<close> is false or a new directory is not in order, and has seen the children of every new
  directory that is in order.
\<close>

definition explored :: "src \<Rightarrow> bool \<Rightarrow> nat set \<Rightarrow> scanner \<Rightarrow> scanner \<Rightarrow> bool" where
  "explored s K R st st' \<longleftrightarrow>
     visited_dirs st \<subseteq> visited_dirs st' \<and> visited_dirs st' - visited_dirs st \<subseteq> R \<and>
     (clean st' \<longleftrightarrow> clean st \<and> K \<and> (\<forall>m \<in> visited_dirs st' - visited_dirs st. dir_ok s m)) \<and>
     (\<forall>m \<in> visited_dirs st' - visited_dirs st. dir_ok s m \<longrightarrow> children s m \<subseteq> visited_dirs st')"

definition explores :: "src \<Rightarrow> (nat \<Rightarrow> string \<Rightarrow> scanner \<Rightarrow> scanner option) \<Rightarrow> bool" where
  "explores s w \<longleftrightarrow> (\<forall>n path st st'. w n path st = Some st' \<longrightarrow>
     explored s True (Collect (in_tree s n)) st st' \<and> n \<in> visited_dirs st')"

lemma exploresD:
  "explores s w \<Longrightarrow> w n path st = Some st' \<Longrightarrow>
     explored s True (Collect (in_tree s n)) st st' \<and> n \<in> visited_dirs st'"
  unfolding explores_def by blast

lemma explored_check:
  "visited_dirs st' = visited_dirs st \<Longrightarrow> (clean st' \<longleftrightarrow> clean st \<and> K) \<Longrightarrow> explored s K R st st'"
  by (simp add: explored_def)

lemma explored_trans:
  "explored s K R st st1 \<Longrightarrow> explored s K' R st1 st2 \<Longrightarrow> explored s (K \<and> K') R st st2"
proof -
  assume a: "explored s K R st st1" "explored s K' R st1 st2"
  let ?D1 = "visited_dirs st1 - visited_dirs st" and ?D2 = "visited_dirs st2 - visited_dirs st1"
  have new: "visited_dirs st2 - visited_dirs st = ?D1 \<union> ?D2" using a by (auto simp: explored_def)
  have mono: "visited_dirs st \<subseteq> visited_dirs st1" "visited_dirs st1 \<subseteq> visited_dirs st2"
    using a by (simp_all add: explored_def)
  have "\<forall>m \<in> ?D1 \<union> ?D2. dir_ok s m \<longrightarrow> children s m \<subseteq> visited_dirs st2"
    using a mono(2) unfolding explored_def by blast
  moreover have "clean st2 \<longleftrightarrow> clean st \<and> (K \<and> K') \<and> (\<forall>m \<in> ?D1 \<union> ?D2. dir_ok s m)"
    using a unfolding explored_def ball_Un by satx
  moreover have "?D1 \<union> ?D2 \<subseteq> R" using a unfolding explored_def by simp
  ultimately show ?thesis using mono unfolding explored_def new by simp
qed

lemma explored_mono: "explored s K R st st' \<Longrightarrow> R \<subseteq> R' \<Longrightarrow> explored s K R' st st'"
  by (auto simp: explored_def)

lemma childmap_entry_skipped:
  assumes "\<not> (entry_ok s e \<and> fst e \<notin> set special_names)"
  shows "\<exists>st1. visited_dirs st1 = visited_dirs st \<and> (clean st1 \<longleftrightarrow> clean st \<and> entry_ok s e) \<and>
    childmap_loop w s z path (e # es) st = childmap_loop w s z path es st1"
proof -
  obtain name child where e: "e = (name, child)" by (cases e)
  consider "name \<in> set special_names" | "name \<notin> set special_names" "\<not> od_exists (s child)"
    | "name \<notin> set special_names" "od_exists (s child)" "\<not> type_has ''DSL directory'' (s child)"
    using assms by (auto simp: e entry_ok_def)
  then show ?thesis
  proof cases
    case 1
    then show ?thesis by (intro exI [of _ st]) (simp add: e entry_ok_def)
  next
    case 2
    then show ?thesis
      by (intro exI [of _ "plan (P_zap_remove (ref_nat z) name child) _ (add CRITICAL z (M_child_dangling name child path) st)"])
        (simp add: e entry_ok_def Let_def)
  next
    case 3
    then show ?thesis
      by (intro exI [of _ "plan (P_zap_remove (ref_nat z) name child) _ (add CRITICAL z (M_child_recycled name child path _) st)"])
        (simp add: e entry_ok_def Let_def)
  qed
qed

lemma childmap_loop_explored:
  assumes "explores s w"
  shows "childmap_loop w s z path es st = Some st' \<Longrightarrow>
     explored s (\<forall>e \<in> set es. entry_ok s e) {m. \<exists>e \<in> set es. fst e \<notin> set special_names \<and> in_tree s (snd e) m} st st' \<and>
     ((\<forall>e \<in> set es. entry_ok s e) \<longrightarrow> {c. \<exists>name. (name, c) \<in> set es \<and> name \<notin> set special_names} \<subseteq> visited_dirs st')"
proof (induction es arbitrary: st)
  case Nil
  then show ?case by (simp add: explored_check)
next
  case (Cons e es)
  let ?R = "{m. \<exists>e' \<in> set (e # es). fst e' \<notin> set special_names \<and> in_tree s (snd e') m}"
  obtain name child where e: "e = (name, child)" by (cases e)
  obtain st1 where first: "explored s (entry_ok s e) ?R st st1"
      "name \<notin> set special_names \<Longrightarrow> entry_ok s e \<Longrightarrow> child \<in> visited_dirs st1"
    and rest: "childmap_loop w s z path es st1 = Some st'"
  proof (cases "entry_ok s e \<and> name \<notin> set special_names")
    case True
    then obtain st1 where w: "w child (path @ ''/'' @ name) st = Some st1"
      and "childmap_loop w s z path es st1 = Some st'"
      using Cons.prems by (auto simp: e entry_ok_def Let_def split: bind_splits)
    moreover have "explored s (entry_ok s e) ?R st st1"
      using explored_mono [OF conjunct1 [OF exploresD [OF assms w]], of ?R] True by (auto simp: e)
    ultimately show ?thesis
      using that exploresD [OF assms w] by blast
  next
    case False
    with e have skip: "\<not> (entry_ok s e \<and> fst e \<notin> set special_names)" by simp
    obtain st1 where st1: "visited_dirs st1 = visited_dirs st" "clean st1 \<longleftrightarrow> clean st \<and> entry_ok s e"
      "childmap_loop w s z path (e # es) st = childmap_loop w s z path es st1"
      using childmap_entry_skipped [OF skip, of st w z path es] by blast
    show ?thesis
      by (rule that [of st1]) (use False Cons.prems st1 in \<open>simp_all add: explored_check\<close>)
  qed
  have IH: "explored s (\<forall>e \<in> set es. entry_ok s e) ?R st1 st'"
    "(\<forall>e \<in> set es. entry_ok s e) \<longrightarrow> {c. \<exists>name. (name, c) \<in> set es \<and> name \<notin> set special_names} \<subseteq> visited_dirs st'"
    using Cons.IH [OF rest] by (auto elim!: explored_mono)
  have "explored s (\<forall>e \<in> set (e # es). entry_ok s e) ?R st st'"
    using explored_trans [OF first(1) IH(1)] by simp
  moreover have "visited_dirs st1 \<subseteq> visited_dirs st'" using IH(1) by (simp add: explored_def)
  ultimately show ?case
    using first(2) IH(2) by (auto simp: e)
qed

lemma check_children_explored:
  assumes "explores s w"
    and "check_children w s (s n) path st = Some st'"
  defines "z \<equiv> field (s n) ''child_dir_zapobj''"
  defines "K \<equiv> truthy z \<longrightarrow> readable (get s z) \<and> (\<forall>e \<in> set (od_zap (get s z)). entry_ok s e)"
  shows "explored s K (Collect (in_tree s n)) st st' \<and> (K \<longrightarrow> children s n \<subseteq> visited_dirs st')"
proof (cases "truthy z \<and> readable (get s z)")
  case True
  let ?es = "od_zap (get s z)"
  have "childmap_loop w s z path (sort ?es) st = Some st'"
    using assms(2) True by (simp add: check_children_def check_childmap_def Let_def z_def [symmetric])
  note loop = childmap_loop_explored [OF assms(1) this]
  have K: "K \<longleftrightarrow> (\<forall>e \<in> set ?es. entry_ok s e)" using True by (simp add: K_def)
  have c: "children s n = {c. \<exists>name. (name, c) \<in> set ?es \<and> name \<notin> set special_names}"
    using True by (simp add: children_def child_entries_def z_def [symmetric])
  have R: "{m. \<exists>e \<in> set (sort ?es). fst e \<notin> set special_names \<and> in_tree s (snd e) m} \<subseteq> Collect (in_tree s n)"
    using c by (fastforce intro: in_tree_child)
  show ?thesis
    unfolding K c using loop explored_mono [OF conjunct1 [OF loop] R] by simp
next
  case False
  then have "visited_dirs st' = visited_dirs st" "clean st' \<longleftrightarrow> clean st \<and> K"
    using assms(2) by (auto simp: check_children_def check_childmap_def Let_def z_def [symmetric] K_def split: if_splits)
  moreover have "K \<Longrightarrow> children s n = {}"
    using False by (simp add: K_def children_def child_entries_def z_def [symmetric])
  ultimately show ?thesis by (simp add: explored_check)
qed

lemma visited_check_head [simp]: "visited_dirs (check_head s d n path st) = visited_dirs st"
  by (rule seen.check_head_inv) simp

lemma visited_check_dd_clones [simp]: "visited_dirs (check_dd_clones s (s n) path st) = visited_dirs st"
  by (rule seen.check_dd_clones_inv) simp

lemma walk_explores: "explores s (walk_dsl_dir depth s)"
proof (induction depth)
  case 0
  show ?case by (simp add: explores_def)
next
  case (Suc depth)
  show ?case unfolding explores_def
  proof (intro allI impI)
    fix n path st st' assume walk: "walk_dsl_dir (Suc depth) s n path st = Some st'"
    let ?st = "st\<lparr>visited_dirs := insert n (visited_dirs st)\<rparr>"
    let ?z = "field (s n) ''child_dir_zapobj''"
    let ?K = "truthy ?z \<longrightarrow> readable (get s ?z) \<and> (\<forall>e \<in> set (od_zap (get s ?z)). entry_ok s e)"
    show "explored s True (Collect (in_tree s n)) st st' \<and> n \<in> visited_dirs st'"
    proof (cases "n \<in> visited_dirs st \<or> n \<notin> dsl_dirs s")
      case True
      then show ?thesis
        using walk by (auto simp: Let_def explored_def dsl_dirs_def dir_ok_def in_tree_root split: if_splits)
    next
      case False
      then obtain st1 where
        st1: "check_children (walk_dsl_dir depth s) s (s n) path (check_head s (s n) n path ?st) = Some st1"
        and st': "st' = check_dd_clones s (s n) path st1"
        using walk by (auto simp: dsl_dirs_def Let_def)
      have ch: "explored s ?K (Collect (in_tree s n)) (check_head s (s n) n path ?st) st1"
        "?K \<longrightarrow> children s n \<subseteq> visited_dirs st1"
        using check_children_explored [OF Suc st1] by simp_all
      have v: "visited_dirs st1 - visited_dirs st = insert n (visited_dirs st1 - insert n (visited_dirs st))"
        using ch(1) False by (auto simp: explored_def)
      have ok: "dir_ok s n \<longleftrightarrow> ?K \<and>
          (truthy (field (s n) ''head_dataset_obj'') \<longrightarrow> dataset_ok s (field (s n) ''head_dataset_obj'')) \<and>
          (truthy (field (s n) ''clones'') \<longrightarrow> clones_ok s (field (s n) ''clones''))"
        using False by (auto simp: dir_ok_def Let_def)
      show ?thesis
        using ch unfolding explored_def st' visited_check_dd_clones v
        by (simp add: clean_check_dd_clones clean_check_head ok in_tree_root) blast
    qed
  qed
qed

lemma in_tree_closed:
  "in_tree s n m \<Longrightarrow> n \<in> V \<Longrightarrow> (\<And>x. x \<in> V \<Longrightarrow> children s x \<subseteq> V) \<Longrightarrow> m \<in> V"
  by (induction rule: in_tree.induct) auto

lemma walk_clean_iff:
  assumes "walk_dsl_dir depth s root path st = Some st'" "visited_dirs st = {}"
  shows "clean st' \<longleftrightarrow> clean st \<and> (\<forall>n. in_tree s root n \<longrightarrow> dir_ok s n)"
proof -
  have ex: "explored s True (Collect (in_tree s root)) st st'" "root \<in> visited_dirs st'"
    using exploresD [OF walk_explores assms(1)] by simp_all
  have tree: "visited_dirs st' \<subseteq> Collect (in_tree s root)"
    and clean: "clean st' \<longleftrightarrow> clean st \<and> (\<forall>m \<in> visited_dirs st'. dir_ok s m)"
    and closed: "\<And>m. m \<in> visited_dirs st' \<Longrightarrow> dir_ok s m \<Longrightarrow> children s m \<subseteq> visited_dirs st'"
    using ex(1) assms(2) by (simp_all add: explored_def)
  have "dir_ok s n" if "\<forall>m \<in> visited_dirs st'. dir_ok s m" "in_tree s root n" for n
    using in_tree_closed [OF that(2) ex(2)] closed that(1) by blast
  with clean tree show ?thesis by blast
qed

lemma visited_before_walk:
  "readable (s MOS_DIR_OBJ) \<Longrightarrow> visited_dirs (check_scan s (s MOS_DIR_OBJ) (check_errlog s (s MOS_DIR_OBJ) st)) = visited_dirs st"
  by (intro seen.check_scan_inv seen.check_errlog_inv) simp_all

subsection \<open>The walk returns\<close>

definition finite_walk :: "src \<Rightarrow> (nat \<Rightarrow> string \<Rightarrow> scanner \<Rightarrow> scanner option) \<Rightarrow> nat \<Rightarrow> bool" where
  "finite_walk s w k \<longleftrightarrow>
     (\<forall>n path st. card (dsl_dirs s - visited_dirs st) < k \<longrightarrow>
        (\<exists>st'. w n path st = Some st' \<and> visited_dirs st \<subseteq> visited_dirs st'))"

lemma finite_walkD:
  assumes "finite_walk s w k" "card (dsl_dirs s - visited_dirs st) < k"
  obtains st' where "w n path st = Some st'" "visited_dirs st \<subseteq> visited_dirs st'"
  using assms unfolding finite_walk_def by blast

lemma childmap_loop_total:
  assumes "finite (dsl_dirs s)" "finite_walk s w k"
  shows "card (dsl_dirs s - visited_dirs st) < k \<Longrightarrow>
    \<exists>st'. childmap_loop w s z path es st = Some st' \<and> visited_dirs st \<subseteq> visited_dirs st'"
proof (induction es arbitrary: st)
  case (Cons e es)
  obtain name child where e: "e = (name, child)" by (cases e)
  show ?case
  proof (cases "entry_ok s e \<and> fst e \<notin> set special_names")
    case True
    obtain st1 where st1: "w child (path @ ''/'' @ name) st = Some st1" "visited_dirs st \<subseteq> visited_dirs st1"
      using finite_walkD [OF assms(2) Cons.prems] .
    have "card (dsl_dirs s - visited_dirs st1) < k"
      using card_mono [of "dsl_dirs s - visited_dirs st" "dsl_dirs s - visited_dirs st1"]
        assms(1) st1(2) Cons.prems by fastforce
    from Cons.IH [OF this] show ?thesis
      using True st1 by (auto simp: e entry_ok_def Let_def)
  next
    case False
    from childmap_entry_skipped [OF this, of st w z path es] show ?thesis
      using Cons by (metis (no_types, lifting))
  qed
qed simp

lemma walk_total:
  assumes "finite (dsl_dirs s)"
  shows "finite_walk s (walk_dsl_dir depth s) depth"
proof (induction depth)
  case (Suc depth)
  show ?case unfolding finite_walk_def
  proof (intro allI impI)
    fix n path and st :: scanner assume few: "card (dsl_dirs s - visited_dirs st) < Suc depth"
    show "\<exists>st'. walk_dsl_dir (Suc depth) s n path st = Some st' \<and> visited_dirs st \<subseteq> visited_dirs st'"
    proof (cases "n \<in> visited_dirs st \<or> n \<notin> dsl_dirs s")
      case True
      then show ?thesis by (auto simp: dsl_dirs_def Let_def)
    next
      case False
      let ?st = "check_head s (s n) n path (st\<lparr>visited_dirs := insert n (visited_dirs st)\<rparr>)"
      have "dsl_dirs s - visited_dirs ?st \<subset> dsl_dirs s - visited_dirs st" using False by auto
      then have "card (dsl_dirs s - visited_dirs ?st) < depth"
        using psubset_card_mono [of "dsl_dirs s - visited_dirs st"] assms few by fastforce
      note loop = childmap_loop_total [OF assms Suc this]
      have "\<exists>st'. check_children (walk_dsl_dir depth s) s (s n) path ?st = Some st' \<and> visited_dirs ?st \<subseteq> visited_dirs st'"
      proof (cases "truthy (field (s n) ''child_dir_zapobj'') \<and> readable (get s (field (s n) ''child_dir_zapobj''))")
        case True
        then show ?thesis
          unfolding check_children_def check_childmap_def Let_def using loop by presburger
      qed (auto simp: check_children_def check_childmap_def Let_def)
      with False show ?thesis by (auto simp: dsl_dirs_def Let_def)
    qed
  qed
qed (simp add: finite_walk_def)

text \<open>A walk that returns does the same under every larger bound.\<close>

lemma childmap_loop_deeper:
  assumes "\<And>n p st st'. w n p st = Some st' \<Longrightarrow> w' n p st = Some st'"
  shows "childmap_loop w s z path es st = Some st' \<Longrightarrow> childmap_loop w' s z path es st = Some st'"
  by (induction es arbitrary: st) (auto simp: Let_def assms split: if_splits bind_splits)

lemma walk_deeper:
  "walk_dsl_dir depth s n path st = Some st' \<Longrightarrow> walk_dsl_dir (Suc depth) s n path st = Some st'"
proof (induction depth arbitrary: n path st st')
  case (Suc depth)
  have "check_children (walk_dsl_dir depth s) s (s n) path st0 = Some st1 \<Longrightarrow>
      check_children (walk_dsl_dir (Suc depth) s) s (s n) path st0 = Some st1" for st0 st1
    using childmap_loop_deeper [of "walk_dsl_dir depth s" "walk_dsl_dir (Suc depth) s", OF Suc.IH]
    by (simp add: check_children_def check_childmap_def Let_def del: walk_dsl_dir.simps split: if_splits)
  then show ?case
    using Suc.prems unfolding walk_dsl_dir.simps(2) [of depth] walk_dsl_dir.simps(2) [of "Suc depth"]
    by (auto simp: Let_def simp del: walk_dsl_dir.simps split: if_splits)
qed simp

lemma walk_deeper_le:
  "depth \<le> depth' \<Longrightarrow> walk_dsl_dir depth s n path st = Some st' \<Longrightarrow> walk_dsl_dir depth' s n path st = Some st'"
  by (induction rule: dec_induct) (auto intro: walk_deeper simp del: walk_dsl_dir.simps)

lemma run_clean_iff:
  assumes "run depth s = Some st"
  shows "clean st \<longleftrightarrow> consistent s"
proof -
  let ?st = "check_scan s (s MOS_DIR_OBJ) (check_errlog s (s MOS_DIR_OBJ) scanner_init)"
  note before = clean_check_scan clean_check_errlog
  show ?thesis
    using assms walk_clean_iff [of depth s "zap_get (s MOS_DIR_OBJ) ''root_dataset''" "''<root>''" ?st st]
    by (auto simp: run_def consistent_def Let_def before visited_before_walk split: if_splits)
qed

subsection \<open>Properties\<close>

text \<open>
  C15: the scan returns. When the recursion may go deeper than there are readable DSL directories,
  \<^verbatim>\<open>run\<close> returns, whatever the references look like (cycles of child maps included), and its
  findings and operations do not depend on how much deeper it might have gone.
\<close>

theorem scan_terminates:
  assumes "finite (dsl_dirs s)" "card (dsl_dirs s) < depth"
  shows "\<exists>st. \<forall>depth' \<ge> depth. run depth' s = Some st"
proof (cases "readable (s MOS_DIR_OBJ)")
  case True
  let ?st = "check_scan s (s MOS_DIR_OBJ) (check_errlog s (s MOS_DIR_OBJ) scanner_init)"
  have few: "card (dsl_dirs s - visited_dirs ?st) < depth"
    using assms(2) True by (simp add: visited_before_walk)
  obtain st' where "walk_dsl_dir depth s (zap_get (s MOS_DIR_OBJ) ''root_dataset'') ''<root>'' ?st = Some st'"
    by (rule finite_walkD [OF walk_total [OF assms(1)] few])
  then have "walk_dsl_dir depth' s (zap_get (s MOS_DIR_OBJ) ''root_dataset'') ''<root>'' ?st = Some st'"
    if "depth \<le> depth'" for depth'
    using that by (rule walk_deeper_le [rotated])
  with True show ?thesis
    by (cases "zap_get (s MOS_DIR_OBJ) ''root_dataset'' = 0") (auto simp: run_def Let_def)
qed (simp add: run_def Let_def)


text \<open>
  The scanner plans nothing on a consistent MOS: no operation without a critical finding,
  so a clean scan has an empty plan.
\<close>

theorem consistent_no_plan:
  assumes "run depth s = Some st" "consistent s"
  shows "dedupe_ops (ops st) = []"
proof -
  have "clean st" using run_clean_iff assms by blast
  then have "ops st = []"
    using rep.run_inv [OF _ assms(1)] reported_not_clean by (auto simp: scanner_init_def)
  then show ?thesis by (simp add: dedupe_ops_def)
qed

end
