(* ===== verification/ScanPlan.thy ===== *)
theory ScanPlan
  imports ScanWalk MosStore "HOL-Library.Code_Target_Nat"
begin

text \<open>
  The scanner's plan and the surgeon's checks. The locale \<open>dumps_describe\<close> says what it means that
  dumps show the MOS the surgeon will open; under it every planned operation passes the check,
  except one on an object the scanner could not read. The fixtures of
  \<^verbatim>\<open>src/tests/fixtures.py\<close> and a few more sources are scanned by evaluation.
\<close>

subsection \<open>Dumps of a MOS\<close>

text \<open>An operation on an object whose dump ended in an I/O error.\<close>

fun on_unreadable :: "src \<Rightarrow> planned \<Rightarrow> bool" where
  "on_unreadable s (P_zap_remove ob k v) \<longleftrightarrow> \<not> readable (s ob)"
| "on_unreadable s (P_free ob ty) \<longleftrightarrow> \<not> readable (s ob)"
| "on_unreadable s p \<longleftrightarrow> False"

text \<open>
  \<^verbatim>\<open>zdb\<close> is not part of the repository. The scanner relies on its dumps: an entry shown in a
  readable table is what a lookup finds, a child count shown is the one in the bonus buffer, a
  type shown is the type of the object, and the scan cursor has at most the number of words the
  scanner zeroes.
\<close>

locale dumps_describe =
  fixes Z :: "'m mos_ops" and mos :: 'm and s :: src
  assumes shown_entry:
      "readable (s ob) \<Longrightarrow> ob = MOS_DIR_OBJ \<or> table s (R_int ob) \<Longrightarrow> (k, v) \<in> set (od_zap (s ob)) \<Longrightarrow>
         zap_lookup Z mos (of_nat ob) k 1 = (0, [of_nat v])"
    and shown_scan:
      "readable (s MOS_DIR_OBJ) \<Longrightarrow> (''scan'', ws) \<in> set (od_zap_multi (s MOS_DIR_OBJ)) \<Longrightarrow>
         fst (zap_lookup Z mos (of_nat MOS_DIR_OBJ) ''scan'' SCAN_WORDS) = 0"
    and shown_count:
      "readable (s ob) \<Longrightarrow> (''num_children'', R_int n) \<in> set (od_fields (s ob)) \<Longrightarrow>
         dmu_bonus_hold Z mos (of_nat ob) = (0, of_nat n)"
    and shown_type:
      "readable (s ob) \<Longrightarrow> od_type (s ob) = Some ty \<Longrightarrow>
         \<exists>t. dmu_object_info Z mos (of_nat ob) = (0, t) \<and> type_name_matches Z t ty"
begin

lemma shown_entry_now:
  assumes "readable (s ob)" "ob = MOS_DIR_OBJ \<or> table s (R_int ob)" "(op_key op, v) \<in> set (od_zap (s ob))"
    and "op_obj op = of_nat ob" "op_expect op = of_nat v"
  shows "entry_now Z mos op"
  unfolding entry_now_def using shown_entry [OF assms(1-3)] assms(4,5)
  by (intro exI [of _ "[of_nat v]"]) (simp add: buf_word_def)

lemma observed_op_ok:
  "observed s p \<Longrightarrow> \<not> on_unreadable s p \<Longrightarrow> op_ok Z mos (intended p)"
  by (cases p)
    (auto simp: op_ok_iff op_zero_def shown_count intro: shown_entry_now
      dest: shown_scan shown_type simp del: emit_line.simps)

end

subsection \<open>Sources for examples\<close>

definition dump :: "string \<Rightarrow> (string \<times> nat) list \<Rightarrow> obj_dump" where
  "dump t kv = \<lparr>od_exists = True, od_unreadable = False, od_type = Some t, od_bonus_type = None,
     od_fields = map (\<lambda>(k, v). (k, R_int v)) kv, od_zap = kv, od_zap_multi = []\<rparr>"

definition source_of :: "(nat \<times> obj_dump) list \<Rightarrow> src" where
  "source_of ds n = (case map_of ds n of None \<Rightarrow> missing | Some d \<Rightarrow> d)"

definition dataset :: obj_dump where
  "dataset = dump ''DSL dataset'' [(''prev_snap_obj'', 0), (''next_clones_obj'', 0)]"

definition dead_dataset :: obj_dump where
  "dead_dataset = (dump ''DSL dataset'' [])\<lparr>od_unreadable := True\<rparr>"

definition directory :: "nat \<Rightarrow> nat \<Rightarrow> nat \<Rightarrow> nat \<Rightarrow> (string \<times> nat) list \<Rightarrow> obj_dump" where
  "directory head par origin cm kv = dump ''DSL directory''
     ([(''head_dataset_obj'', head), (''parent_dir_obj'', par), (''origin_obj'', origin),
       (''child_dir_zapobj'', cm)] @ kv)"

definition child_map :: "(string \<times> nat) list \<Rightarrow> obj_dump" where
  "child_map kv = dump ''DSL directory child map'' kv"

text \<open>\<^verbatim>\<open>SCENARIO_A\<close>, \<^verbatim>\<open>SCENARIO_B\<close> and the clean pool of \<^verbatim>\<open>test_scan.py\<close>.\<close>

definition scenario_a_dumps :: "(nat \<times> obj_dump) list" where
  "scenario_a_dumps =
    [(1, (dump ''object directory'' [(''root_dataset'', 32), (''errlog_scrub'', 0), (''errlog_last'', 910)])
          \<lparr>od_zap_multi := [(''scan'', 2 # 1 # 999 # replicate 21 0)]\<rparr>),
     (32, directory 55 0 48 34 [(''clones'', 0)]),
     (55, dataset),
     (34, child_map [(''$MOS'', 35), (''$FREE'', 38), (''$ORIGIN'', 42), (''data'', 1792), (''orphan-9f3c1d'', 670)]),
     (42, directory 45 32 0 44 [(''clones'', 59)]),
     (45, dataset),
     (44, child_map []),
     (48, dump ''DSL dataset'' [(''dir_obj'', 42), (''prev_snap_obj'', 0), (''next_snap_obj'', 45),
        (''num_children'', 6), (''next_clones_obj'', 58)]),
     (58, dump ''DSL dataset next clones'' [(''36'', 54), (''2a1'', 673)]),
     (59, dump ''DSL dir clones'' [(''36'', 54), (''2a1'', 673)]),
     (54, dump ''DSL dataset'' [(''prev_snap_obj'', 48), (''next_clones_obj'', 0)]),
     (1792, directory 1793 32 0 1794 [(''clones'', 0)]),
     (1793, dataset),
     (1794, child_map []),
     (670, directory 673 32 48 672 [(''props_zapobj'', 671)]),
     (671, dump ''DSL props'' [(''refreservation'', 0)]),
     (672, child_map []),
     (673, dead_dataset),
     (910, dump ''persistent error log'' [(''2a1'', 912)]),
     (912, dump ''persistent error log'' [(''0:ffffffffffffffff:0'', 260923)])]"

definition scenario_a :: src where
  "scenario_a = source_of scenario_a_dumps"

definition scenario_b :: src where
  "scenario_b = source_of
    [(1, dump ''object directory'' [(''root_dataset'', 32), (''errlog_scrub'', 0), (''errlog_last'', 920)]),
     (32, directory 55 0 0 34 [(''clones'', 0)]),
     (55, dataset),
     (34, child_map [(''$MOS'', 35), (''$FREE'', 38)]),
     (920, dump ''SPA space map'' [])]"

definition scenario_c_dumps :: "(nat \<times> obj_dump) list" where
  "scenario_c_dumps =
    [(1, dump ''object directory'' [(''root_dataset'', 32), (''errlog_last'', 0), (''errlog_scrub'', 0)]),
     (32, directory 55 0 0 34 [(''clones'', 0)]),
     (55, dataset),
     (34, child_map [(''$MOS'', 35), (''$FREE'', 38), (''data'', 1792)]),
     (1792, directory 1793 32 0 1794 [(''clones'', 0)]),
     (1793, dataset),
     (1794, child_map [])]"

definition scenario_c :: src where
  "scenario_c = source_of scenario_c_dumps"

lemma run_scenario_a:
  "map_option (\<lambda>st. dedupe_ops (ops st)) (run 5 scenario_a) = Some (zip orphan_plan orphan_comments)"
  by code_simp

lemma run_scenario_b:
  "map_option (\<lambda>st. map fst (dedupe_ops (ops st))) (run 2 scenario_b) = Some [P_zap_set 1 ''errlog_last'' 920 0]"
  by code_simp

lemma run_scenario_c: "map_option findings (run 3 scenario_c) = Some []"
  by code_simp


text \<open>The dumps of the first fixture describe the example pool.\<close>

lemma source_of_cases: "source_of ds n = missing \<or> (n, source_of ds n) \<in> set ds"
  by (auto simp: source_of_def split: option.splits dest: map_of_SomeD)

lemma scenario_a_all:
  assumes "list_all (\<lambda>(n, d). P n d) scenario_a_dumps" "scenario_a n \<noteq> missing"
  shows "P n (scenario_a n)"
  using assms source_of_cases [of scenario_a_dumps n]
  by (auto simp: scenario_a_def list_all_iff)

lemma readable_there: "readable d \<Longrightarrow> d \<noteq> missing"
  by auto

definition fixture_tables :: "nat list" where
  "fixture_tables = [34, 44, 58, 59, 672, 1794]"

lemma fixture_fields:
  "list_all (\<lambda>(n, d). list_all (\<lambda>f. field d f \<in> set (R_int 0 # map R_int fixture_tables)) table_fields)
     scenario_a_dumps"
  by code_simp

lemma fixture_entries:
  "list_all (\<lambda>(n, d). n \<in> set (1 # fixture_tables) \<longrightarrow>
     list_all (\<lambda>(k, v). zap_lookup store_ops orphan_pool (of_nat n) k 1 = (0, [of_nat v])) (od_zap d))
     scenario_a_dumps"
  by code_simp

lemma fixture_counts:
  "list_all (\<lambda>(n, d). list_all (\<lambda>(k, r). k = ''num_children'' \<longrightarrow>
       dmu_bonus_hold store_ops orphan_pool (of_nat n) = (0, of_nat (ref_nat r))) (od_fields d))
     scenario_a_dumps"
  by code_simp

lemma fixture_types:
  "list_all (\<lambda>(n, d). readable d \<longrightarrow>
     (case dmu_object_info store_ops orphan_pool (of_nat n) of (err, t) \<Rightarrow>
        err = 0 \<and> type_name_matches store_ops t (type_str d))) scenario_a_dumps"
  by code_simp

lemma scenario_a_tables:
  assumes "table scenario_a (R_int ob)"
  shows "ob \<in> set fixture_tables"
proof -
  obtain r f where f: "f \<in> set table_fields" "R_int ob = field (get scenario_a r) f" "ob \<noteq> 0"
    using assms by (auto simp: table_def)
  then obtain n where r: "r = R_int n" by (cases r) auto
  have "scenario_a n \<noteq> missing" using f r by auto
  from scenario_a_all [OF fixture_fields this] show ?thesis
    using f r by (auto simp: list_all_iff)
qed

interpretation fixture: dumps_describe store_ops orphan_pool scenario_a
proof
  fix ob k v
  assume r: "readable (scenario_a ob)" "ob = MOS_DIR_OBJ \<or> table scenario_a (R_int ob)"
    "(k, v) \<in> set (od_zap (scenario_a ob))"
  then have "ob \<in> set (1 # fixture_tables)"
    using scenario_a_tables by (auto simp: MOS_DIR_OBJ_def)
  then show "zap_lookup store_ops orphan_pool (of_nat ob) k 1 = (0, [of_nat v])"
    using scenario_a_all [OF fixture_entries readable_there [OF r(1)]] r(3) by (auto simp: list_all_iff)
next
  fix ws
  show "fst (zap_lookup store_ops orphan_pool (of_nat MOS_DIR_OBJ) ''scan'' SCAN_WORDS) = 0"
    by code_simp
next
  fix ob n
  assume "readable (scenario_a ob)" "(''num_children'', R_int n) \<in> set (od_fields (scenario_a ob))"
  then show "dmu_bonus_hold store_ops orphan_pool (of_nat ob) = (0, of_nat n)"
    using scenario_a_all [OF fixture_counts readable_there, of ob] by (fastforce simp: list_all_iff)
next
  fix ob ty
  assume "readable (scenario_a ob)" "od_type (scenario_a ob) = Some ty"
  then show "\<exists>t. dmu_object_info store_ops orphan_pool (of_nat ob) = (0, t) \<and> type_name_matches store_ops t ty"
    using scenario_a_all [OF fixture_types readable_there, of ob] by (auto simp: type_str_def split: prod.splits)
qed

subsection \<open>More sources\<close>

text \<open>A pool whose error log names a lost object set, and whose log of that set is unreadable.\<close>

definition dead_log :: src where
  "dead_log = source_of
    [(1, dump ''object directory'' [(''root_dataset'', 32), (''errlog_last'', 910)]),
     (32, directory 55 0 0 0 []),
     (55, dataset),
     (910, dump ''persistent error log'' [(''2a1'', 912)]),
     (912, (dump ''persistent error log'' [])\<lparr>od_unreadable := True\<rparr>)]"

text \<open>A pool whose error log cannot be read at all.\<close>

definition dead_head :: src where
  "dead_head = source_of
    [(1, dump ''object directory'' [(''root_dataset'', 32), (''errlog_last'', 910)]),
     (32, directory 55 0 0 0 []),
     (55, dataset),
     (910, (dump ''persistent error log'' [])\<lparr>od_unreadable := True\<rparr>)]"

lemma dead_head_normal:
  "map_option (\<lambda>st. map f_message (findings st)) (run 2 dead_head) = Some [M_errlog_normal ''errlog_last'' 910]"
  by code_simp

text \<open>A directory with a dead head dataset and a child that is in order.\<close>

definition parent_orphan :: src where
  "parent_orphan = source_of
    [(1, dump ''object directory'' [(''root_dataset'', 32)]),
     (32, directory 55 0 0 34 []),
     (55, dataset),
     (34, child_map [(''home'', 40)]),
     (40, directory 41 32 0 42 []),
     (41, dead_dataset),
     (42, child_map [(''alice'', 50)]),
     (50, directory 51 40 0 52 []),
     (51, dataset),
     (52, child_map [])]"

text \<open>Two orphans cloned from the same snapshot, which counts three children.\<close>

definition twin_orphans :: src where
  "twin_orphans = source_of
    [(1, dump ''object directory'' [(''root_dataset'', 32)]),
     (32, directory 55 0 0 34 []),
     (55, dataset),
     (34, child_map [(''a'', 60), (''b'', 70)]),
     (60, directory 61 32 48 0 []),
     (61, dead_dataset),
     (70, directory 71 32 48 0 []),
     (71, dead_dataset),
     (48, dump ''DSL dataset'' [(''num_children'', 3), (''next_clones_obj'', 58)]),
     (58, dump ''DSL dataset next clones'' [(''3d'', 61), (''47'', 71)])]"

text \<open>A child entry whose object number has come to a child map.\<close>

definition recycled_child :: src where
  "recycled_child = source_of
    [(1, dump ''object directory'' [(''root_dataset'', 32)]),
     (32, directory 55 0 0 34 []),
     (55, dataset),
     (34, child_map [(''data'', 60)]),
     (60, child_map [(''x'', 61)])]"

subsection \<open>Operations that stay planned\<close>

lemma ops_simps [simp]:
  "ops (add sev ob m st) = ops st" "ops (plan p c st) = ops st @ [(p, c)]"
  by (simp_all add: add_def plan_def)

lemma free_structure_keeps: "x \<in> set (ops st) \<Longrightarrow> x \<in> set (ops (free_structure s path ob st))"
  by (simp add: free_structure_def Let_def)

lemma free_structure_plans:
  "z \<noteq> 0 \<Longrightarrow> readable (s z) \<Longrightarrow> type_str (s z) \<noteq> [] \<Longrightarrow>
     \<exists>c. (P_free z (type_str (s z)), c) \<in> set (ops (free_structure s path (R_int z) st))"
  by (auto simp: free_structure_def Let_def readable_def)

lemma free_per_objset_keeps:
  "x \<in> set (ops st) \<Longrightarrow> x \<in> set (ops (fold (free_per_objset s) es st))"
  by (induction es arbitrary: st) (auto simp: free_per_objset_def Let_def split: prod.splits)

lemma free_per_objset_plans:
  assumes "(key, objset, per, ex) \<in> set es" "od_exists (s per)" "type_has ''error log'' (s per)"
  shows "\<exists>c. (P_free per (type_str (s per)), c) \<in> set (ops (fold (free_per_objset s) es st))"
  using assms(1)
proof (induction es arbitrary: st)
  case (Cons e es)
  show ?case
  proof (cases "e = (key, objset, per, ex)")
    case True
    have "\<exists>c. (P_free per (type_str (s per)), c) \<in> set (ops (free_per_objset s e st))"
      using assms(2,3) by (auto simp: True free_per_objset_def)
    then show ?thesis using free_per_objset_keeps by fastforce
  next
    case False
    with Cons show ?thesis by simp
  qed
qed simp

subsection \<open>Properties\<close>

text \<open>
  C13: the scanner's plan passes the surgeon's checks. When the dumps describe the MOS the surgeon
  opens, every operation of the plan has a precondition that holds there, except possibly one on
  an object the scanner itself could not read.
\<close>

theorem scan_plan_passes_checks:
  assumes "dumps_describe Z mos s" "run depth s = Some st"
  shows "list_all (\<lambda>(p, c). op_ok Z mos (intended p) \<or> on_unreadable s p) (dedupe_ops (ops st))"
  using dumps_describe.observed_op_ok [OF assms(1)] run_observed [OF assms(2)] by (auto simp: list_all_iff)

theorem scan_plan_passes_checks_witness:
  "list_all (\<lambda>p. op_ok store_ops orphan_pool (intended p) \<or> on_unreadable scenario_a p) orphan_plan"
proof -
  obtain st where st: "run 5 scenario_a = Some st" "dedupe_ops (ops st) = zip orphan_plan orphan_comments"
    using run_scenario_a by auto
  have "map fst (zip orphan_plan orphan_comments) = orphan_plan"
    by (simp add: orphan_plan_def orphan_comments_def)
  then show ?thesis
    using scan_plan_passes_checks [OF fixture.dumps_describe_axioms st(1)] st(2)
    by (metis (no_types, lifting) case_prod_unfold list.pred_map list.pred_mono_strong comp_apply)
qed



text \<open>
  An unreadable error log stops the repair. The scanner plans to free the log of a lost
  object set even when that log is unreadable itself; if its type cannot be read from the MOS,
  the surgeon's check of that operation fails, and with it the whole plan.
\<close>

theorem unreadable_log_blocks_plan:
  assumes "h \<noteq> 0" "od_exists (s h)" "type_has ''error log'' (s h)"
    and "(key, objset, per, ex) \<in> set (stale_entries s (s h))" "od_exists (s per)" "type_has ''error log'' (s per)"
    and "fst (dmu_object_info Z mos (of_nat per)) \<notin> {0, ENOENT}"
  shows "\<exists>(p, c) \<in> set (ops (check_errlog_head s name h st)). \<not> op_ok Z mos (intended p)"
proof -
  have "\<not> op_ok Z mos (intended (P_free per (type_str (s per))))"
    using assms(7) by (auto simp: op_ok_iff op_zero_def simp del: emit_line.simps)
  moreover obtain c where "(P_free per (type_str (s per)), c) \<in> set (ops (check_errlog_head s name h st))"
    using free_per_objset_plans [where s = s, OF assms(4-6)] assms(1-4) by (fastforce simp: check_errlog_head_def Let_def)
  ultimately show ?thesis by blast
qed

theorem unreadable_log_blocks_plan_witness:
  "\<exists>(p, c) \<in> set (ops (check_errlog_head dead_log ''errlog_last'' 910 scanner_init)).
     \<not> op_ok store_ops (orphan_pool(912 \<mapsto> (mk_obj 28 Map.empty 0)\<lparr>mo_readable := False\<rparr>)) (intended p)"
proof (rule unreadable_log_blocks_plan)
  show "(''2a1'', 673, 912, False) \<in> set (stale_entries dead_log (dead_log 910))"
    "od_exists (dead_log 910)" "type_has ''error log'' (dead_log 910)"
    "od_exists (dead_log 912)" "type_has ''error log'' (dead_log 912)" by code_simp+
qed (simp_all add: store_defs)

text \<open>
  Two orphans of one origin. Both entries are removed from the clone list of the origin, but
  the two identical lines that decrement its child count are one line after \<^verbatim>\<open>dedupe_ops\<close>: the
  count ends one too high.
\<close>

theorem twin_orphans_count:
  "map_option (\<lambda>st. map fst (dedupe_ops (ops st))) (run 5 twin_orphans) =
     Some [P_zap_remove 34 ''a'' 60, P_zap_remove 58 ''3d'' 61, P_bonus_set 48 3 2, P_free 60 ''DSL directory'',
       P_zap_remove 34 ''b'' 70, P_zap_remove 58 ''47'' 71, P_free 70 ''DSL directory'']"
  by code_simp

text \<open>
  The type of a directory is looked for as a part of the type's name. A child entry whose
  object number was reused for a child map is not found out, since the name of that type,
  \<^verbatim>\<open>DSL directory child map\<close>, contains \<^verbatim>\<open>DSL directory\<close>: the scan has no finding.
\<close>

theorem recycled_child_unnoticed:
  "od_type (recycled_child 60) = Some ''DSL directory child map'' \<and>
   (''data'', 60) \<in> set (od_zap (recycled_child 34)) \<and>
   map_option findings (run 5 recycled_child) = Some []"
  by code_simp

subsection \<open>The scans of the fixtures as witnesses\<close>

theorem scan_terminates_witness: "\<exists>st. run 5 scenario_c = Some st"
proof -
  have "dsl_dirs scenario_c \<subseteq> {32, 34, 1792, 1794}"
  proof
    fix n assume n: "n \<in> dsl_dirs scenario_c"
    then have "(n, scenario_c n) \<in> set scenario_c_dumps"
      using source_of_cases [of scenario_c_dumps n] by (auto simp: dsl_dirs_def scenario_c_def)
    moreover have "list_all (\<lambda>(n, d). type_has ''DSL directory'' d \<longrightarrow> n \<in> {32, 34, 1792, 1794}) scenario_c_dumps"
      by code_simp
    ultimately show "n \<in> {32, 34, 1792, 1794}" using n by (auto simp: list_all_iff dsl_dirs_def)
  qed
  then have "finite (dsl_dirs scenario_c)" "card (dsl_dirs scenario_c) < 5"
    using card_mono [of "{32, 34, 1792, 1794}" "dsl_dirs scenario_c"] by (auto intro: finite_subset)
  from scan_terminates [OF this] show ?thesis by auto
qed


theorem consistent_no_plan_witness: "map_option (\<lambda>st. dedupe_ops (ops st)) (run 3 scenario_c) = Some []"
proof -
  obtain st where st: "run 3 scenario_c = Some st" "findings st = []" using run_scenario_c by auto
  then have "consistent scenario_c" using run_clean_iff [of 3 scenario_c st] by (simp add: clean_def)
  with st consistent_no_plan [of 3 scenario_c st] show ?thesis by simp
qed


theorem scan_plan_reported_witness: "map_option reported (run 2 scenario_b) = Some True"
proof -
  obtain st where st: "run 2 scenario_b = Some st" "dedupe_ops (ops st) \<noteq> []"
    using run_scenario_b by (cases "run 2 scenario_b") auto
  then have "ops st \<noteq> []" by (auto simp: dedupe_ops_def)
  with st scan_plan_reported [of 2 scenario_b st] show ?thesis by simp
qed

end
