(* ===== verification/DumpSource.thy ===== *)
theory DumpSource
  imports ZdbDump ScanPlan
begin

text \<open>
  Where the scanner's dumps come from (\<^verbatim>\<open>src/scan/zhaxx-scan\<close>, \<^verbatim>\<open>ZdbSource\<close> and
  \<^verbatim>\<open>DumpDirSource\<close>): a run of \<^verbatim>\<open>zdb\<close> per object, or a file per object, and a cache in front of
  either. \<^verbatim>\<open>zdb\<close> and the files of a dump directory are arguments. The locale \<open>dump_source\<close> is
  what the checks rely on, that an object has one dump during a scan; both sources are shown to
  provide it. Dumps that are missing are followed into the plan.
\<close>

subsection \<open>Sources\<close>

text \<open>
  \<^verbatim>\<open>f"{obj}"\<close>, the cache of both sources, and what \<^verbatim>\<open>ZdbSource\<close> has written with
  \<^verbatim>\<open>--capture\<close>. The number of \<^verbatim>\<open>zdb\<close> runs so far stands for the state of the world outside:
  a live pool may answer the same question differently later.
\<close>

definition shown :: "py_obj \<Rightarrow> string" where
  "shown ob = (case ob of O_int i \<Rightarrow> py_str i | O_text t \<Rightarrow> t)"

definition dump_name :: "py_obj \<Rightarrow> string" where
  "dump_name ob = ''obj_'' @ shown ob @ ''.txt''"

record source =
  s_cache :: "py_obj \<rightharpoonup> obj_dump"
  s_files :: "string \<rightharpoonup> string"
  s_runs :: nat

definition source_init :: source where
  "source_init = \<lparr>s_cache = Map.empty, s_files = Map.empty, s_runs = 0\<rparr>"

text \<open>\<^verbatim>\<open>DumpDirSource.get\<close>; the directory maps file names to what is in them.\<close>

definition dumpdir_get :: "(string \<rightharpoonup> string) \<Rightarrow> py_obj \<Rightarrow> source \<Rightarrow> (obj_dump \<times> source) option" where
  "dumpdir_get dir ob st =
    (case s_cache st ob of
       Some d \<Rightarrow> Some (d, st)
     | None \<Rightarrow>
         let d = (case dir (dump_name ob) of
                    Some text \<Rightarrow> parse_obj_dump ob text
                  | None \<Rightarrow> parse_obj_dump ob [])
         in Some (d, st\<lparr>s_cache := (s_cache st)(ob \<mapsto> d)\<rparr>))"

text \<open>\<^verbatim>\<open>ZdbSource.get\<close>; \<open>None\<close> is the exit when there is no \<^verbatim>\<open>zdb\<close>.\<close>

record zdb_source =
  z_pool :: string
  z_zdb :: string
  z_cachefile :: "string option"
  z_exported :: bool
  z_capture :: bool

datatype zdb_result = Z_output string string | Z_timeout | Z_not_found

definition timeout_text :: string where
  "timeout_text = ''zhaxx-scan: TIMEOUT running zdb''"

definition zdb_command :: "zdb_source \<Rightarrow> py_obj \<Rightarrow> string list" where
  "zdb_command z ob =
     [z_zdb z] @ (if z_exported z then [''-e''] else []) @
     (case z_cachefile z of Some f \<Rightarrow> if f = [] then [] else [''-U'', f] | None \<Rightarrow> []) @
     [''-dddd'', z_pool z, shown ob]"

definition zdb_get :: "(nat \<Rightarrow> string list \<Rightarrow> zdb_result) \<Rightarrow> zdb_source \<Rightarrow> py_obj \<Rightarrow> source \<Rightarrow>
    (obj_dump \<times> source) option" where
  "zdb_get run_zdb z ob st =
    (case s_cache st ob of
       Some d \<Rightarrow> Some (d, st)
     | None \<Rightarrow>
         let answer = run_zdb (s_runs st) (zdb_command z ob);
             st = st\<lparr>s_runs := Suc (s_runs st)\<rparr>;
             finish = (\<lambda>text.
               let d = parse_obj_dump ob text;
                   st = st\<lparr>s_cache := (s_cache st)(ob \<mapsto> d)\<rparr>
               in Some (d, if z_capture z then st\<lparr>s_files := (s_files st)(dump_name ob \<mapsto> text)\<rparr> else st))
         in case answer of
              Z_output out err \<Rightarrow> finish (out @ err)
            | Z_timeout \<Rightarrow> finish timeout_text
            | Z_not_found \<Rightarrow> None)"

text \<open>The answers to a sequence of requests.\<close>

fun gets :: "(py_obj \<Rightarrow> 'st \<Rightarrow> (obj_dump \<times> 'st) option) \<Rightarrow> py_obj list \<Rightarrow> 'st \<Rightarrow> (obj_dump list \<times> 'st) option" where
  "gets ask [] st = Some ([], st)"
| "gets ask (ob # obs) st =
    (case ask ob st of
       None \<Rightarrow> None
     | Some (d, st') \<Rightarrow> map_option (apfst (Cons d)) (gets ask obs st'))"

text \<open>A dump directory as the source of a scan.\<close>

definition dir_source :: "(string \<rightharpoonup> string) \<Rightarrow> src" where
  "dir_source dir n =
     (case dir (dump_name (O_int (int n))) of
        Some text \<Rightarrow> parse_obj_dump (O_int (int n)) text
      | None \<Rightarrow> parse_obj_dump (O_int (int n)) [])"

subsection \<open>What the checks rely on\<close>

locale dump_source =
  fixes ask :: "py_obj \<Rightarrow> 'st \<Rightarrow> (obj_dump \<times> 'st) option" and cached :: "'st \<Rightarrow> py_obj \<rightharpoonup> obj_dump"
  assumes answers_from_cache: "cached st ob = Some d \<Longrightarrow> ask ob st = Some (d, st)"
    and caches_answer: "ask ob st = Some (d, st') \<Longrightarrow> cached st' ob = Some d"
    and keeps_cache: "ask ob st = Some (d, st') \<Longrightarrow> cached st ob' = Some d' \<Longrightarrow> cached st' ob' = Some d'"
begin

lemma gets_keeps_cache:
  "gets ask obs st = Some (ds, st') \<Longrightarrow> cached st ob = Some d \<Longrightarrow> cached st' ob = Some d"
  by (induction obs arbitrary: st ds) (auto split: option.splits dest: keeps_cache)

lemma gets_one_dump:
  "gets ask obs st = Some (ds, st') \<Longrightarrow> list_all2 (\<lambda>ob d. cached st' ob = Some d) obs ds"
  by (induction obs arbitrary: st ds)
    (auto split: option.splits intro: gets_keeps_cache [OF _ caches_answer])

lemma gets_again: "gets ask obs st = Some (ds, st') \<Longrightarrow> gets ask obs st' = Some (ds, st')"
proof -
  assume "gets ask obs st = Some (ds, st')"
  from gets_one_dump [OF this] show ?thesis
    by (induction rule: list_all2_induct) (auto simp: answers_from_cache)
qed

end

interpretation dumpdir: dump_source "dumpdir_get dir" s_cache for dir
  by unfold_locales (auto simp: dumpdir_get_def Let_def split: option.splits if_splits)

interpretation zdb: dump_source "zdb_get run_zdb z" s_cache for run_zdb z
  by unfold_locales (auto simp: zdb_get_def Let_def split: option.splits if_splits zdb_result.splits)

subsection \<open>Dumps that are not there\<close>

lemma timeout_no_header: "match_header timeout_text = None" "splitlines timeout_text = [timeout_text]"
  by code_simp+

lemma parse_timeout: "parse_obj_dump ob timeout_text = missing"
  by (simp add: parse_obj_dump_def timeout_no_header parse_line_def parse_rest_def) (simp add: missing_def)

lemma parse_nothing: "parse_obj_dump ob [] = missing"
  by (simp add: parse_obj_dump_def)

lemma dir_source_absent: "dir (dump_name (O_int (int n))) = None \<Longrightarrow> dir_source dir n = missing"
  by (simp add: dir_source_def parse_nothing)

text \<open>Object numbers have different file names.\<close>

lemma py_str_inject: "py_str i = py_str j \<Longrightarrow> i = j"
proof -
  have "\<not> py_digit (CHR ''-'')" by (simp add: py_digit_def is_digit_in_def digit_val_def)
  then have minus: "CHR ''-'' \<notin> set (dec n)" for n using dec_py_digit by blast
  have mixed: "CHR ''-'' # x \<noteq> dec n" "dec n \<noteq> CHR ''-'' # x" for x n
    using minus [of n] by (metis list.set_intros(1))+
  have "dec m = dec n \<longleftrightarrow> m = n" for m n using digits_value_dec by metis
  then show "py_str i = py_str j \<Longrightarrow> i = j"
    using mixed by (cases "i < 0"; cases "j < 0") (simp_all add: py_str_def del: dec.simps)
qed

lemma dump_name_inject: "dump_name (O_int i) = dump_name (O_int j) \<longleftrightarrow> i = j"
  by (auto simp: dump_name_def shown_def dest: py_str_inject)

text \<open>Captured files hold what the cache was made from.\<close>

definition captured :: "source \<Rightarrow> bool" where
  "captured st \<longleftrightarrow> (\<forall>i d. s_cache st (O_int i) = Some d \<longrightarrow>
     (\<exists>text. s_files st (dump_name (O_int i)) = Some text \<and> parse_obj_dump (O_int i) text = d))"

lemma captured_init: "captured source_init"
  by (simp add: captured_def source_init_def)

lemma zdb_get_captured:
  "z_capture z \<Longrightarrow> captured st \<Longrightarrow> zdb_get run_zdb z (O_int i) st = Some (d, st') \<Longrightarrow> captured st'"
  by (auto simp: captured_def zdb_get_def Let_def dump_name_inject split: option.splits zdb_result.splits if_splits)

lemma gets_captured:
  "z_capture z \<Longrightarrow> captured st \<Longrightarrow> gets (zdb_get run_zdb z) (map O_int is) st = Some (ds, st') \<Longrightarrow> captured st'"
  by (induction "is" arbitrary: st ds) (auto split: option.splits dest: zdb_get_captured)

lemma dumpdir_gets:
  assumes "list_all2 (\<lambda>ob d. (case dir (dump_name ob) of Some text \<Rightarrow> parse_obj_dump ob text | None \<Rightarrow> parse_obj_dump ob []) = d) obs ds"
    and "\<forall>ob d. s_cache st ob = Some d \<longrightarrow>
      (case dir (dump_name ob) of Some text \<Rightarrow> parse_obj_dump ob text | None \<Rightarrow> parse_obj_dump ob []) = d"
  shows "\<exists>st'. gets (dumpdir_get dir) obs st = Some (ds, st')"
  using assms
proof (induction arbitrary: st rule: list_all2_induct)
  case (Cons ob obs d ds)
  obtain st1 where st1: "dumpdir_get dir ob st = Some (d, st1)"
    "\<forall>ob d. s_cache st1 ob = Some d \<longrightarrow>
      (case dir (dump_name ob) of Some text \<Rightarrow> parse_obj_dump ob text | None \<Rightarrow> parse_obj_dump ob []) = d"
    using Cons.hyps Cons.prems by (cases "s_cache st ob") (auto simp: dumpdir_get_def Let_def)
  from Cons.IH [OF st1(2)] st1(1) show ?case by auto
qed simp

text \<open>
  Through the cache or not, the checks are given what \<open>get\<close> gives them, for numbers and for the
  texts that stand in their place.
\<close>

fun ref_obj :: "ref \<Rightarrow> py_obj" where
  "ref_obj (R_int n) = O_int (int n)"
| "ref_obj (R_str t) = O_text t"

lemma parse_text: "parse_obj_dump (O_text t) text = missing"
  by (simp add: parse_no_number)

lemma dumpdir_answers:
  "\<exists>st. gets (dumpdir_get dir) (map ref_obj rs) source_init = Some (map (get (dir_source dir)) rs, st)"
proof (rule dumpdir_gets)
  have "(case dir (dump_name (ref_obj x)) of Some text \<Rightarrow> parse_obj_dump (ref_obj x) text
      | None \<Rightarrow> parse_obj_dump (ref_obj x) []) = get (dir_source dir) x" for x
    by (cases x) (auto simp: dir_source_def parse_text split: option.splits)
  then show "list_all2 (\<lambda>ob d. (case dir (dump_name ob) of Some text \<Rightarrow> parse_obj_dump ob text
      | None \<Rightarrow> parse_obj_dump ob []) = d) (map ref_obj rs) (map (get (dir_source dir)) rs)"
    by (simp add: list_all2_map1 list_all2_map2 list.rel_refl)
qed (simp add: source_init_def)

subsection \<open>The fixtures as files\<close>

text \<open>\<^verbatim>\<open>write_scenario\<close> of \<^verbatim>\<open>src/tests/fixtures.py\<close>: a file per object.\<close>

type_synonym printed = "string \<times> (string \<times> nat list) list \<times> bool"

definition render_dir :: "(nat \<times> printed) list \<Rightarrow> string \<rightharpoonup> string" where
  "render_dir objs = map_of (map (\<lambda>(n, t, kv, bad). (dump_name (O_int (int n)), render n t kv bad)) objs)"

definition printed_fit :: "printed \<Rightarrow> bool" where
  "printed_fit p = (case p of (t, kv, bad) \<Rightarrow> type_fit t \<and> list_all entry_calm kv \<and> distinct (map fst kv))"

definition printed_dump :: "printed \<Rightarrow> obj_dump" where
  "printed_dump p = (case p of (t, kv, bad) \<Rightarrow> if bad then (meant t [])\<lparr>od_unreadable := True\<rparr> else meant t kv)"

lemma render_dir_at:
  "render_dir objs (dump_name (O_int (int n))) = map_option (\<lambda>(t, kv, bad). render n t kv bad) (map_of objs n)"
  by (induction objs) (auto simp: render_dir_def dump_name_inject)

lemma dir_source_render:
  assumes "list_all (\<lambda>(n, p). printed_fit p) objs"
  shows "dir_source (render_dir objs) = source_of (map (\<lambda>(n, p). (n, printed_dump p)) objs)"
proof
  fix n
  have "map_of (map (\<lambda>(n, p). (n, printed_dump p)) objs) n = map_option printed_dump (map_of objs n)"
    by (induction objs) auto
  moreover have "printed_fit p" if "map_of objs n = Some p" for p
    using assms map_of_SomeD [OF that] by (auto simp: list_all_iff)
  ultimately show "dir_source (render_dir objs) n = source_of (map (\<lambda>(n, p). (n, printed_dump p)) objs) n"
    by (cases "map_of objs n")
      (auto simp: dir_source_def source_of_def render_dir_at parse_nothing printed_fit_def printed_dump_def
        parse_printed entry_calm_fit)
qed

definition scenario_a_objs :: "(nat \<times> printed) list" where
  "scenario_a_objs =
    [(1, ''object directory'',
        [(''root_dataset'', [32]), (''errlog_scrub'', [0]), (''errlog_last'', [910]), (''scan'', 2 # 1 # 999 # replicate 21 0)], False),
     (32, ''DSL directory'',
        [(''head_dataset_obj'', [55]), (''parent_dir_obj'', [0]), (''origin_obj'', [48]), (''child_dir_zapobj'', [34]), (''clones'', [0])], False),
     (55, ''DSL dataset'', [(''prev_snap_obj'', [0]), (''next_clones_obj'', [0])], False),
     (34, ''DSL directory child map'',
        [(''$MOS'', [35]), (''$FREE'', [38]), (''$ORIGIN'', [42]), (''data'', [1792]), (''orphan-9f3c1d'', [670])], False),
     (42, ''DSL directory'',
        [(''head_dataset_obj'', [45]), (''parent_dir_obj'', [32]), (''origin_obj'', [0]), (''child_dir_zapobj'', [44]), (''clones'', [59])], False),
     (45, ''DSL dataset'', [(''prev_snap_obj'', [0]), (''next_clones_obj'', [0])], False),
     (44, ''DSL directory child map'', [], False),
     (48, ''DSL dataset'',
        [(''dir_obj'', [42]), (''prev_snap_obj'', [0]), (''next_snap_obj'', [45]), (''num_children'', [6]), (''next_clones_obj'', [58])], False),
     (58, ''DSL dataset next clones'', [(''36'', [54]), (''2a1'', [673])], False),
     (59, ''DSL dir clones'', [(''36'', [54]), (''2a1'', [673])], False),
     (54, ''DSL dataset'', [(''prev_snap_obj'', [48]), (''next_clones_obj'', [0])], False),
     (1792, ''DSL directory'',
        [(''head_dataset_obj'', [1793]), (''parent_dir_obj'', [32]), (''origin_obj'', [0]), (''child_dir_zapobj'', [1794]), (''clones'', [0])], False),
     (1793, ''DSL dataset'', [(''prev_snap_obj'', [0]), (''next_clones_obj'', [0])], False),
     (1794, ''DSL directory child map'', [], False),
     (670, ''DSL directory'',
        [(''head_dataset_obj'', [673]), (''parent_dir_obj'', [32]), (''origin_obj'', [48]), (''child_dir_zapobj'', [672]), (''props_zapobj'', [671])], False),
     (671, ''DSL props'', [(''refreservation'', [0])], False),
     (672, ''DSL directory child map'', [], False),
     (673, ''DSL dataset'', [], True),
     (910, ''persistent error log'', [(''2a1'', [912])], False),
     (912, ''persistent error log'', [(''0:ffffffffffffffff:0'', [260923])], False)]"

lemma scenario_a_fit: "list_all (\<lambda>(n, p). printed_fit p) scenario_a_objs"
  by code_simp

lemma scenario_a_dumps_printed: "map (\<lambda>(n, p). (n, printed_dump p)) scenario_a_objs = scenario_a_dumps"
  by code_simp

lemma scenario_a_files: "dir_source (render_dir scenario_a_objs) = scenario_a"
  using dir_source_render [OF scenario_a_fit] by (simp add: scenario_a_dumps_printed scenario_a_def)

text \<open>A live pool whose second answer is a timeout.\<close>

definition live_tank :: zdb_source where
  "live_tank = \<lparr>z_pool = ''tank'', z_zdb = ''zdb'', z_cachefile = None, z_exported = True, z_capture = True\<rparr>"

definition flaky_zdb :: "nat \<Rightarrow> string list \<Rightarrow> zdb_result" where
  "flaky_zdb n cmd = (if n = 0 then Z_output (render 1792 ''DSL directory'' [] False) [] else Z_timeout)"

lemma flaky_first:
  "\<exists>d st. gets (zdb_get flaky_zdb live_tank) [O_int 1792, O_int 1792] source_init = Some ([d, d], st) \<and> od_exists d"
proof -
  have "type_fit ''DSL directory''" by code_simp
  from parse_printed [OF this, of "[]" 1792 False]
  have "od_exists (parse_obj_dump (O_int 1792) (render 1792 ''DSL directory'' [] False))"
    by (simp add: meant_def)
  then show ?thesis by (simp add: zdb_get_def source_init_def flaky_zdb_def live_tank_def Let_def)
qed

text \<open>A capture that lacks the directory of \<^verbatim>\<open>data\<close>.\<close>

definition lost_data_objs :: "(nat \<times> printed) list" where
  "lost_data_objs = filter (\<lambda>(n, p). n \<noteq> 1792) scenario_a_objs"

lemma lost_data_files:
  "dir_source (render_dir lost_data_objs) = source_of (map (\<lambda>(n, p). (n, printed_dump p)) lost_data_objs)"
  using scenario_a_fit by (intro dir_source_render) (auto simp: lost_data_objs_def list_all_iff)

text \<open>An entry whose object has no dump is planned to be removed.\<close>

lemma childmap_loop_ops:
  assumes "childmap_loop (walk_dsl_dir depth s) s z path es st = Some st'" "table s z" "set es \<subseteq> set (od_zap (get s z))"
  shows "set (ops st) \<subseteq> set (ops st')"
proof -
  have "prefix (findings st) (findings st') \<and> prefix (ops st) (ops st')"
    by (rule ext.childmap_loop_inv [OF ext.walk_inv _ assms(2,3,1)]) auto
  then show ?thesis using set_mono_prefix by blast
qed

lemma childmap_loop_removes:
  assumes "(name, c) \<in> set es" "name \<notin> set special_names" "\<not> od_exists (s c)" "table s z"
  shows "childmap_loop (walk_dsl_dir depth s) s z path es st = Some st' \<Longrightarrow> set es \<subseteq> set (od_zap (get s z)) \<Longrightarrow>
    P_zap_remove (ref_nat z) name c \<in> fst ` set (ops st')"
  using assms(1)
proof (induction es arbitrary: st)
  case (Cons e es)
  obtain n' c' where e: "e = (n', c')" by (cases e)
  show ?case
  proof (cases "e = (name, c)")
    case True
    then obtain st1 cm m where "childmap_loop (walk_dsl_dir depth s) s z path es
        (plan (P_zap_remove (ref_nat z) name c) cm (add CRITICAL z m st1)) = Some st'"
      using Cons.prems(1) assms(2,3) by (auto simp: Let_def)
    then have "set (ops (plan (P_zap_remove (ref_nat z) name c) cm (add CRITICAL z m st1))) \<subseteq> set (ops st')"
      using childmap_loop_ops assms(4) Cons.prems(2) by (metis set_subset_Cons subset_trans)
    then show ?thesis by force
  next
    case False
    then show ?thesis using Cons by (fastforce simp: e Let_def split: if_splits bind_splits)
  qed
qed simp

subsection \<open>Properties\<close>

text \<open>
  C25: during a scan an object has one dump. However \<^verbatim>\<open>zdb\<close> answers from run to run, every
  request for an object is answered with the same dump, and asking everything again changes
  nothing and runs nothing.
\<close>

theorem zdb_source_one_dump:
  assumes "gets (zdb_get run_zdb z) obs st = Some (ds, st')"
  shows "ds = map (\<lambda>ob. the (s_cache st' ob)) obs \<and> gets (zdb_get run_zdb z) obs st' = Some (ds, st')"
proof -
  have "ds = map (\<lambda>ob. the (s_cache st' ob)) obs"
    using zdb.gets_one_dump [OF assms] by (induction rule: list_all2_induct) simp_all
  with zdb.gets_again [OF assms] show ?thesis by simp
qed

theorem zdb_source_one_dump_witness:
  "\<exists>d st. gets (zdb_get flaky_zdb live_tank) [O_int 1792, O_int 1792] source_init = Some ([d, d], st) \<and>
     od_exists d \<and> gets (zdb_get flaky_zdb live_tank) [O_int 1792, O_int 1792] st = Some ([d, d], st)"
proof -
  obtain d st where first: "gets (zdb_get flaky_zdb live_tank) [O_int 1792, O_int 1792] source_init = Some ([d, d], st)"
    and d: "od_exists d"
    using flaky_first by blast
  from zdb_source_one_dump [OF first] first d show ?thesis by blast
qed

text \<open>
  C24: a capture can be replayed. What a scan with \<^verbatim>\<open>--capture\<close> has read live is what
  \<^verbatim>\<open>--dumps\<close> reads from the files it left, request by request.
\<close>

theorem capture_replay:
  assumes "z_capture z" "gets (zdb_get run_zdb z) (map O_int is) source_init = Some (ds, st)"
  shows "\<exists>st'. gets (dumpdir_get (s_files st)) (map O_int is) source_init = Some (ds, st')"
proof (rule dumpdir_gets)
  have "captured st" using gets_captured [OF assms(1) captured_init assms(2)] .
  then show "list_all2 (\<lambda>ob d. (case s_files st (dump_name ob) of Some text \<Rightarrow> parse_obj_dump ob text
      | None \<Rightarrow> parse_obj_dump ob []) = d) (map O_int is) ds"
    using zdb.gets_one_dump [OF assms(2)] by (fastforce simp: list_all2_conv_all_nth captured_def)
qed (simp add: source_init_def)

theorem capture_replay_witness:
  "\<exists>d st st'. gets (zdb_get flaky_zdb live_tank) [O_int 1792, O_int 1792] source_init = Some ([d, d], st) \<and>
     gets (dumpdir_get (s_files st)) [O_int 1792, O_int 1792] source_init = Some ([d, d], st')"
proof -
  obtain d st where first: "gets (zdb_get flaky_zdb live_tank) (map O_int [1792, 1792]) source_init = Some ([d, d], st)"
    using flaky_first by auto
  have "z_capture live_tank" by (simp add: live_tank_def)
  from capture_replay [OF this first] first show ?thesis by auto
qed



end
