(* ===== verification/ScanMain.thy ===== *)
theory ScanMain
  imports DumpSource
begin

text \<open>
  The command \<^verbatim>\<open>zhaxx-scan\<close> (\<^verbatim>\<open>main\<close> of \<^verbatim>\<open>src/scan/zhaxx-scan\<close>): the choice of a source, the
  scan, the sorted report, the plan file and the exit status. The options are given as
  \<^verbatim>\<open>argparse\<close> leaves them; directories, \<^verbatim>\<open>zdb\<close> and the files that can be written are arguments.
  Files of \<^verbatim>\<open>--capture\<close> are written by \<open>zdb_get\<close> and not repeated here. The lemmas say what the
  exit status means, when the report fails, and that the plan written is the plan of the scan.
\<close>

subsection \<open>Options and surroundings\<close>

record scan_args =
  a_pool :: "string option"
  a_dumps :: "string option"
  a_zdb :: string
  a_cachefile :: "string option"
  a_exported :: bool
  a_capture :: "string option"
  a_plan :: "string option"
  a_json :: "string option"

text \<open>An option counts when it is given and not empty.\<close>

definition given :: "string option \<Rightarrow> bool" where
  "given x \<longleftrightarrow> x \<noteq> None \<and> x \<noteq> Some []"

text \<open>
  The files of a directory, when it is one; what running a binary with arguments gives, when there
  is such a binary: standard output and standard error, or nothing before the timeout.
\<close>

type_synonym zdb_binary = "string list \<Rightarrow> (string \<times> string) option"

record scan_env =
  e_dirs :: "string \<Rightarrow> (string \<rightharpoonup> string) option"
  e_bin :: "string \<Rightarrow> zdb_binary option"
  e_writable :: "string \<Rightarrow> bool"

datatype py_error = TypeError | RecursionError | OSError

datatype scan_end =
    Exit nat
  | No_zdb string
  | No_directory string
  | Raised py_error

text \<open>The status the process ends with: \<^verbatim>\<open>sys.exit\<close> with a text and an exception both give 1.\<close>

fun exit_status :: "scan_end \<Rightarrow> nat" where
  "exit_status (Exit n) = n"
| "exit_status (No_zdb _) = 1"
| "exit_status (No_directory _) = 1"
| "exit_status (Raised _) = 1"

subsection \<open>The source\<close>

text \<open>\<^verbatim>\<open>subprocess.run\<close> as \<^verbatim>\<open>ZdbSource.get\<close> sees it, on a pool that does not change during the scan.\<close>

definition run_bin :: "(string \<Rightarrow> zdb_binary option) \<Rightarrow> nat \<Rightarrow> string list \<Rightarrow> zdb_result" where
  "run_bin bins n cmd =
    (case bins (hd cmd) of
       None \<Rightarrow> Z_not_found
     | Some b \<Rightarrow> (case b (tl cmd) of None \<Rightarrow> Z_timeout | Some (out, err) \<Rightarrow> Z_output out err))"

definition live_source :: "zdb_binary \<Rightarrow> zdb_source \<Rightarrow> src" where
  "live_source b z n =
    (let ob = O_int (int n) in
     case b (tl (zdb_command z ob)) of
       Some (out, err) \<Rightarrow> parse_obj_dump ob (out @ err)
     | None \<Rightarrow> parse_obj_dump ob timeout_text)"

definition zdb_of_args :: "scan_args \<Rightarrow> zdb_source" where
  "zdb_of_args a =
    \<lparr>z_pool = the (a_pool a), z_zdb = a_zdb a, z_cachefile = a_cachefile a, z_exported = a_exported a,
     z_capture = given (a_capture a)\<rparr>"

definition scan_source :: "scan_env \<Rightarrow> scan_args \<Rightarrow> scan_end + src" where
  "scan_source E a =
    (if given (a_pool a)
     then (case e_bin E (a_zdb a) of
             None \<Rightarrow> Inl (No_zdb (a_zdb a))
           | Some b \<Rightarrow> Inr (live_source b (zdb_of_args a)))
     else (case a_dumps a of
             None \<Rightarrow> Inl (Raised TypeError)
           | Some d \<Rightarrow> (case e_dirs E d of None \<Rightarrow> Inl (No_directory d) | Some dir \<Rightarrow> Inr (dir_source dir))))"

subsection \<open>The report\<close>

fun sev_order :: "severity \<Rightarrow> nat" where
  "sev_order CRITICAL = 0"
| "sev_order WARNING = 1"
| "sev_order INFO = 2"

text \<open>
  The key of the sort is the severity and the object. A number and a text cannot be compared, and
  no sort can place two findings of one severity without a comparison between the numbers and the
  texts among them, so the sort raises exactly when both are there.
\<close>

definition comparable :: "finding \<Rightarrow> finding \<Rightarrow> bool" where
  "comparable f g \<longleftrightarrow> (f_severity f = f_severity g \<longrightarrow>
     (case (f_obj f, f_obj g) of (R_int _, R_str _) \<Rightarrow> False | (R_str _, R_int _) \<Rightarrow> False | _ \<Rightarrow> True))"

definition finding_key :: "finding \<Rightarrow> nat \<times> nat \<times> string" where
  "finding_key f = (sev_order (f_severity f), case f_obj f of R_int n \<Rightarrow> (n, []) | R_str t \<Rightarrow> (0, t))"

definition sorted_findings :: "finding list \<Rightarrow> finding list option" where
  "sorted_findings fs =
    (if list_all (\<lambda>f. list_all (comparable f) fs) fs then Some (sort_key finding_key fs) else None)"

datatype report_line =
    L_title
  | L_consistent
  | L_finding finding
  | L_summary nat nat nat
  | L_operations
  | L_operation string string
  | L_plan_written string

definition report_lines :: "finding list \<Rightarrow> (planned \<times> string) list \<Rightarrow> report_line list" where
  "report_lines fs os =
     [L_title] @ (if fs = [] then [L_consistent] else []) @ map L_finding fs @
     [L_summary (length fs) (length (filter (\<lambda>f. f_severity f = CRITICAL) fs)) (length os)] @
     (if os \<noteq> [] then L_operations # map (\<lambda>(p, c). L_operation (emit_line p) c) os else [])"

subsection \<open>The files and the end\<close>

datatype scan_file = F_plan string | F_json "finding list" "string list"

record scan_result =
  sr_end :: scan_end
  sr_report :: "report_line list"
  sr_files :: "string \<rightharpoonup> scan_file"

definition ends :: "scan_end \<Rightarrow> scan_result" where
  "ends e = \<lparr>sr_end = e, sr_report = [], sr_files = Map.empty\<rparr>"

definition write_json :: "scan_env \<Rightarrow> scan_args \<Rightarrow> finding list \<Rightarrow> (planned \<times> string) list \<Rightarrow>
    scan_result \<Rightarrow> scan_result" where
  "write_json E a fs os r =
    (if given (a_json a)
     then let j = the (a_json a) in
       if e_writable E j then r\<lparr>sr_files := (sr_files r)(j \<mapsto> F_json fs (map (emit_line \<circ> fst) os))\<rparr>
       else r\<lparr>sr_end := Raised OSError\<rparr>
     else r)"

definition outputs :: "scan_env \<Rightarrow> scan_args \<Rightarrow> finding list \<Rightarrow> (planned \<times> string) list \<Rightarrow> scan_result" where
  "outputs E a fs os =
    (let r = \<lparr>sr_end = Exit (if fs \<noteq> [] then 1 else 0), sr_report = report_lines fs os, sr_files = Map.empty\<rparr> in
     if given (a_plan a)
     then let p = the (a_plan a) in
       if e_writable E p
       then write_json E a fs os
              (r\<lparr>sr_files := [p \<mapsto> F_plan (write_plan (plan_of os))], sr_report := sr_report r @ [L_plan_written p]\<rparr>)
       else r\<lparr>sr_end := Raised OSError\<rparr>
     else write_json E a fs os r)"

definition scan_main :: "nat \<Rightarrow> scan_env \<Rightarrow> scan_args \<Rightarrow> scan_result" where
  "scan_main depth E a =
    (case scan_source E a of
       Inl e \<Rightarrow> ends e
     | Inr s \<Rightarrow>
         (case run depth s of
            None \<Rightarrow> ends (Raised RecursionError)
          | Some sc \<Rightarrow>
              (case sorted_findings (findings sc) of
                 None \<Rightarrow> ends (Raised TypeError)
               | Some fs \<Rightarrow> outputs E a fs (dedupe_ops (ops sc)))))"

subsection \<open>Lemmas\<close>

text \<open>A live pool gives the checks the function \<open>live_source\<close>, or there is no \<^verbatim>\<open>zdb\<close> at the first request.\<close>

lemma zdb_command_hd: "hd (zdb_command z ob) = z_zdb z"
  by (simp add: zdb_command_def)

lemma live_get:
  assumes "bins (z_zdb z) = Some b" "\<forall>x d. s_cache st (ref_obj x) = Some d \<longrightarrow> d = get (live_source b z) x"
  shows "\<exists>st'. zdb_get (run_bin bins) z (ref_obj x) st = Some (get (live_source b z) x, st') \<and>
    (\<forall>y d. s_cache st' (ref_obj y) = Some d \<longrightarrow> d = get (live_source b z) y)"
proof -
  have "ref_obj y = ref_obj x \<longleftrightarrow> y = x" for y by (cases x; cases y) auto
  note inject = this
  show ?thesis
  proof (cases "s_cache st (ref_obj x)")
    case None
    with assms inject show ?thesis
      by (cases x)
        (auto simp: zdb_get_def run_bin_def zdb_command_hd live_source_def parse_text Let_def split: option.splits)
  next
    case (Some d)
    have "d = get (live_source b z) x" by (rule assms(2) [rule_format, OF Some])
    with Some have "zdb_get (run_bin bins) z (ref_obj x) st = Some (get (live_source b z) x, st)"
      by (simp only: zdb_get_def option.case)
    with assms(2) show ?thesis by blast
  qed
qed

lemma live_answers:
  assumes "bins (z_zdb z) = Some b"
  shows "\<exists>st. gets (zdb_get (run_bin bins) z) (map ref_obj xs) source_init = Some (map (get (live_source b z)) xs, st)"
proof -
  have "\<exists>st'. gets (zdb_get (run_bin bins) z) (map ref_obj xs) st = Some (map (get (live_source b z)) xs, st')"
    if "\<forall>x d. s_cache st (ref_obj x) = Some d \<longrightarrow> d = get (live_source b z) x" for st
    using that
  proof (induction xs arbitrary: st)
    case (Cons x xs)
    obtain st1 where st1: "zdb_get (run_bin bins) z (ref_obj x) st = Some (get (live_source b z) x, st1)"
      "\<forall>y d. s_cache st1 (ref_obj y) = Some d \<longrightarrow> d = get (live_source b z) y"
      using live_get [of bins z b st x, OF assms Cons.prems] by blast
    from Cons.IH [OF st1(2)] st1(1) show ?case by auto
  qed simp
  then show ?thesis by (simp add: source_init_def)
qed

lemma live_no_zdb: "bins (z_zdb z) = None \<Longrightarrow> zdb_get (run_bin bins) z ob source_init = None"
  by (simp add: zdb_get_def run_bin_def zdb_command_hd source_init_def)

text \<open>Where a run ends.\<close>

definition can_write :: "scan_env \<Rightarrow> scan_args \<Rightarrow> bool" where
  "can_write E a \<longleftrightarrow>
     (given (a_plan a) \<longrightarrow> e_writable E (the (a_plan a))) \<and> (given (a_json a) \<longrightarrow> e_writable E (the (a_json a)))"

lemma outputs_end:
  "sr_end (outputs E a fs os) = (if can_write E a then Exit (if fs \<noteq> [] then 1 else 0) else Raised OSError)"
  by (simp add: outputs_def write_json_def can_write_def Let_def)

lemma sorted_findings_Some:
  assumes "sorted_findings fs = Some gs"
  shows "set gs = set fs" "length gs = length fs" "sorted (map finding_key gs)" "gs = [] \<longleftrightarrow> fs = []"
proof -
  have gs: "gs = sort_key finding_key fs" using assms by (auto simp: sorted_findings_def split: if_splits)
  show "set gs = set fs" "length gs = length fs" "sorted (map finding_key gs)" by (simp_all add: gs)
  then show "gs = [] \<longleftrightarrow> fs = []" by auto
qed

lemma scan_main_Exit:
  assumes "sr_end (scan_main depth E a) = Exit n"
  obtains s sc fs where "scan_source E a = Inr s" "run depth s = Some sc" "sorted_findings (findings sc) = Some fs"
    "can_write E a" "n = (if fs \<noteq> [] then 1 else 0)" "scan_main depth E a = outputs E a fs (dedupe_ops (ops sc))"
proof -
  have end_source: "e \<noteq> Exit n" if "scan_source E a = Inl e" for e
    using that by (auto simp: scan_source_def split: if_splits option.splits)
  from assms show thesis
    using that end_source
    by (auto simp: scan_main_def ends_def outputs_end split: sum.splits option.splits if_splits)
qed

text \<open>The plan file holds the plan of the scan.\<close>

lemma outputs_plan:
  assumes "can_write E a" "given (a_plan a)" "a_json a \<noteq> a_plan a"
  shows "sr_files (outputs E a fs os) (the (a_plan a)) = Some (F_plan (write_plan (plan_of os)))"
proof -
  obtain p where p: "a_plan a = Some p" using assms(2) by (auto simp: given_def)
  then show ?thesis
    using assms by (cases "a_json a") (auto simp: outputs_def write_json_def can_write_def given_def Let_def)
qed

lemma scan_main_plan:
  assumes "sr_end (scan_main depth E a) = Exit n" "scan_source E a = Inr s" "run depth s = Some sc"
    and "a_plan a = Some p" "p \<noteq> []" "a_json a \<noteq> a_plan a"
  shows "sr_files (scan_main depth E a) p = Some (F_plan (write_plan (plan_of (dedupe_ops (ops sc)))))"
proof -
  obtain s' sc' fs where s': "scan_source E a = Inr s'" "run depth s' = Some sc'" "can_write E a"
    and main: "scan_main depth E a = outputs E a fs (dedupe_ops (ops sc'))"
    by (rule scan_main_Exit [OF assms(1)])
  have "sc' = sc" using s'(1,2) assms(2,3) by simp
  then show ?thesis
    using outputs_plan [OF s'(3) _ assms(6), of fs "dedupe_ops (ops sc)"] assms(4,5)
    by (simp add: main given_def)
qed

text \<open>A directory with a field that is not a number, and a child entry that leads nowhere.\<close>

lemma dir_source_files:
  "dir_source (map_of (map (\<lambda>(n, t). (dump_name (O_int (int n)), t)) fs)) =
     source_of (map (\<lambda>(n, t). (n, parse_obj_dump (O_int (int n)) t)) fs)"
proof
  fix n
  show "dir_source (map_of (map (\<lambda>(n, t). (dump_name (O_int (int n)), t)) fs)) n =
     source_of (map (\<lambda>(n, t). (n, parse_obj_dump (O_int (int n)) t)) fs) n"
    by (induction fs) (auto simp: dir_source_def source_of_def parse_nothing dump_name_inject split: option.splits)
qed

definition text_field_files :: "(nat \<times> string) list" where
  "text_field_files =
    [(1, render 1 ''object directory'' [(''root_dataset'', [32])] False),
     (32, render 32 ''DSL directory'' [(''child_dir_zapobj'', [34])] False @ kv_line ''head_dataset_obj'' ''none'' @ [NL]),
     (34, render 34 ''DSL directory child map'' [(''data'', [1792])] False)]"

definition text_field_dumps :: "(nat \<times> obj_dump) list" where
  "text_field_dumps =
    [(1, meant ''object directory'' [(''root_dataset'', [32])]),
     (32, (meant ''DSL directory'' [(''child_dir_zapobj'', [34])])
        \<lparr>od_fields := [(''child_dir_zapobj'', R_int 34), (''head_dataset_obj'', R_str ''none'')]\<rparr>),
     (34, meant ''DSL directory child map'' [(''data'', [1792])])]"

lemma text_field_32:
  "parse_obj_dump (O_int 32) (render 32 ''DSL directory'' [(''child_dir_zapobj'', [34])] False @
      kv_line ''head_dataset_obj'' ''none'' @ [NL]) =
    (meant ''DSL directory'' [(''child_dir_zapobj'', [34])])
      \<lparr>od_fields := [(''child_dir_zapobj'', R_int 34), (''head_dataset_obj'', R_str ''none'')]\<rparr>"
  by code_simp

lemma printed_fit_parse:
  "printed_fit (t, kv, False) \<Longrightarrow> parse_obj_dump (O_int (int n)) (render n t kv False) = meant t kv"
  by (simp add: printed_fit_def parse_printed entry_calm_fit)

lemma text_field_parsed: "map (\<lambda>(n, t). (n, parse_obj_dump (O_int (int n)) t)) text_field_files = text_field_dumps"
proof -
  have "printed_fit (''object directory'', [(''root_dataset'', [32])], False)"
    "printed_fit (''DSL directory child map'', [(''data'', [1792])], False)"
    by code_simp+
  from printed_fit_parse [OF this(1), of 1] printed_fit_parse [OF this(2), of 34] show ?thesis
    unfolding text_field_files_def text_field_dumps_def using text_field_32
    by (simp only: list.map prod.case of_nat_numeral of_nat_1)
qed

definition scan_dumps :: "scan_args" where
  "scan_dumps =
    \<lparr>a_pool = None, a_dumps = Some ''capture'', a_zdb = ''zdb'', a_cachefile = None, a_exported = False,
     a_capture = None, a_plan = Some ''repair.plan'', a_json = None\<rparr>"

definition dumps_env :: "(string \<rightharpoonup> string) \<Rightarrow> scan_env" where
  "dumps_env dir = \<lparr>e_dirs = [''capture'' \<mapsto> dir], e_bin = \<lambda>_. None, e_writable = \<lambda>_. True\<rparr>"

lemma scan_dumps_source: "scan_source (dumps_env dir) scan_dumps = Inr (dir_source dir)"
  by (simp add: scan_source_def scan_dumps_def dumps_env_def given_def)

text \<open>A pool in order.\<close>

definition healthy_objs :: "(nat \<times> printed) list" where
  "healthy_objs =
    [(1, ''object directory'', [(''root_dataset'', [32])], False),
     (32, ''DSL directory'', [(''head_dataset_obj'', [55]), (''child_dir_zapobj'', [34])], False),
     (34, ''DSL directory child map'', [(''$MOS'', [35]), (''data'', [1792])], False),
     (55, ''DSL dataset'', [(''prev_snap_obj'', [0])], False),
     (1792, ''DSL directory'', [(''head_dataset_obj'', [1793])], False),
     (1793, ''DSL dataset'', [], False)]"

lemma healthy_files:
  "dir_source (render_dir healthy_objs) = source_of (map (\<lambda>(n, p). (n, printed_dump p)) healthy_objs)"
proof (rule dir_source_render)
  show "list_all (\<lambda>(n, p). printed_fit p) healthy_objs" by code_simp
qed

lemma healthy_scan:
  "scan_main 3 (dumps_env (render_dir healthy_objs)) scan_dumps =
    (case run 3 (source_of (map (\<lambda>(n, p). (n, printed_dump p)) healthy_objs)) of
       None \<Rightarrow> ends (Raised RecursionError)
     | Some sc \<Rightarrow>
         (case sorted_findings (findings sc) of
            None \<Rightarrow> ends (Raised TypeError)
          | Some fs \<Rightarrow> outputs (dumps_env Map.empty) scan_dumps fs (dedupe_ops (ops sc))))"
proof -
  have "outputs (dumps_env dir) scan_dumps = outputs (dumps_env Map.empty) scan_dumps" for dir
    by (intro ext) (simp add: outputs_def write_json_def scan_dumps_def dumps_env_def given_def)
  from this [of "render_dir healthy_objs"] show ?thesis
    by (simp add: scan_main_def scan_dumps_source healthy_files cong: option.case_cong)
qed

text \<open>The scan of the first fixture from its files.\<close>

lemma scenario_a_sorted: "map_option (\<lambda>st. sorted_findings (findings st) = None) (run 5 scenario_a) = Some False"
  by code_simp

lemma scenario_a_exits:
  "\<exists>n. sr_end (scan_main 5 (dumps_env (render_dir scenario_a_objs)) scan_dumps) = Exit n"
proof -
  obtain st fs where "run 5 scenario_a = Some st" "sorted_findings (findings st) = Some fs"
    using scenario_a_sorted by auto
  then have "scan_main 5 (dumps_env (render_dir scenario_a_objs)) scan_dumps =
      outputs (dumps_env (render_dir scenario_a_objs)) scan_dumps fs (dedupe_ops (ops st))"
    by (simp add: scan_main_def scan_dumps_source scenario_a_files)
  moreover have "can_write (dumps_env dir) scan_dumps" for dir by (simp add: can_write_def dumps_env_def)
  ultimately show ?thesis by (simp add: outputs_end)
qed

subsection \<open>Properties\<close>




text \<open>
  C20: a text among the objects of findings loses the report. When two findings of one severity are
  about a number and about a text that stands for one, the sort raises: nothing is printed and no
  plan is written, although the scan had been completed.
\<close>

theorem mixed_findings_raise:
  assumes "scan_source E a = Inr s" "run depth s = Some sc" "f \<in> set (findings sc)" "g \<in> set (findings sc)"
    and "f_severity f = f_severity g" "f_obj f = R_int n" "f_obj g = R_str t"
  shows "scan_main depth E a = ends (Raised TypeError)"
proof -
  have "\<not> comparable f g" using assms(5-7) by (simp add: comparable_def)
  then have "sorted_findings (findings sc) = None" using assms(3,4) by (auto simp: sorted_findings_def list_all_iff)
  then show ?thesis using assms(1,2) by (simp add: scan_main_def)
qed

theorem mixed_findings_raise_witness:
  "scan_main 5 (dumps_env (map_of (map (\<lambda>(n, t). (dump_name (O_int (int n)), t)) text_field_files))) scan_dumps =
     ends (Raised TypeError)"
proof -
  have "map_option findings (run 5 (source_of text_field_dumps)) =
    Some [\<lparr>f_severity = CRITICAL, f_obj = R_str ''none'', f_message = M_ds_missing (R_str ''none'') ''<root>@head''\<rparr>,
      \<lparr>f_severity = CRITICAL, f_obj = R_int 34, f_message = M_child_dangling ''data'' 1792 ''<root>''\<rparr>]"
    by code_simp
  then obtain sc where sc: "run 5 (source_of text_field_dumps) = Some sc"
    "findings sc = [\<lparr>f_severity = CRITICAL, f_obj = R_str ''none'', f_message = M_ds_missing (R_str ''none'') ''<root>@head''\<rparr>,
      \<lparr>f_severity = CRITICAL, f_obj = R_int 34, f_message = M_child_dangling ''data'' 1792 ''<root>''\<rparr>]"
    by auto
  have run: "run 5 (dir_source (map_of (map (\<lambda>(n, t). (dump_name (O_int (int n)), t)) text_field_files))) = Some sc"
    by (simp add: dir_source_files text_field_parsed sc(1))
  show ?thesis
    using mixed_findings_raise [OF scan_dumps_source run, of "findings sc ! 1" "findings sc ! 0" 34 "''none''"]
    by (simp add: sc(2))
qed

end
