(* ===== verification/ScanLocal.thy ===== *)
theory ScanLocal
  imports ScanMain
begin

text \<open>
  What a scan can depend on. An object mentions others by the numbers in its fields and tables, by
  the words of its arrays and by the names of its entries that are hexadecimal numbers. The locale
  \<open>view_agrees\<close> compares two sources that agree on a set of objects with the object directory in it
  and with everything its objects mention; every check of the scanner gives the same result on
  both. So a scan depends on the objects reachable from the object directory only, and a capture
  that holds those gives the scan of the live pool.
\<close>

subsection \<open>Mentioned objects\<close>

definition field_nums :: "obj_dump \<Rightarrow> nat list" where
  "field_nums d = concat (map (\<lambda>(k, r). case r of R_int n \<Rightarrow> [n] | R_str _ \<Rightarrow> []) (od_fields d))"

definition key_nums :: "obj_dump \<Rightarrow> nat list" where
  "key_nums d = concat (map (\<lambda>(k, n). case py_int16 k of None \<Rightarrow> [] | Some i \<Rightarrow> [nat i]) (od_zap d))"

definition mentions :: "obj_dump \<Rightarrow> nat list" where
  "mentions d = field_nums d @ key_nums d @ map snd (od_zap d) @ concat (map snd (od_zap_multi d))"

definition closed_view :: "src \<Rightarrow> nat set \<Rightarrow> bool" where
  "closed_view s A \<longleftrightarrow> MOS_DIR_OBJ \<in> A \<and> (\<forall>n \<in> A. set (mentions (s n)) \<subseteq> A)"

subsection \<open>Two sources that agree\<close>

locale view_agrees =
  fixes s t :: src and A :: "nat set"
  assumes closed: "closed_view s A"
    and agree: "n \<in> A \<Longrightarrow> t n = s n"
begin

definition ref_in :: "ref \<Rightarrow> bool" where
  "ref_in r \<longleftrightarrow> (case r of R_int n \<Rightarrow> n \<in> A | R_str _ \<Rightarrow> True)"

definition known :: "obj_dump \<Rightarrow> bool" where
  "known d \<longleftrightarrow> set (mentions d) \<subseteq> A"

lemma ref_in_simps [simp]: "ref_in (R_int n) \<longleftrightarrow> n \<in> A" "ref_in (R_str x)"
  by (simp_all add: ref_in_def)

lemma known_at: "n \<in> A \<Longrightarrow> known (s n)"
  using closed by (simp add: closed_view_def known_def)

lemma known_get: "ref_in r \<Longrightarrow> known (get s r)"
  by (cases r) (simp_all add: known_at, simp add: known_def mentions_def field_nums_def key_nums_def missing_def)

lemma get_same: "ref_in r \<Longrightarrow> get t r = get s r"
  by (cases r) (simp_all add: agree)

lemma known_field:
  assumes "known d" "truthy (field d f)"
  shows "ref_in (field d f)"
proof (cases "field d f")
  case (R_int n)
  then have "(f, R_int n) \<in> set (od_fields d)"
    using assms(2) by (auto simp: field_def dest: map_of_SomeD split: option.splits)
  then have "n \<in> set (field_nums d)" by (force simp: field_nums_def)
  with assms(1) R_int show ?thesis by (auto simp: known_def mentions_def)
qed simp

lemma known_zap: "known d \<Longrightarrow> (k, n) \<in> set (od_zap d) \<Longrightarrow> n \<in> A"
  by (force simp: known_def mentions_def)

lemma known_zap_get: "known d \<Longrightarrow> zap_get d k \<noteq> 0 \<Longrightarrow> zap_get d k \<in> A"
  by (auto simp: zap_get_def split: option.splits dest: map_of_SomeD known_zap)

lemma known_key:
  assumes "known d" "(k, n) \<in> set (od_zap d)" "py_int16 k = Some i"
  shows "nat i \<in> A"
proof -
  have "nat i \<in> set (key_nums d)" using assms(2,3) by (force simp: key_nums_def)
  with assms(1) show ?thesis by (auto simp: known_def mentions_def)
qed

lemma get_int_same: "nat i \<in> A \<Longrightarrow> get_int t i = get_int s i"
  by (simp add: get_int_def agree)

text \<open>Error logs and the scan cursor.\<close>

lemma stale_entries_same: "known d \<Longrightarrow> stale_entries t d = stale_entries s d"
  unfolding stale_entries_def
  by (intro arg_cong [of _ _ concat] map_cong refl) (auto simp: get_int_same known_key split: option.splits)

lemma stale_entries_known: "known d \<Longrightarrow> (key, objset, per, ex) \<in> set (stale_entries s d) \<Longrightarrow> per \<in> A"
  by (auto simp: stale_entries_def Let_def known_zap split: option.splits if_splits)

lemma check_errlog_head_same:
  assumes "h \<noteq> 0 \<Longrightarrow> h \<in> A"
  shows "check_errlog_head t name h st = check_errlog_head s name h st"
proof (cases "h = 0")
  case False
  then have h: "h \<in> A" using assms by blast
  have "fold (free_per_objset t) (stale_entries s (s h)) st' = fold (free_per_objset s) (stale_entries s (s h)) st'" for st'
    by (rule fold_cong)
      (auto simp: free_per_objset_def agree stale_entries_known [OF known_at [OF h]] fun_eq_iff)
  with h show ?thesis
    by (simp add: check_errlog_head_def agree stale_entries_same known_at Let_def)
qed (simp add: check_errlog_head_def)

lemma check_errlog_same: "known d \<Longrightarrow> check_errlog t d st = check_errlog s d st"
  by (simp add: check_errlog_def check_errlog_head_same known_zap_get)

lemma word_known:
  assumes "known d" "scan_entry d = Some ws" "word_at ws i \<noteq> 0"
  shows "word_at ws i \<in> A"
proof -
  have "word_at ws i \<in> set ws" using assms(3) by (auto simp: word_at_def split: if_splits)
  moreover have "set ws \<subseteq> set (mentions d)"
    using assms(2)
    by (auto simp: scan_entry_def mentions_def split: option.splits dest!: map_of_SomeD) force+
  ultimately show ?thesis using assms(1) by (auto simp: known_def)
qed

lemma check_scan_same: "known d \<Longrightarrow> check_scan t d st = check_scan s d st"
  by (auto simp: check_scan_def Let_def agree word_known split: option.splits)

text \<open>Clone lists and orphans.\<close>

lemma clones_loop_same:
  "snd ` set es \<subseteq> A \<Longrightarrow> clones_loop t z path es n st = clones_loop s z path es n st"
proof (induction es arbitrary: n st)
  case (Cons e es)
  then show ?case by (cases e) (simp add: clone_ok_def clone_why_def agree Let_def)
qed simp

lemma check_clones_zap_same:
  assumes "ref_in r"
  shows "check_clones_zap t r path st = check_clones_zap s r path st"
proof -
  have "snd ` set (sort (od_zap (get s r))) \<subseteq> A" using known_zap [OF known_get [OF assms]] by auto
  then show ?thesis by (simp add: check_clones_zap_def get_same assms clones_loop_same Let_def)
qed

lemma remove_refs_same: "ref_in r \<Longrightarrow> remove_refs t r x c e st = remove_refs s r x c e st"
  by (simp add: remove_refs_def get_same)

lemma remove_from_namespace_same:
  assumes "known d"
  shows "remove_from_namespace t d n st = remove_from_namespace s d n st"
  using known_field [OF assms]
  by (simp add: remove_from_namespace_def get_same remove_refs_same known_field known_get Let_def)

lemma remove_clone_refs_same:
  assumes "known d"
  shows "remove_clone_refs t d r st = remove_clone_refs s d r st"
  using known_field [OF assms]
  by (simp add: remove_clone_refs_def remove_from_next_clones_def remove_from_dd_clones_def get_same
      remove_refs_same known_field known_get Let_def)

lemma free_structure_same: "(truthy r \<Longrightarrow> ref_in r) \<Longrightarrow> free_structure t path r st = free_structure s path r st"
  by (auto simp: free_structure_def get_same Let_def)

lemma plan_orphan_removal_same:
  assumes "ref_in r" "\<And>n. dir = Some n \<Longrightarrow> n \<in> A"
  shows "plan_orphan_removal t r dir path st = plan_orphan_removal s r dir path st"
proof (cases dir)
  case (Some n)
  then have n: "n \<in> A" using assms(2) by blast
  have "fold (free_structure t path) (orphan_subtree s (s n) n r) st' =
      fold (free_structure s path) (orphan_subtree s (s n) n r) st'" for st'
    by (rule fold_cong)
      (auto simp: orphan_subtree_def fun_eq_iff n assms(1)
        intro!: free_structure_same known_field known_at known_get)
  with n assms(1) show ?thesis
    by (simp add: plan_orphan_removal_def Some agree orphan_subtree_def get_same
        remove_clone_refs_same remove_from_namespace_same known_at Let_def)
qed (simp add: plan_orphan_removal_def)

text \<open>Datasets and the walk.\<close>

lemma check_dataset_same:
  assumes "ref_in r" "\<And>n. dir = Some n \<Longrightarrow> n \<in> A"
  shows "check_dataset t r path dir st = check_dataset s r path dir st"
proof -
  note field_in = known_field [OF known_get [OF assms(1)]]
  have "check_next_clones t r path (get s r) st = check_next_clones s r path (get s r) st" for st
    using field_in by (simp add: check_next_clones_def check_clones_zap_same Let_def)
  moreover have "check_prev t r path (get s r) st = check_prev s r path (get s r) st" for st
    using field_in by (auto simp: check_prev_def get_same Let_def)
  moreover have "check_ref t r path (get s r) f st = check_ref s r path (get s r) f st" for f st
    using field_in by (auto simp: check_ref_def get_same Let_def)
  ultimately show ?thesis
    by (simp add: check_dataset_def get_same assms plan_orphan_removal_same Let_def)
qed

lemma childmap_loop_same:
  assumes "\<And>n p st. n \<in> A \<Longrightarrow> w' n p st = w n p st"
  shows "snd ` set es \<subseteq> A \<Longrightarrow> childmap_loop w' t z path es st = childmap_loop w s z path es st"
proof (induction es arbitrary: st)
  case (Cons e es)
  then have "(\<lambda>st. childmap_loop w' t z path es st) = childmap_loop w s z path es" by auto
  with Cons.prems show ?case by (cases e) (simp add: assms agree Let_def)
qed simp

lemma walk_same: "n \<in> A \<Longrightarrow> walk_dsl_dir depth t n path st = walk_dsl_dir depth s n path st"
proof (induction depth arbitrary: n path st)
  case (Suc depth)
  note known = known_at [OF Suc.prems]
  have head: "check_head t (s n) n path st = check_head s (s n) n path st" for st
    using known_field [OF known, of "''head_dataset_obj''"] Suc.prems
    by (auto simp: check_head_def Let_def intro: check_dataset_same)
  have children: "check_children (walk_dsl_dir depth t) t (s n) path st =
      check_children (walk_dsl_dir depth s) s (s n) path st" for st
  proof -
    have "childmap_loop (walk_dsl_dir depth t) t r path (sort (od_zap (get s r))) st =
        childmap_loop (walk_dsl_dir depth s) s r path (sort (od_zap (get s r))) st" if "ref_in r" for r
      using known_zap [OF known_get [OF that]] by (intro childmap_loop_same Suc.IH) auto
    then show ?thesis
      using known_field [OF known] by (simp add: check_children_def check_childmap_def get_same Let_def)
  qed
  have clones: "check_dd_clones t (s n) path = check_dd_clones s (s n) path"
    using known_field [OF known] by (simp add: check_dd_clones_def check_clones_zap_same Let_def fun_eq_iff)
  show ?case
    using Suc.prems by (simp add: agree head children clones Let_def)
qed simp

lemma run_same: "run depth t = run depth s"
proof -
  have one: "MOS_DIR_OBJ \<in> A" using closed by (simp add: closed_view_def)
  note known = known_at [OF one]
  show ?thesis
    using known_zap_get [OF known]
    by (simp add: run_def agree one check_errlog_same check_scan_same known walk_same Let_def)
qed

end

subsection \<open>Captures\<close>

text \<open>What \<^verbatim>\<open>zdb\<close> prints for an object of a live pool, and what \<^verbatim>\<open>--capture\<close> writes.\<close>

definition live_text :: "zdb_binary \<Rightarrow> zdb_source \<Rightarrow> nat \<Rightarrow> string" where
  "live_text b z n =
    (case b (tl (zdb_command z (O_int (int n)))) of Some (out, err) \<Rightarrow> out @ err | None \<Rightarrow> timeout_text)"

lemma live_source_text: "live_source b z n = parse_obj_dump (O_int (int n)) (live_text b z n)"
  by (auto simp: live_source_def live_text_def Let_def split: option.splits)

lemma live_captures:
  assumes "bins (z_zdb z) = Some b" "z_capture z" "s_cache st (O_int (int n)) = None"
    and "zdb_get (run_bin bins) z (O_int (int n)) st = Some (d, st')"
  shows "s_files st' (dump_name (O_int (int n))) = Some (live_text b z n)"
  using assms by (auto simp: zdb_get_def run_bin_def zdb_command_hd live_text_def Let_def split: option.splits)

text \<open>The first fixture as a live pool, and its capture: what can be reached, a file for each.\<close>

definition tank_zdb :: zdb_binary where
  "tank_zdb args =
    Some (case render_dir scenario_a_objs (''obj_'' @ last args @ ''.txt'') of Some t \<Rightarrow> t | None \<Rightarrow> [], [])"

definition reachable_a :: "nat list" where
  "reachable_a = remdups (1 # concat (map (\<lambda>(n, d). n # mentions d) scenario_a_dumps))"

definition capture_dir :: "zdb_binary \<Rightarrow> zdb_source \<Rightarrow> nat list \<Rightarrow> string \<rightharpoonup> string" where
  "capture_dir b z ns = map_of (map (\<lambda>n. (dump_name (O_int (int n)), live_text b z n)) ns)"

lemma capture_dir_at: "n \<in> set ns \<Longrightarrow> capture_dir b z ns (dump_name (O_int (int n))) = Some (live_text b z n)"
  by (induction ns) (auto simp: capture_dir_def dump_name_inject)

lemma tank_zdb_source: "live_source tank_zdb z = scenario_a"
proof
  fix n
  have "last (tl (zdb_command z (O_int (int n)))) = shown (O_int (int n))" by (simp add: zdb_command_def)
  then have "live_source tank_zdb z n = dir_source (render_dir scenario_a_objs) n"
    by (simp add: live_source_text live_text_def tank_zdb_def dir_source_def dump_name_def split: option.splits)
  then show "live_source tank_zdb z n = scenario_a n" by (simp add: scenario_a_files)
qed

lemma scenario_a_closed: "closed_view scenario_a (set reachable_a)"
proof -
  have "list_all (\<lambda>n. list_all (\<lambda>m. m \<in> set reachable_a) (mentions (scenario_a n))) reachable_a"
    "MOS_DIR_OBJ \<in> set reachable_a"
    by code_simp+
  then show ?thesis by (auto simp: closed_view_def list_all_iff)
qed

definition captured_env :: scan_env where
  "captured_env =
    \<lparr>e_dirs = [''capture'' \<mapsto> capture_dir tank_zdb (zdb_of_args (scan_dumps\<lparr>a_pool := Some ''tank'', a_dumps := None\<rparr>)) reachable_a],
     e_bin = [''zdb'' \<mapsto> tank_zdb], e_writable = \<lambda>_. True\<rparr>"

interpretation capture_a: view_agrees scenario_a "dir_source (capture_dir tank_zdb live_tank reachable_a)" "set reachable_a"
  using scenario_a_closed tank_zdb_source [of live_tank]
  by unfold_locales (simp_all add: dir_source_def capture_dir_at flip: live_source_text)

subsection \<open>Properties\<close>

text \<open>
  C17: a scan depends only on what can be reached. Two sources that agree on a set of objects,
  which holds the object directory and everything that its members mention, give the same
  findings and the same plan, whatever the dumps of all other objects say.
\<close>

theorem scan_sees_reachable:
  assumes "closed_view s A" "\<forall>n \<in> A. t n = s n"
  shows "run depth t = run depth s"
proof (rule view_agrees.run_same)
  show "view_agrees s t A" using assms by unfold_locales auto
qed

theorem scan_sees_reachable_witness:
  "run 5 (scenario_a(5000 := meant ''DSL directory'' [(''head_dataset_obj'', [5001])])) = run 5 scenario_a"
proof (rule scan_sees_reachable [OF scenario_a_closed])
  have "5000 \<notin> set reachable_a" by code_simp
  then show "\<forall>n \<in> set reachable_a.
      (scenario_a(5000 := meant ''DSL directory'' [(''head_dataset_obj'', [5001])])) n = scenario_a n"
    by auto
qed

text \<open>
  C16: a complete capture is as good as the pool. When the files of a dump directory are what
  \<^verbatim>\<open>zdb\<close> prints for every object that can be reached from the object directory, then
  \<^verbatim>\<open>zhaxx-scan --dumps\<close> ends like \<^verbatim>\<open>zhaxx-scan --pool\<close>, with the same report, the same plan and
  the same status; files of other objects may be there or not.
\<close>

theorem complete_capture_same_scan:
  assumes "given (a_pool a)" "e_bin E (a_zdb a) = Some b" "e_dirs E d = Some dir"
    and "closed_view (live_source b (zdb_of_args a)) A"
    and "\<forall>n \<in> A. dir (dump_name (O_int (int n))) = Some (live_text b (zdb_of_args a) n)"
  shows "scan_main depth E (a\<lparr>a_pool := None, a_dumps := Some d\<rparr>) = scan_main depth E a"
proof -
  let ?a = "a\<lparr>a_pool := None, a_dumps := Some d\<rparr>" and ?live = "live_source b (zdb_of_args a)"
  have "view_agrees ?live (dir_source dir) A"
    using assms(4,5) by unfold_locales (simp_all add: dir_source_def live_source_text)
  then have run: "run depth (dir_source dir) = run depth ?live" by (rule view_agrees.run_same)
  have "scan_source E ?a = Inr (dir_source dir)" "scan_source E a = Inr ?live"
    using assms(1-3) by (simp_all add: scan_source_def given_def)
  moreover have "outputs E ?a = outputs E a"
    by (intro ext) (simp add: outputs_def write_json_def Let_def)
  ultimately show ?thesis by (simp add: scan_main_def run cong: option.case_cong)
qed

theorem complete_capture_same_scan_witness:
  "scan_main 5 captured_env scan_dumps = scan_main 5 captured_env (scan_dumps\<lparr>a_pool := Some ''tank'', a_dumps := None\<rparr>)"
proof -
  let ?a = "scan_dumps\<lparr>a_pool := Some ''tank'', a_dumps := None\<rparr>"
  have "scan_dumps = ?a\<lparr>a_pool := None, a_dumps := Some ''capture''\<rparr>" by (simp add: scan_dumps_def)
  moreover have "scan_main 5 captured_env (?a\<lparr>a_pool := None, a_dumps := Some ''capture''\<rparr>) = scan_main 5 captured_env ?a"
  proof (rule complete_capture_same_scan)
    show "given (a_pool ?a)" by (simp add: given_def)
    show "e_bin captured_env (a_zdb ?a) = Some tank_zdb" by (simp add: captured_env_def scan_dumps_def)
    show "e_dirs captured_env ''capture'' = Some (capture_dir tank_zdb (zdb_of_args ?a) reachable_a)"
      by (simp add: captured_env_def zdb_of_args_def)
    show "closed_view (live_source tank_zdb (zdb_of_args ?a)) (set reachable_a)"
      by (simp only: tank_zdb_source scenario_a_closed)
  qed (simp add: capture_dir_at)
  ultimately show ?thesis by simp
qed

end
