(* ===== verification/Rescan.thy ===== *)
theory Rescan
  imports MainRun ScanLocal
begin

text \<open>
  Scan, repair, scan again. The locale \<open>rescan_describes\<close> adds to \<open>dumps_describe\<close> that the words
  of the scan cursor are shown as they are and that an object without a header is shown as
  nothing, which \<open>parse_obj_dump\<close> provides. Under it an operation whose goal is reached is not
  observed any more, so a second scan does not plan again what a completed run has done. The
  fixture is repaired and scanned again as an example.
\<close>

subsection \<open>Dumps after a repair\<close>

lemma unat_of_nat_eq_64: "n < 2 ^ 64 \<Longrightarrow> unat (of_nat n :: u64) = n"
  by (simp add: unat_of_nat take_bit_nat_eq_self)

text \<open>An object that the operation works on is shown with an I/O error.\<close>

fun on_error :: "src \<Rightarrow> planned \<Rightarrow> bool" where
  "on_error s (P_zap_remove ob k v) \<longleftrightarrow> od_exists (s ob) \<and> od_unreadable (s ob)"
| "on_error s (P_free ob ty) \<longleftrightarrow> od_exists (s ob) \<and> od_unreadable (s ob)"
| "on_error s p \<longleftrightarrow> False"

locale rescan_describes = dumps_describe +
  assumes shown_words:
      "readable (s MOS_DIR_OBJ) \<Longrightarrow> (''scan'', ws) \<in> set (od_zap_multi (s MOS_DIR_OBJ)) \<Longrightarrow>
         zap_lookup Z mos (of_nat MOS_DIR_OBJ) ''scan'' SCAN_WORDS = (0, map of_nat ws)"
    and shown_dump: "wf_dump (s ob)"
begin

lemma shown_readable: "\<not> (od_exists (s ob) \<and> od_unreadable (s ob)) \<Longrightarrow> s ob \<noteq> missing \<Longrightarrow> readable (s ob)"
  using shown_dump [of ob] by (auto simp: wf_dump_def readable_def split: if_splits)

text \<open>What has been done is not seen again.\<close>

lemma done_not_observed:
  assumes "op_post Z mos (intended p)" "emit_ok p" "\<not> on_error s p"
  shows "\<not> observed s p"
proof
  assume seen: "observed s p"
  show False
  proof (cases p)
    case (P_zap_set ob name ex v)
    then have "of_nat ex = (0 :: u64)"
      using seen assms(1) shown_entry [of MOS_DIR_OBJ name ex] by (auto simp: op_post_def op_zero_def)
    moreover have "ex < 2 ^ 64" "ex \<noteq> 0" using seen assms(2) P_zap_set by auto
    ultimately show False by (metis unat_of_nat_eq_64 unat_0)
  next
    case (P_zap_zero ob name c)
    then obtain ws where ws: "zap_lookup Z mos (of_nat MOS_DIR_OBJ) ''scan'' SCAN_WORDS = (0, map of_nat ws)"
        "word_at ws 1 = DSS_SCANNING"
      using seen shown_words by auto
    then have "map of_nat ws = replicate SCAN_WORDS (0 :: u64)"
      using seen assms(1) P_zap_zero by (auto simp: op_post_def op_zero_def)
    moreover have "1 < length ws" "ws ! 1 = 1" using ws(2) by (auto simp: word_at_def DSS_SCANNING_def split: if_splits)
    ultimately have "of_nat 1 = (0 :: u64)" by (metis length_map length_replicate nth_map nth_replicate)
    then show False by simp
  next
    case (P_zap_remove ob name ex)
    then have "s ob \<noteq> missing" using seen by auto
    then have "readable (s ob)" using shown_readable assms(3) P_zap_remove by simp
    then show False
      using seen assms(1) P_zap_remove shown_entry [of ob name ex] by (auto simp: op_post_def op_zero_def errno_simps)
  next
    case (P_bonus_set ob nc v)
    then have hold: "of_nat nc = (of_int v :: u64)"
      using seen assms(1) shown_count [of ob nc] by (auto simp: op_post_def op_zero_def)
    have v: "0 \<le> v" "v < int nc" "nc < 2 ^ 64" using seen assms(2) P_bonus_set by auto
    then have "of_nat nc = (of_nat (nat v) :: u64)" "nat v < 2 ^ 64" using hold by simp_all
    then have "nc = nat v" using v(3) by (metis unat_of_nat_eq_64)
    then show False using v by simp
  next
    case (P_free ob ty)
    then have "readable (s ob)" using seen assms(3) by (auto simp: readable_def)
    then show False
      using seen assms(1) P_free shown_type [of ob ty] by (auto simp: op_post_def op_zero_def errno_simps)
  qed
qed

end

subsection \<open>The repaired fixture\<close>

text \<open>Dumps given as a list describe a stored MOS when each of them does; the tables are listed too.\<close>

definition lists_describe :: "mos \<Rightarrow> nat list \<Rightarrow> (nat \<times> obj_dump) list \<Rightarrow> bool" where
  "lists_describe m tables ds \<longleftrightarrow>
    list_all (\<lambda>(n, d).
      wf_dump d \<and>
      list_all (\<lambda>f. field d f \<in> set (R_int 0 # map R_int tables)) table_fields \<and>
      (n \<in> set (MOS_DIR_OBJ # tables) \<longrightarrow>
         list_all (\<lambda>(k, v). zap_lookup store_ops m (of_nat n) k 1 = (0, [of_nat v])) (od_zap d)) \<and>
      (n = MOS_DIR_OBJ \<longrightarrow>
         list_all (\<lambda>(k, ws). k = ''scan'' \<longrightarrow>
           zap_lookup store_ops m (of_nat n) ''scan'' SCAN_WORDS = (0, map of_nat ws)) (od_zap_multi d)) \<and>
      (readable d \<longrightarrow>
         list_all (\<lambda>(k, r). k = ''num_children'' \<longrightarrow>
           dmu_bonus_hold store_ops m (of_nat n) = (0, of_nat (ref_nat r))) (od_fields d) \<and>
         (case dmu_object_info store_ops m (of_nat n) of (err, t) \<Rightarrow>
            err = 0 \<and> type_name_matches store_ops t (type_str d)))) ds"

lemma lists_describe_at:
  assumes "lists_describe m tables ds" "source_of ds n \<noteq> missing"
  shows "lists_describe m tables [(n, source_of ds n)]"
  using assms source_of_cases [of ds n] by (auto simp: lists_describe_def list_all_iff)

lemma lists_describe_table:
  assumes "lists_describe m tables ds" "table (source_of ds) (R_int ob)"
  shows "ob \<in> set tables"
proof -
  obtain r f where f: "f \<in> set table_fields" "R_int ob = field (get (source_of ds) r) f" "ob \<noteq> 0"
    using assms(2) by (auto simp: table_def)
  then obtain n where r: "r = R_int n" by (cases r) auto
  have "source_of ds n \<noteq> missing" using f r by auto
  from lists_describe_at [OF assms(1) this] show ?thesis
    using f r by (auto simp: lists_describe_def list_all_iff)
qed

lemma lists_describe:
  assumes "lists_describe m tables ds"
  shows "rescan_describes store_ops m (source_of ds)"
proof
  note at = lists_describe_at [OF assms readable_there]
  show "zap_lookup store_ops m (of_nat ob) k 1 = (0, [of_nat v])"
    if "readable (source_of ds ob)" "ob = MOS_DIR_OBJ \<or> table (source_of ds) (R_int ob)"
      "(k, v) \<in> set (od_zap (source_of ds ob))" for ob k v
    using at [OF that(1)] that lists_describe_table [OF assms, of ob]
    by (fastforce simp: lists_describe_def list_all_iff)
  show words: "zap_lookup store_ops m (of_nat MOS_DIR_OBJ) ''scan'' SCAN_WORDS = (0, map of_nat ws)"
    if "readable (source_of ds MOS_DIR_OBJ)" "(''scan'', ws) \<in> set (od_zap_multi (source_of ds MOS_DIR_OBJ))" for ws
    using at [OF that(1)] that(2) by (fastforce simp: lists_describe_def list_all_iff)
  show "fst (zap_lookup store_ops m (of_nat MOS_DIR_OBJ) ''scan'' SCAN_WORDS) = 0"
    if "readable (source_of ds MOS_DIR_OBJ)" "(''scan'', ws) \<in> set (od_zap_multi (source_of ds MOS_DIR_OBJ))" for ws
    using words [OF that] by simp
  show "dmu_bonus_hold store_ops m (of_nat ob) = (0, of_nat n)"
    if "readable (source_of ds ob)" "(''num_children'', R_int n) \<in> set (od_fields (source_of ds ob))" for ob n
    using at [OF that(1)] that by (fastforce simp: lists_describe_def list_all_iff)
  show "\<exists>t. dmu_object_info store_ops m (of_nat ob) = (0, t) \<and> type_name_matches store_ops t ty"
    if "readable (source_of ds ob)" "od_type (source_of ds ob) = Some ty" for ob ty
    using at [OF that(1)] that by (auto simp: lists_describe_def type_str_def split: prod.splits)
  show "wf_dump (source_of ds ob)" for ob
    using lists_describe_at [OF assms, of ob] by (cases "source_of ds ob = missing") (auto simp: lists_describe_def)
qed

definition repaired_dumps :: "(nat \<times> obj_dump) list" where
  "repaired_dumps =
    [(1, (dump ''object directory'' [(''root_dataset'', 32), (''errlog_scrub'', 0), (''errlog_last'', 0)])
          \<lparr>od_zap_multi := [(''scan'', replicate 24 0)]\<rparr>),
     (32, directory 55 0 48 34 [(''clones'', 0)]),
     (55, dataset),
     (34, child_map [(''$MOS'', 35), (''$FREE'', 38), (''$ORIGIN'', 42), (''data'', 1792)]),
     (42, directory 45 32 0 44 [(''clones'', 59)]),
     (45, dataset),
     (44, child_map []),
     (48, dump ''DSL dataset'' [(''dir_obj'', 42), (''prev_snap_obj'', 0), (''next_snap_obj'', 45),
        (''num_children'', 5), (''next_clones_obj'', 58)]),
     (58, dump ''DSL dataset next clones'' [(''36'', 54)]),
     (59, dump ''DSL dir clones'' [(''36'', 54)]),
     (54, dump ''DSL dataset'' [(''prev_snap_obj'', 48), (''next_clones_obj'', 0)]),
     (1792, directory 1793 32 0 1794 [(''clones'', 0)]),
     (1793, dataset),
     (1794, child_map []),
     (673, dead_dataset)]"

text \<open>The pool that the plan leaves, object by object.\<close>

definition pool_after :: mos where
  "pool_after =
    [32 \<mapsto> mk_obj 12 Map.empty 0, 55 \<mapsto> mk_obj 16 Map.empty 0, 42 \<mapsto> mk_obj 12 Map.empty 0,
     45 \<mapsto> mk_obj 16 Map.empty 0, 44 \<mapsto> mk_obj 13 Map.empty 0, 54 \<mapsto> mk_obj 16 Map.empty 0,
     1792 \<mapsto> mk_obj 12 Map.empty 0, 1793 \<mapsto> mk_obj 16 Map.empty 0, 1794 \<mapsto> mk_obj 13 Map.empty 0,
     673 \<mapsto> (mk_obj 16 Map.empty 0)\<lparr>mo_readable := False\<rparr>,
     1 \<mapsto> mk_obj 1 [''root_dataset'' \<mapsto> [32], ''errlog_scrub'' \<mapsto> [0], ''errlog_last'' \<mapsto> [0],
        ''scan'' \<mapsto> replicate 24 0] 0,
     59 \<mapsto> mk_obj 52 [''36'' \<mapsto> [54]] 0,
     34 \<mapsto> mk_obj 13 [''$MOS'' \<mapsto> [35], ''$FREE'' \<mapsto> [38], ''$ORIGIN'' \<mapsto> [42], ''data'' \<mapsto> [1792]] 0,
     58 \<mapsto> mk_obj 37 [''36'' \<mapsto> [54]] 0,
     48 \<mapsto> mk_obj 16 Map.empty 5]"

lemma repaired_pool_after: "repaired_pool = pool_after"
  unfolding repaired_pool_def orphan_plan_def
  by (simp add: apply_op_def op_zero_def store_defs orphan_pool_def pool_after_def mk_obj_def del: emit_line.simps)

lemma repaired_lists: "lists_describe pool_after [34, 44, 58, 59, 1794] repaired_dumps"
  unfolding lists_describe_def repaired_dumps_def list.pred_inject prod.case
  by (intro conjI)
    (simp_all add: pool_after_def mk_obj_def store_defs dump_def directory_def child_map_def dataset_def
      dead_dataset_def MOS_DIR_OBJ_def SCAN_WORDS_def table_fields_def field_def readable_def wf_dump_def
      type_str_def type_name_matches_def st_type_name_def missing_def)

interpretation repaired: rescan_describes store_ops repaired_pool "source_of repaired_dumps"
  unfolding repaired_pool_after by (rule lists_describe [OF repaired_lists])

text \<open>The second scan finds nothing.\<close>

lemma repaired_scan: "map_option (\<lambda>st. (findings st, ops st)) (run 5 (source_of repaired_dumps)) = Some ([], [])"
  by code_simp

subsection \<open>Properties\<close>



end
