(* ===== verification/Simd.thy ===== *)
theory Simd
  imports Prelude
begin

text \<open>
  The run-time detection of vector instructions (\<^verbatim>\<open>src/surgeon/compat/sys/simd.h\<close>): the
  CPUID feature table, the checks built on it, and the auxiliary-vector checks of the other
  architectures. The processor is a parameter: what CPUID and XGETBV return on it. The lemmas
  show that the checks imply one another the way the instruction sets do, that XGETBV is only
  executed where CPUID says it may be, and where the table of features goes wrong.
\<close>

subsection \<open>CPUID\<close>

datatype cpuid_regs = EAX | EBX | ECX | EDX

datatype cpuid_inst_sets =
    SSE
  | SSE2
  | SSE3
  | SSSE3
  | SSE4_1
  | SSE4_2
  | OSXSAVE
  | AVX
  | AVX2
  | BMI1
  | BMI2
  | AVX512F
  | AVX512CD
  | AVX512DQ
  | AVX512BW
  | AVX512IFMA
  | AVX512VBMI
  | AVX512PF
  | AVX512ER
  | AVX512VL
  | AES
  | PCLMULQDQ
  | MOVBE
  | SHA_NI

record cpuid_feature_desc =
  leaf :: u32
  subleaf :: u32
  flag :: u32
  reg :: cpuid_regs

text \<open>The flags that have a name.\<close>

definition AVX512F_BIT :: u32 where "AVX512F_BIT = push_bit 16 1"
definition AVX512CD_BIT :: u32 where "AVX512CD_BIT = AVX512F_BIT OR push_bit 28 1"
definition AVX512DQ_BIT :: u32 where "AVX512DQ_BIT = AVX512F_BIT OR push_bit 17 1"
definition AVX512BW_BIT :: u32 where "AVX512BW_BIT = AVX512F_BIT OR push_bit 30 1"
definition AVX512IFMA_BIT :: u32 where "AVX512IFMA_BIT = AVX512F_BIT OR push_bit 21 1"
definition AVX512VBMI_BIT :: u32 where "AVX512VBMI_BIT = push_bit 1 1"
definition AVX512PF_BIT :: u32 where "AVX512PF_BIT = AVX512F_BIT OR push_bit 26 1"
definition AVX512ER_BIT :: u32 where "AVX512ER_BIT = AVX512F_BIT OR push_bit 27 1"
definition AVX512VL_BIT :: u32 where "AVX512VL_BIT = push_bit 31 1"
definition AES_BIT :: u32 where "AES_BIT = push_bit 25 1"
definition PCLMULQDQ_BIT :: u32 where "PCLMULQDQ_BIT = push_bit 1 1"
definition MOVBE_BIT :: u32 where "MOVBE_BIT = push_bit 22 1"
definition SHA_NI_BIT :: u32 where "SHA_NI_BIT = push_bit 29 1"

lemmas cpuid_bits = AVX512F_BIT_def AVX512CD_BIT_def AVX512DQ_BIT_def AVX512BW_BIT_def
  AVX512IFMA_BIT_def AVX512VBMI_BIT_def AVX512PF_BIT_def AVX512ER_BIT_def AVX512VL_BIT_def
  AES_BIT_def PCLMULQDQ_BIT_def MOVBE_BIT_def SHA_NI_BIT_def

definition desc :: "u32 \<Rightarrow> u32 \<Rightarrow> u32 \<Rightarrow> cpuid_regs \<Rightarrow> cpuid_feature_desc" where
  "desc l s f r = \<lparr>leaf = l, subleaf = s, flag = f, reg = r\<rparr>"

text \<open>The table \<^verbatim>\<open>cpuid_features\<close>, row by row as in the source.\<close>

fun cpuid_features :: "cpuid_inst_sets \<Rightarrow> cpuid_feature_desc" where
  "cpuid_features SSE = desc 1 0 (push_bit 25 1) EDX"
| "cpuid_features SSE2 = desc 1 0 (push_bit 26 1) EDX"
| "cpuid_features SSE3 = desc 1 0 (push_bit 0 1) ECX"
| "cpuid_features SSSE3 = desc 1 0 (push_bit 9 1) ECX"
| "cpuid_features SSE4_1 = desc 1 0 (push_bit 19 1) ECX"
| "cpuid_features SSE4_2 = desc 1 0 (push_bit 20 1) ECX"
| "cpuid_features OSXSAVE = desc 1 0 (push_bit 27 1) ECX"
| "cpuid_features AVX = desc 1 0 (push_bit 28 1) ECX"
| "cpuid_features AVX2 = desc 7 0 (push_bit 5 1) EBX"
| "cpuid_features BMI1 = desc 7 0 (push_bit 3 1) EBX"
| "cpuid_features BMI2 = desc 7 0 (push_bit 8 1) EBX"
| "cpuid_features AVX512F = desc 7 0 AVX512F_BIT EBX"
| "cpuid_features AVX512CD = desc 7 0 AVX512CD_BIT EBX"
| "cpuid_features AVX512DQ = desc 7 0 AVX512DQ_BIT EBX"
| "cpuid_features AVX512BW = desc 7 0 AVX512BW_BIT EBX"
| "cpuid_features AVX512IFMA = desc 7 0 AVX512IFMA_BIT EBX"
| "cpuid_features AVX512VBMI = desc 7 0 AVX512VBMI_BIT ECX"
| "cpuid_features AVX512PF = desc 7 0 AVX512PF_BIT EBX"
| "cpuid_features AVX512ER = desc 7 0 AVX512ER_BIT EBX"
| "cpuid_features AVX512VL = desc 7 0 AVX512ER_BIT EBX"
| "cpuid_features AES = desc 1 0 AES_BIT ECX"
| "cpuid_features PCLMULQDQ = desc 1 0 PCLMULQDQ_BIT ECX"
| "cpuid_features MOVBE = desc 1 0 MOVBE_BIT ECX"
| "cpuid_features SHA_NI = desc 7 0 SHA_NI_BIT EBX"

text \<open>
  The processor: the highest basic CPUID leaf, the registers CPUID returns for a leaf and a
  sub-leaf, and what XGETBV leaves in EDX and EAX; \<open>None\<close> is the illegal-instruction trap.
\<close>

record cpu =
  cpuid_max :: u32
  cpuid_count :: "u32 \<Rightarrow> u32 \<Rightarrow> cpuid_regs \<Rightarrow> u32"
  xgetbv_regs :: "u32 \<Rightarrow> (u32 \<times> u32) option"

definition xgetbv :: "cpu \<Rightarrow> u32 \<Rightarrow> u64 option" where
  "xgetbv c index = map_option (\<lambda>(edx, eax). push_bit 32 (ucast edx) OR ucast eax) (xgetbv_regs c index)"

definition cpuid_check_feature :: "cpu \<Rightarrow> cpuid_feature_desc \<Rightarrow> bool" where
  "cpuid_check_feature c d =
    (if cpuid_max c \<ge> leaf d then (cpuid_count c (leaf d) (subleaf d) (reg d) AND flag d) = flag d
     else False)"

text \<open>\<^verbatim>\<open>CPUID_FEATURE_CHECK\<close>: one check per instruction set.\<close>

definition cpuid_has :: "cpu \<Rightarrow> cpuid_inst_sets \<Rightarrow> bool" where
  "cpuid_has c i = cpuid_check_feature c (cpuid_features i)"

text \<open>The register sets the operating system has enabled; \<open>None\<close> is a trap.\<close>

definition simd_state_enabled :: "cpu \<Rightarrow> u64 \<Rightarrow> bool option" where
  "simd_state_enabled c state =
    (if \<not> cpuid_has c OSXSAVE then Some False
     else map_option (\<lambda>xcr0. (xcr0 AND state) = state) (xgetbv c 0))"

definition XSTATE_SSE_AVX :: u64 where "XSTATE_SSE_AVX = 0x2 OR 0x4"
definition XSTATE_AVX512 :: u64 where "XSTATE_AVX512 = 0xE0 OR XSTATE_SSE_AVX"

definition ymm_enabled :: "cpu \<Rightarrow> bool option" where
  "ymm_enabled c = simd_state_enabled c XSTATE_SSE_AVX"

definition zmm_enabled :: "cpu \<Rightarrow> bool option" where
  "zmm_enabled c = simd_state_enabled c XSTATE_AVX512"

text \<open>C's \<^verbatim>\<open>&&\<close>: the right operand is evaluated only when the left one holds.\<close>

definition and_then :: "bool \<Rightarrow> bool option \<Rightarrow> bool option" where
  "and_then a b = (if a then b else Some False)"

subsection \<open>The checks on x86\<close>

definition zfs_sse_available :: "cpu \<Rightarrow> bool option" where
  "zfs_sse_available c = Some (cpuid_has c SSE)"

definition zfs_sse2_available :: "cpu \<Rightarrow> bool option" where
  "zfs_sse2_available c = Some (cpuid_has c SSE2)"

definition zfs_sse3_available :: "cpu \<Rightarrow> bool option" where
  "zfs_sse3_available c = Some (cpuid_has c SSE3)"

definition zfs_ssse3_available :: "cpu \<Rightarrow> bool option" where
  "zfs_ssse3_available c = Some (cpuid_has c SSSE3)"

definition zfs_sse4_1_available :: "cpu \<Rightarrow> bool option" where
  "zfs_sse4_1_available c = Some (cpuid_has c SSE4_1)"

definition zfs_sse4_2_available :: "cpu \<Rightarrow> bool option" where
  "zfs_sse4_2_available c = Some (cpuid_has c SSE4_2)"

definition zfs_avx_available :: "cpu \<Rightarrow> bool option" where
  "zfs_avx_available c = and_then (cpuid_has c AVX) (ymm_enabled c)"

definition zfs_avx2_available :: "cpu \<Rightarrow> bool option" where
  "zfs_avx2_available c = and_then (cpuid_has c AVX2) (ymm_enabled c)"

definition zfs_bmi1_available :: "cpu \<Rightarrow> bool option" where
  "zfs_bmi1_available c = Some (cpuid_has c BMI1)"

definition zfs_bmi2_available :: "cpu \<Rightarrow> bool option" where
  "zfs_bmi2_available c = Some (cpuid_has c BMI2)"

definition zfs_aes_available :: "cpu \<Rightarrow> bool option" where
  "zfs_aes_available c = Some (cpuid_has c AES)"

definition zfs_pclmulqdq_available :: "cpu \<Rightarrow> bool option" where
  "zfs_pclmulqdq_available c = Some (cpuid_has c PCLMULQDQ)"

definition zfs_movbe_available :: "cpu \<Rightarrow> bool option" where
  "zfs_movbe_available c = Some (cpuid_has c MOVBE)"

definition zfs_shani_available :: "cpu \<Rightarrow> bool option" where
  "zfs_shani_available c = Some (cpuid_has c SHA_NI)"

definition zfs_avx512f_available :: "cpu \<Rightarrow> bool option" where
  "zfs_avx512f_available c = and_then (cpuid_has c AVX512F) (zmm_enabled c)"

definition zfs_avx512cd_available :: "cpu \<Rightarrow> bool option" where
  "zfs_avx512cd_available c = and_then (cpuid_has c AVX512CD) (zmm_enabled c)"

definition zfs_avx512er_available :: "cpu \<Rightarrow> bool option" where
  "zfs_avx512er_available c = and_then (cpuid_has c AVX512ER) (zmm_enabled c)"

definition zfs_avx512pf_available :: "cpu \<Rightarrow> bool option" where
  "zfs_avx512pf_available c = and_then (cpuid_has c AVX512PF) (zmm_enabled c)"

definition zfs_avx512bw_available :: "cpu \<Rightarrow> bool option" where
  "zfs_avx512bw_available c = and_then (cpuid_has c AVX512BW) (zmm_enabled c)"

definition zfs_avx512dq_available :: "cpu \<Rightarrow> bool option" where
  "zfs_avx512dq_available c = and_then (cpuid_has c AVX512DQ) (zmm_enabled c)"

definition zfs_avx512vl_available :: "cpu \<Rightarrow> bool option" where
  "zfs_avx512vl_available c = and_then (cpuid_has c AVX512VL) (zmm_enabled c)"

definition zfs_avx512ifma_available :: "cpu \<Rightarrow> bool option" where
  "zfs_avx512ifma_available c = and_then (cpuid_has c AVX512IFMA) (zmm_enabled c)"

definition zfs_avx512vbmi_available :: "cpu \<Rightarrow> bool option" where
  "zfs_avx512vbmi_available c =
     and_then (cpuid_has c AVX512F \<and> cpuid_has c AVX512VBMI) (zmm_enabled c)"

subsection \<open>The checks on ARM and POWER\<close>

text \<open>
  The auxiliary vector is the parameter \<open>auxval\<close>; a check returns the masked word converted
  to \<^verbatim>\<open>boolean_t\<close>, whose representation has 32 bits. On FreeBSD \<^verbatim>\<open>getauxval\<close> is
  written over \<^verbatim>\<open>elf_aux_info\<close>, which returns an error and the value.
\<close>

definition AT_HWCAP_FreeBSD :: u64 where "AT_HWCAP_FreeBSD = 25"
definition AT_HWCAP_Linux :: u64 where "AT_HWCAP_Linux = 16"
definition AT_HWCAP2 :: u64 where "AT_HWCAP2 = 26"

definition getauxval_FreeBSD :: "(c_int \<Rightarrow> c_int \<times> u64) \<Rightarrow> u64 \<Rightarrow> u64" where
  "getauxval_FreeBSD elf_aux_info key =
    (let (err, v) = elf_aux_info (ucast key) in if err \<noteq> 0 then 0 else v)"

definition masked :: "u64 \<Rightarrow> u64 \<Rightarrow> u32" where
  "masked hwcap m = ucast (hwcap AND m)"

definition HWCAP_NEON :: u64 where "HWCAP_NEON = 0x1000"
definition HWCAP2_SHA2 :: u64 where "HWCAP2_SHA2 = 0x8"
definition HWCAP_FP :: u64 where "HWCAP_FP = 0x1"
definition HWCAP_SHA2 :: u64 where "HWCAP_SHA2 = 0x40"
definition HWCAP_SHA512 :: u64 where "HWCAP_SHA512 = 0x200000"
definition PPC_FEATURE_HAS_ALTIVEC :: u64 where "PPC_FEATURE_HAS_ALTIVEC = 0x10000000"
definition PPC_FEATURE_HAS_VSX :: u64 where "PPC_FEATURE_HAS_VSX = 0x80"
definition PPC_FEATURE2_ARCH_2_07 :: u64 where "PPC_FEATURE2_ARCH_2_07 = 0x80000000"

lemmas hwcap_bits = HWCAP_NEON_def HWCAP2_SHA2_def HWCAP_FP_def HWCAP_SHA2_def HWCAP_SHA512_def
  PPC_FEATURE_HAS_ALTIVEC_def PPC_FEATURE_HAS_VSX_def PPC_FEATURE2_ARCH_2_07_def

definition arm_neon_available :: "(u64 \<Rightarrow> u64) \<Rightarrow> u64 \<Rightarrow> u32" where
  "arm_neon_available getauxval at_hwcap = masked (getauxval at_hwcap) HWCAP_NEON"

definition arm_sha256_available :: "(u64 \<Rightarrow> u64) \<Rightarrow> u64 \<Rightarrow> u32" where
  "arm_sha256_available getauxval at_hwcap = masked (getauxval at_hwcap) HWCAP2_SHA2"

definition aarch64_neon_available :: "(u64 \<Rightarrow> u64) \<Rightarrow> u64 \<Rightarrow> u32" where
  "aarch64_neon_available getauxval at_hwcap = masked (getauxval at_hwcap) HWCAP_FP"

definition aarch64_sha256_available :: "(u64 \<Rightarrow> u64) \<Rightarrow> u64 \<Rightarrow> u32" where
  "aarch64_sha256_available getauxval at_hwcap = masked (getauxval at_hwcap) HWCAP_SHA2"

definition aarch64_sha512_available :: "(u64 \<Rightarrow> u64) \<Rightarrow> u64 \<Rightarrow> u32" where
  "aarch64_sha512_available getauxval at_hwcap = masked (getauxval at_hwcap) HWCAP_SHA512"

definition zfs_altivec_available :: "(u64 \<Rightarrow> u64) \<Rightarrow> u64 \<Rightarrow> u32" where
  "zfs_altivec_available getauxval at_hwcap = masked (getauxval at_hwcap) PPC_FEATURE_HAS_ALTIVEC"

definition zfs_vsx_available :: "(u64 \<Rightarrow> u64) \<Rightarrow> u64 \<Rightarrow> u32" where
  "zfs_vsx_available getauxval at_hwcap = masked (getauxval at_hwcap) PPC_FEATURE_HAS_VSX"

text \<open>This one combines two words with \<^verbatim>\<open>&&\<close>, whose value is 0 or 1.\<close>

definition zfs_isa207_available :: "(u64 \<Rightarrow> u64) \<Rightarrow> u64 \<Rightarrow> u32" where
  "zfs_isa207_available getauxval at_hwcap =
    (let hwcap = getauxval at_hwcap; hwcap2 = getauxval AT_HWCAP2 in
     if (hwcap AND PPC_FEATURE_HAS_VSX) \<noteq> 0 \<and> (hwcap2 AND PPC_FEATURE2_ARCH_2_07) \<noteq> 0 then 1 else 0)"

text \<open>\<^verbatim>\<open>kfpu_allowed\<close>, and the architectures the header distinguishes.\<close>

datatype simd_arch = X86 | ARM | AARCH64 | POWERPC | OTHER_ARCH

fun kfpu_allowed :: "simd_arch \<Rightarrow> bool" where
  "kfpu_allowed X86 = True"
| "kfpu_allowed ARM = True"
| "kfpu_allowed AARCH64 = True"
| "kfpu_allowed POWERPC = False"
| "kfpu_allowed OTHER_ARCH = False"

lemmas x86_checks = zfs_sse_available_def
  zfs_sse2_available_def
  zfs_sse3_available_def
  zfs_ssse3_available_def
  zfs_sse4_1_available_def
  zfs_sse4_2_available_def
  zfs_avx_available_def
  zfs_avx2_available_def
  zfs_bmi1_available_def
  zfs_bmi2_available_def
  zfs_aes_available_def
  zfs_pclmulqdq_available_def
  zfs_movbe_available_def
  zfs_shani_available_def
  zfs_avx512f_available_def
  zfs_avx512cd_available_def
  zfs_avx512er_available_def
  zfs_avx512pf_available_def
  zfs_avx512bw_available_def
  zfs_avx512dq_available_def
  zfs_avx512vl_available_def
  zfs_avx512ifma_available_def
  zfs_avx512vbmi_available_def

subsection \<open>Masks\<close>

lemma mask_and_mono:
  fixes x a b :: "'a::len word"
  assumes "x AND a = a" and "a AND b = b"
  shows "x AND b = b"
  by (metis assms and.assoc)

lemma cpuid_has_weaker:
  assumes "cpuid_has c i" and "leaf (cpuid_features i) = leaf (cpuid_features j)"
    and "subleaf (cpuid_features i) = subleaf (cpuid_features j)"
    and "reg (cpuid_features i) = reg (cpuid_features j)"
    and "flag (cpuid_features i) AND flag (cpuid_features j) = flag (cpuid_features j)"
  shows "cpuid_has c j"
  using assms mask_and_mono by (auto simp: cpuid_has_def cpuid_check_feature_def split: if_splits)

lemma avx512_implies_foundation:
  "i \<in> {AVX512CD, AVX512DQ, AVX512BW, AVX512IFMA, AVX512PF, AVX512ER, AVX512VL} \<Longrightarrow>
     cpuid_has c i \<Longrightarrow> cpuid_has c AVX512F"
  by (erule cpuid_has_weaker [of c i AVX512F])  (auto simp: desc_def cpuid_bits)

lemmas avx512_foundation =
  avx512_implies_foundation [of AVX512CD, simplified] avx512_implies_foundation [of AVX512DQ, simplified]
  avx512_implies_foundation [of AVX512BW, simplified] avx512_implies_foundation [of AVX512IFMA, simplified]
  avx512_implies_foundation [of AVX512PF, simplified] avx512_implies_foundation [of AVX512ER, simplified]
  avx512_implies_foundation [of AVX512VL, simplified]

lemma zmm_implies_ymm: "zmm_enabled c = Some True \<Longrightarrow> ymm_enabled c = Some True"
proof -
  assume "zmm_enabled c = Some True"
  then obtain x where "cpuid_has c OSXSAVE" "xgetbv c 0 = Some x" "x AND XSTATE_AVX512 = XSTATE_AVX512"
    by (auto simp: zmm_enabled_def simd_state_enabled_def split: if_splits)
  moreover have "XSTATE_AVX512 AND XSTATE_SSE_AVX = XSTATE_SSE_AVX"
    by (simp add: XSTATE_AVX512_def XSTATE_SSE_AVX_def)
  ultimately show ?thesis
    using mask_and_mono by (auto simp: ymm_enabled_def simd_state_enabled_def)
qed

lemma and_then_Some: "and_then a b = Some True \<longleftrightarrow> a \<and> b = Some True"
  by (simp add: and_then_def)

lemma and_then_None: "and_then a b = None \<longleftrightarrow> a \<and> b = None"
  by (simp add: and_then_def)

lemma state_enabled_no_trap:
  "(cpuid_has c OSXSAVE \<Longrightarrow> xgetbv_regs c 0 \<noteq> None) \<Longrightarrow> simd_state_enabled c s \<noteq> None"
  by (auto simp: simd_state_enabled_def xgetbv_def)

subsection \<open>Properties\<close>

text \<open>
  A positive answer for any of the AVX-512 extensions implies a positive answer for the
  AVX-512 foundation and that the operating system has enabled the ZMM registers and with them
  the YMM registers.
\<close>

theorem avx512_extension_implies_foundation:
  assumes "avail \<in> {zfs_avx512cd_available, zfs_avx512er_available, zfs_avx512pf_available,
      zfs_avx512bw_available, zfs_avx512dq_available, zfs_avx512vl_available,
      zfs_avx512ifma_available, zfs_avx512vbmi_available}"
    and "avail c = Some True"
  shows "zfs_avx512f_available c = Some True \<and> zmm_enabled c = Some True \<and> ymm_enabled c = Some True"
proof -
  have "cpuid_has c AVX512F \<and> zmm_enabled c = Some True"
    using assms
    by (elim insertE emptyE; simp add: x86_checks and_then_Some)
      (blast dest: avx512_foundation)+
  then show ?thesis
    using zmm_implies_ymm [of c] by (simp add: zfs_avx512f_available_def and_then_Some)
qed

definition test_cpu :: "u32 \<Rightarrow> cpu" where
  "test_cpu ebx =
    \<lparr>cpuid_max = 7,
     cpuid_count = (\<lambda>l s r. if l = 1 \<and> r = ECX then push_bit 27 1 else if l = 7 \<and> r = EBX then ebx else 0),
     xgetbv_regs = (\<lambda>i. Some (0, 0xE7))\<rparr>"

lemmas test_cpu_eval = test_cpu_def x86_checks and_then_def cpuid_has_def cpuid_check_feature_def
  desc_def cpuid_bits zmm_enabled_def ymm_enabled_def simd_state_enabled_def xgetbv_def
  XSTATE_AVX512_def XSTATE_SSE_AVX_def

theorem avx512_extension_implies_foundation_witness:
  "zfs_avx512f_available (test_cpu (AVX512BW_BIT)) = Some True"
  using avx512_extension_implies_foundation [of zfs_avx512bw_available "test_cpu AVX512BW_BIT"]
  by (simp add: test_cpu_eval)

text \<open>
  The AVX512VL row of the table carries the mask of AVX512ER. On every processor the check
  for the vector-length extensions gives the answer of the check for the exponential and
  reciprocal instructions; so a processor with the foundation and AVX512VL but without AVX512ER
  is told that it has no AVX512VL, and one with AVX512ER but without AVX512VL that it has.
\<close>

theorem avx512vl_check_is_avx512er:
  "zfs_avx512vl_available c = zfs_avx512er_available c \<and>
   zfs_avx512vl_available (test_cpu (AVX512F_BIT OR AVX512VL_BIT)) = Some False \<and>
   zfs_avx512vl_available (test_cpu AVX512ER_BIT) = Some True"
  by (simp add: x86_checks cpuid_has_def) (simp add: test_cpu_eval)

text \<open>
  C37: no check traps. XGETBV is executed only where CPUID reports OSXSAVE; on a processor that
  keeps the rule that XGETBV is then legal, every check returns an answer.
\<close>

theorem x86_checks_never_trap:
  assumes "cpuid_has c OSXSAVE \<Longrightarrow> xgetbv_regs c 0 \<noteq> None"
  shows "list_all (\<lambda>avail. avail c \<noteq> None)
    [zfs_sse_available, zfs_sse2_available, zfs_sse3_available, zfs_ssse3_available,
     zfs_sse4_1_available, zfs_sse4_2_available, zfs_avx_available, zfs_avx2_available,
     zfs_bmi1_available, zfs_bmi2_available, zfs_aes_available, zfs_pclmulqdq_available,
     zfs_movbe_available, zfs_shani_available, zfs_avx512f_available, zfs_avx512cd_available,
     zfs_avx512er_available, zfs_avx512pf_available, zfs_avx512bw_available, zfs_avx512dq_available,
     zfs_avx512vl_available, zfs_avx512ifma_available, zfs_avx512vbmi_available]"
  using state_enabled_no_trap [of c, OF assms]
  by (simp add: x86_checks and_then_None ymm_enabled_def zmm_enabled_def del: not_None_eq)

theorem x86_checks_never_trap_witness:
  "zfs_avx_available ((test_cpu 0)\<lparr>cpuid_count := (\<lambda>l s r. 0), xgetbv_regs := (\<lambda>i. None)\<rparr>) \<noteq> None"
proof -
  let ?c = "(test_cpu 0)\<lparr>cpuid_count := (\<lambda>l s r. 0), xgetbv_regs := (\<lambda>i. None)\<rparr>"
  have "\<not> cpuid_has ?c OSXSAVE" by (simp add: cpuid_has_def cpuid_check_feature_def desc_def)
  with x86_checks_never_trap [of ?c] show ?thesis by simp
qed

text \<open>
  The SHA-2 check on 32-bit ARM tests the bit that the second capability word defines in the
  first one: its answer does not depend on the second word at all.
\<close>

theorem arm_sha256_reads_wrong_word:
  assumes "at_hwcap \<noteq> AT_HWCAP2"
  shows "arm_sha256_available (auxval(AT_HWCAP2 := x)) at_hwcap = arm_sha256_available auxval at_hwcap \<and>
    arm_sha256_available ((\<lambda>_. 0)(AT_HWCAP2 := HWCAP2_SHA2)) at_hwcap = 0"
  using assms by (simp add: arm_sha256_available_def masked_def)

theorem arm_sha256_reads_wrong_word_witness:
  "arm_sha256_available ((\<lambda>_. 0)(AT_HWCAP2 := HWCAP2_SHA2)) AT_HWCAP_Linux = 0"
  using arm_sha256_reads_wrong_word [of AT_HWCAP_Linux "\<lambda>_. 0" 0]
  by (simp add: AT_HWCAP2_def AT_HWCAP_Linux_def)

end
