(* ===== verification/Byteorder.thy ===== *)
theory Byteorder
  imports Prelude
begin

text \<open>
  The byte-order macros of \<^verbatim>\<open>src/surgeon/compat/os/linux/sys/byteorder.h\<close> (the FreeBSD
  header has the same ones): byte swaps on words of any width, conversions between a given and
  the native order, and unaligned reads and writes of memory, which is a function from
  addresses to bytes. The lemmas show that the swaps reverse the bytes of a word, that a value
  written in an order is read back in that order at any address, aligned or not, and how the
  two orders are related.
\<close>

subsection \<open>Swaps\<close>

definition BSWAP_8 :: "'a::len word \<Rightarrow> 'a word" where
  "BSWAP_8 x = x AND 0xff"

definition BSWAP_16 :: "'a::len word \<Rightarrow> 'a word" where
  "BSWAP_16 x = push_bit 8 (BSWAP_8 x) OR BSWAP_8 (drop_bit 8 x)"

definition BSWAP_32 :: "'a::len word \<Rightarrow> 'a word" where
  "BSWAP_32 x = push_bit 16 (BSWAP_16 x) OR BSWAP_16 (drop_bit 16 x)"

definition BSWAP_64 :: "'a::len word \<Rightarrow> 'a word" where
  "BSWAP_64 x = push_bit 32 (BSWAP_32 x) OR BSWAP_32 (drop_bit 32 x)"

definition BMASK_8 :: "'a::len word \<Rightarrow> 'a word" where "BMASK_8 x = x AND 0xff"

definition BMASK_16 :: "'a::len word \<Rightarrow> 'a word" where "BMASK_16 x = x AND 0xffff"

definition BMASK_32 :: "'a::len word \<Rightarrow> 'a word" where "BMASK_32 x = x AND 0xffffffff"

definition BMASK_64 :: "'a::len word \<Rightarrow> 'a word" where "BMASK_64 x = x"

text \<open>From a given order to the native one and back; \<open>big\<close> is \<^verbatim>\<open>_ZFS_BIG_ENDIAN\<close>.\<close>

definition BE_8 :: "bool \<Rightarrow> 'a::len word \<Rightarrow> 'a word" where
  "BE_8 big x = (if big then BMASK_8 x else BSWAP_8 x)"

definition LE_8 :: "bool \<Rightarrow> 'a::len word \<Rightarrow> 'a word" where
  "LE_8 big x = (if big then BSWAP_8 x else BMASK_8 x)"

definition BE_16 :: "bool \<Rightarrow> 'a::len word \<Rightarrow> 'a word" where
  "BE_16 big x = (if big then BMASK_16 x else BSWAP_16 x)"

definition BE_32 :: "bool \<Rightarrow> 'a::len word \<Rightarrow> 'a word" where
  "BE_32 big x = (if big then BMASK_32 x else BSWAP_32 x)"

definition BE_64 :: "bool \<Rightarrow> 'a::len word \<Rightarrow> 'a word" where
  "BE_64 big x = (if big then BMASK_64 x else BSWAP_64 x)"

definition LE_16 :: "bool \<Rightarrow> 'a::len word \<Rightarrow> 'a word" where
  "LE_16 big x = (if big then BSWAP_16 x else BMASK_16 x)"

definition LE_32 :: "bool \<Rightarrow> 'a::len word \<Rightarrow> 'a word" where
  "LE_32 big x = (if big then BSWAP_32 x else BMASK_32 x)"

definition LE_64 :: "bool \<Rightarrow> 'a::len word \<Rightarrow> 'a word" where
  "LE_64 big x = (if big then BSWAP_64 x else BMASK_64 x)"

text \<open>\<^verbatim>\<open>htonl\<close> and \<^verbatim>\<open>ntohl\<close> of a little-endian host are library functions, the argument.\<close>

definition htonll :: "bool \<Rightarrow> (u32 \<Rightarrow> u32) \<Rightarrow> u64 \<Rightarrow> u64" where
  "htonll big htonl n =
    (if big then n
     else push_bit 32 (ucast (htonl (ucast n))) + ucast (htonl (ucast (drop_bit 32 n))))"

definition ntohll :: "bool \<Rightarrow> (u32 \<Rightarrow> u32) \<Rightarrow> u64 \<Rightarrow> u64" where
  "ntohll big ntohl n =
    (if big then n
     else push_bit 32 (ucast (ntohl (ucast n))) + ucast (ntohl (ucast (drop_bit 32 n))))"

subsection \<open>Unaligned access\<close>

type_synonym memory = "u64 \<Rightarrow> u8"

definition BE_IN8 :: "memory \<Rightarrow> u64 \<Rightarrow> u8" where "BE_IN8 m a = m a"

definition BE_IN16 :: "memory \<Rightarrow> u64 \<Rightarrow> u16" where
  "BE_IN16 m a = push_bit 8 (ucast (BE_IN8 m a)) OR ucast (BE_IN8 m (a + 1))"

definition BE_IN32 :: "memory \<Rightarrow> u64 \<Rightarrow> u32" where
  "BE_IN32 m a = push_bit 16 (ucast (BE_IN16 m a)) OR ucast (BE_IN16 m (a + 2))"

definition BE_IN64 :: "memory \<Rightarrow> u64 \<Rightarrow> u64" where
  "BE_IN64 m a = push_bit 32 (ucast (BE_IN32 m a)) OR ucast (BE_IN32 m (a + 4))"

definition LE_IN8 :: "memory \<Rightarrow> u64 \<Rightarrow> u8" where "LE_IN8 m a = m a"

definition LE_IN16 :: "memory \<Rightarrow> u64 \<Rightarrow> u16" where
  "LE_IN16 m a = push_bit 8 (ucast (LE_IN8 m (a + 1))) OR ucast (LE_IN8 m a)"

definition LE_IN32 :: "memory \<Rightarrow> u64 \<Rightarrow> u32" where
  "LE_IN32 m a = push_bit 16 (ucast (LE_IN16 m (a + 2))) OR ucast (LE_IN16 m a)"

definition LE_IN64 :: "memory \<Rightarrow> u64 \<Rightarrow> u64" where
  "LE_IN64 m a = push_bit 32 (ucast (LE_IN32 m (a + 4))) OR ucast (LE_IN32 m a)"

text \<open>The value written is of any width, as the macro argument is; each write keeps its low byte.\<close>

definition BE_OUT8 :: "u64 \<Rightarrow> 'a::len word \<Rightarrow> memory \<Rightarrow> memory" where
  "BE_OUT8 a y m = m(a := ucast y)"

definition BE_OUT16 :: "u64 \<Rightarrow> 'a::len word \<Rightarrow> memory \<Rightarrow> memory" where
  "BE_OUT16 a y m = BE_OUT8 a (drop_bit 8 y) (BE_OUT8 (a + 1) y m)"

definition BE_OUT32 :: "u64 \<Rightarrow> 'a::len word \<Rightarrow> memory \<Rightarrow> memory" where
  "BE_OUT32 a y m = BE_OUT16 a (drop_bit 16 y) (BE_OUT16 (a + 2) y m)"

definition BE_OUT64 :: "u64 \<Rightarrow> 'a::len word \<Rightarrow> memory \<Rightarrow> memory" where
  "BE_OUT64 a y m = BE_OUT32 a (drop_bit 32 y) (BE_OUT32 (a + 4) y m)"

definition LE_OUT8 :: "u64 \<Rightarrow> 'a::len word \<Rightarrow> memory \<Rightarrow> memory" where
  "LE_OUT8 a y m = m(a := ucast y)"

definition LE_OUT16 :: "u64 \<Rightarrow> 'a::len word \<Rightarrow> memory \<Rightarrow> memory" where
  "LE_OUT16 a y m = LE_OUT8 (a + 1) (drop_bit 8 y) (LE_OUT8 a y m)"

definition LE_OUT32 :: "u64 \<Rightarrow> 'a::len word \<Rightarrow> memory \<Rightarrow> memory" where
  "LE_OUT32 a y m = LE_OUT16 (a + 2) (drop_bit 16 y) (LE_OUT16 a y m)"

definition LE_OUT64 :: "u64 \<Rightarrow> 'a::len word \<Rightarrow> memory \<Rightarrow> memory" where
  "LE_OUT64 a y m = LE_OUT32 (a + 4) (drop_bit 32 y) (LE_OUT32 a y m)"

subsection \<open>Bits and bytes\<close>

lemma mask_8: "(0xff :: 'a::len word) = mask 8"
  by (simp add: mask_eq_exp_minus_1)

lemma mask_16: "(0xffff :: 'a::len word) = mask 16"
  by (simp add: mask_eq_exp_minus_1)

lemma mask_32: "(0xffffffff :: 'a::len word) = mask 32"
  by (simp add: mask_eq_exp_minus_1)

lemma bit_BSWAP_8: "bit (BSWAP_8 (x :: u64)) n \<longleftrightarrow> n < 8 \<and> bit x n"
  by (auto simp: BSWAP_8_def mask_8 bit_simps)

lemma bit_BSWAP_16:
  "bit (BSWAP_16 (x :: u64)) n \<longleftrightarrow>
     (if n < 8 then bit x (n + 8) else n < 16 \<and> bit x (n - 8))"
  by (auto simp: BSWAP_16_def bit_simps bit_BSWAP_8 add.commute)

lemma bit_BSWAP_32:
  "bit (BSWAP_32 (x :: u64)) n \<longleftrightarrow>
     (if n < 8 then bit x (n + 24) else if n < 16 then bit x (n + 8)
      else if n < 24 then bit x (n - 8) else n < 32 \<and> bit x (n - 24))"
  by (auto simp: BSWAP_32_def bit_simps bit_BSWAP_16 add.commute)

lemma bit_BSWAP_64:
  "bit (BSWAP_64 (x :: u64)) n \<longleftrightarrow>
     (if n < 8 then bit x (n + 56) else if n < 16 then bit x (n + 40)
      else if n < 24 then bit x (n + 24) else if n < 32 then bit x (n + 8)
      else if n < 40 then bit x (n - 8) else if n < 48 then bit x (n - 24)
      else if n < 56 then bit x (n - 40) else n < 64 \<and> bit x (n - 56))"
  by (auto simp: BSWAP_64_def bit_simps bit_BSWAP_32 add.commute)

text \<open>Byte \<open>i\<close> of a word, the least significant one being byte 0.\<close>

definition byte_of :: "u64 \<Rightarrow> nat \<Rightarrow> u8" where
  "byte_of x i = ucast (drop_bit (8 * i) x)"

lemma bit_byte_of: "bit (byte_of x i) n \<longleftrightarrow> n < 8 \<and> bit x (8 * i + n)"
  by (auto simp: byte_of_def bit_simps)

lemma byte_of_BSWAP_64:
  "byte_of (BSWAP_64 x) 0 = byte_of x 7" "byte_of (BSWAP_64 x) 1 = byte_of x 6"
  "byte_of (BSWAP_64 x) 2 = byte_of x 5" "byte_of (BSWAP_64 x) 3 = byte_of x 4"
  "byte_of (BSWAP_64 x) 4 = byte_of x 3" "byte_of (BSWAP_64 x) 5 = byte_of x 2"
  "byte_of (BSWAP_64 x) 6 = byte_of x 1" "byte_of (BSWAP_64 x) 7 = byte_of x 0"
  by (rule bit_word_eqI; simp add: bit_byte_of bit_BSWAP_64 add.commute)+

lemma BSWAP_64_involutive: "BSWAP_64 (BSWAP_64 (x :: u64)) = x"
  by (rule bit_word_eqI) (auto simp: bit_BSWAP_64)

text \<open>A word is its bytes.\<close>

lemma word_eq_bytes:
  assumes "\<And>i. i < 8 \<Longrightarrow> byte_of x i = byte_of y i"
  shows "x = y"
proof (rule bit_word_eqI)
  fix n
  assume "n < LENGTH(64)"
  then have "n div 8 < 8" by simp
  from assms [OF this] have "bit (byte_of x (n div 8)) (n mod 8) = bit (byte_of y (n div 8)) (n mod 8)"
    by simp
  then show "bit x n = bit y n" by (simp add: bit_byte_of)
qed

lemma byte_index_cases: "i < (8 :: nat) \<Longrightarrow> i \<in> {0, 1, 2, 3, 4, 5, 6, 7}"
  by auto

lemma byte_of_BE_IN64:
  "byte_of (BE_IN64 m a) 0 = m (a + 7)" "byte_of (BE_IN64 m a) 1 = m (a + 6)"
  "byte_of (BE_IN64 m a) 2 = m (a + 5)" "byte_of (BE_IN64 m a) 3 = m (a + 4)"
  "byte_of (BE_IN64 m a) 4 = m (a + 3)" "byte_of (BE_IN64 m a) 5 = m (a + 2)"
  "byte_of (BE_IN64 m a) 6 = m (a + 1)" "byte_of (BE_IN64 m a) 7 = m a"
  by (rule bit_word_eqI; auto simp: bit_byte_of BE_IN64_def BE_IN32_def BE_IN16_def BE_IN8_def
      bit_simps add.assoc dest: bit_imp_le_length)+

lemma byte_of_LE_IN64:
  "byte_of (LE_IN64 m a) 7 = m (a + 7)" "byte_of (LE_IN64 m a) 6 = m (a + 6)"
  "byte_of (LE_IN64 m a) 5 = m (a + 5)" "byte_of (LE_IN64 m a) 4 = m (a + 4)"
  "byte_of (LE_IN64 m a) 3 = m (a + 3)" "byte_of (LE_IN64 m a) 2 = m (a + 2)"
  "byte_of (LE_IN64 m a) 1 = m (a + 1)" "byte_of (LE_IN64 m a) 0 = m a"
  by (rule bit_word_eqI; auto simp: bit_byte_of LE_IN64_def LE_IN32_def LE_IN16_def LE_IN8_def
      bit_simps add.assoc dest: bit_imp_le_length)+

lemma BE_OUT64_bytes:
  "BE_OUT64 a v m =
    m(a + 7 := byte_of v 0, a + 6 := byte_of v 1, a + 5 := byte_of v 2, a + 4 := byte_of v 3,
      a + 3 := byte_of v 4, a + 2 := byte_of v 5, a + 1 := byte_of v 6, a := byte_of v 7)"
  by (simp add: BE_OUT64_def BE_OUT32_def BE_OUT16_def BE_OUT8_def byte_of_def add.assoc)

lemma LE_OUT64_bytes:
  "LE_OUT64 a v m =
    m(a := byte_of v 0, a + 1 := byte_of v 1, a + 2 := byte_of v 2, a + 3 := byte_of v 3,
      a + 4 := byte_of v 4, a + 5 := byte_of v 5, a + 6 := byte_of v 6, a + 7 := byte_of v 7)"
  by (simp add: LE_OUT64_def LE_OUT32_def LE_OUT16_def LE_OUT8_def byte_of_def add.assoc)

lemma bit_BSWAP_32_u32:
  "bit (BSWAP_32 (x :: u32)) n \<longleftrightarrow>
     (if n < 8 then bit x (n + 24) else if n < 16 then bit x (n + 8)
      else if n < 24 then bit x (n - 8) else n < 32 \<and> bit x (n - 24))"
  by (auto simp: BSWAP_32_def BSWAP_16_def BSWAP_8_def mask_8 bit_simps add.commute)

lemma htonll_little: "htonll False BSWAP_32 n = BSWAP_64 n"
proof -
  let ?hi = "push_bit 32 (ucast (BSWAP_32 (ucast n :: u32)) :: u64)"
  let ?lo = "ucast (BSWAP_32 (ucast (drop_bit 32 n) :: u32)) :: u64"
  have "?hi AND ?lo = 0" by (rule bit_word_eqI) (auto simp: bit_simps bit_BSWAP_32_u32)
  then have "htonll False BSWAP_32 n = ?hi OR ?lo"
    by (simp add: htonll_def word_plus_and_or [symmetric, of ?hi ?lo])
  also have "\<dots> = BSWAP_64 n"
    by (rule bit_word_eqI) (auto simp: bit_simps bit_BSWAP_64 bit_BSWAP_32_u32 add.commute)
  finally show ?thesis .
qed

subsection \<open>Properties\<close>

text \<open>
  \<^verbatim>\<open>BSWAP_64\<close> reverses the eight bytes of its argument, and so undoes itself.
\<close>

theorem bswap_64_reverses_bytes:
  "map (byte_of (BSWAP_64 x)) [0 ..< 8] = rev (map (byte_of x) [0 ..< 8]) \<and>
   BSWAP_64 (BSWAP_64 x) = x"
proof -
  have "[0 ..< 8] = [0 :: nat, 1, 2, 3, 4, 5, 6, 7]" by code_simp
  then show ?thesis using byte_of_BSWAP_64 [of x] by (simp add: BSWAP_64_involutive)
qed

text \<open>
  C39: a 64-bit value written to memory in either byte order at any address, aligned or not and
  even across the end of the address space, is read back in the same order unchanged, is read in
  the other order with its bytes swapped, and no byte outside the eight written changes.
\<close>

theorem unaligned_roundtrip:
  "BE_IN64 (BE_OUT64 a v m) a = v \<and> LE_IN64 (LE_OUT64 a v m) a = v \<and>
   BE_IN64 (LE_OUT64 a v m) a = BSWAP_64 v \<and> LE_IN64 (BE_OUT64 a v m) a = BSWAP_64 v \<and>
   (\<forall>b. b \<notin> {a, a + 1, a + 2, a + 3, a + 4, a + 5, a + 6, a + 7} \<longrightarrow>
      BE_OUT64 a v m b = m b \<and> LE_OUT64 a v m b = m b)"
proof (intro conjI allI impI)
  show "BE_IN64 (BE_OUT64 a v m) a = v" "LE_IN64 (LE_OUT64 a v m) a = v"
    "BE_IN64 (LE_OUT64 a v m) a = BSWAP_64 v" "LE_IN64 (BE_OUT64 a v m) a = BSWAP_64 v"
    by (rule word_eq_bytes, drule byte_index_cases, elim insertE emptyE;
        simp add: byte_of_BE_IN64 byte_of_LE_IN64 BE_OUT64_bytes LE_OUT64_bytes byte_of_BSWAP_64
          byte_of_BSWAP_64 [simplified] byte_of_BE_IN64 [simplified] byte_of_LE_IN64 [simplified])+
qed (auto simp: BE_OUT64_bytes LE_OUT64_bytes)

theorem unaligned_roundtrip_witness:
  "BE_OUT64 3 (0x1122334455667788 :: u64) (\<lambda>_. 0) 20 = 0"
proof -
  note frame = unaligned_roundtrip [of 3 "0x1122334455667788" "\<lambda>_. 0", THEN conjunct2, THEN conjunct2,
      THEN conjunct2, THEN conjunct2, rule_format, of 20]
  from frame show ?thesis by simp
qed

text \<open>
  The 64-bit network conversion of a little-endian host, given a 32-bit conversion that
  swaps bytes, is \<^verbatim>\<open>BSWAP_64\<close>; the two directions undo each other, and a value converted
  and stored natively has the bytes of the value stored in big-endian order.
\<close>

theorem htonll_network_order:
  assumes "htonl = BSWAP_32" and "ntohl = BSWAP_32"
  shows "htonll False htonl n = BSWAP_64 n \<and> ntohll False ntohl (htonll False htonl n) = n \<and>
    LE_OUT64 a (htonll False htonl n) m = BE_OUT64 a n m"
proof -
  have "ntohll False BSWAP_32 = htonll False BSWAP_32"
    by (simp add: ntohll_def htonll_def fun_eq_iff)
  moreover have "LE_OUT64 a (BSWAP_64 n) m = BE_OUT64 a n m"
    by (simp add: LE_OUT64_bytes BE_OUT64_bytes byte_of_BSWAP_64 byte_of_BSWAP_64 [simplified]
        fun_upd_twist)
  ultimately show ?thesis using assms by (simp add: htonll_little BSWAP_64_involutive)
qed

theorem htonll_network_order_witness:
  "htonll False BSWAP_32 0x1122334455667788 = 0x8877665544332211"
  using htonll_network_order [of BSWAP_32 BSWAP_32 "0x1122334455667788"]
  by (simp add: BSWAP_64_def BSWAP_32_def BSWAP_16_def BSWAP_8_def)

end
