(* ===== verification/Sysmacros.thy ===== *)
theory Sysmacros
  imports Prelude
begin

text \<open>
  The arithmetic macros of \<^verbatim>\<open>src/surgeon/compat/os/linux/sys/sysmacros.h\<close>, typed at
  \<^verbatim>\<open>uint64_t\<close> with its wrap-around. The lemmas give the \<^verbatim>\<open>P2\<close> macros, for an alignment
  that is a power of two, their arithmetic meaning: quotient, remainder, rounding down and up,
  crossing of a boundary; and say where rounding up leaves the range.
\<close>

subsection \<open>Common macros\<close>

definition c_MIN :: "'a::linorder \<Rightarrow> 'a \<Rightarrow> 'a" where "c_MIN a b = (if a < b then a else b)"

definition c_MAX :: "'a::linorder \<Rightarrow> 'a \<Rightarrow> 'a" where "c_MAX a b = (if a < b then b else a)"

text \<open>\<^verbatim>\<open>ABS\<close> of an \<^verbatim>\<open>int\<close>; negating the least one wraps, the value the compilers give.\<close>

definition c_ABS :: "c_int \<Rightarrow> c_int" where "c_ABS a = (if a <s 0 then - a else a)"

definition ARRAY_SIZE :: "nat \<Rightarrow> nat \<Rightarrow> nat" where
  "ARRAY_SIZE size_a size_a0 = size_a div size_a0"

definition DIV_ROUND_UP :: "u64 \<Rightarrow> u64 \<Rightarrow> u64" where "DIV_ROUND_UP n d = (n + d - 1) div d"

subsection \<open>Powers of two\<close>

definition P2CROSS :: "u64 \<Rightarrow> u64 \<Rightarrow> u64 \<Rightarrow> bool" where
  "P2CROSS x y align \<longleftrightarrow> (x XOR y) > align - 1"

definition P2ROUNDUP :: "u64 \<Rightarrow> u64 \<Rightarrow> u64" where
  "P2ROUNDUP x align = ((x - 1) OR (align - 1)) + 1"

definition P2BOUNDARY :: "u64 \<Rightarrow> u64 \<Rightarrow> u64 \<Rightarrow> bool" where
  "P2BOUNDARY off len align \<longleftrightarrow> (off XOR (off + len - 1)) > align - 1"

definition P2PHASE :: "u64 \<Rightarrow> u64 \<Rightarrow> u64" where "P2PHASE x align = x AND (align - 1)"

definition P2NPHASE :: "u64 \<Rightarrow> u64 \<Rightarrow> u64" where "P2NPHASE x align = (- x) AND (align - 1)"

definition ISP2 :: "u64 \<Rightarrow> bool" where "ISP2 x \<longleftrightarrow> (x AND (x - 1)) = 0"

definition IS_P2ALIGNED :: "u64 \<Rightarrow> u64 \<Rightarrow> bool" where
  "IS_P2ALIGNED v a \<longleftrightarrow> (v AND (a - 1)) = 0"

definition P2ALIGN_TYPED :: "u64 \<Rightarrow> u64 \<Rightarrow> u64" where "P2ALIGN_TYPED x align = x AND - align"

definition P2END_TYPED :: "u64 \<Rightarrow> u64 \<Rightarrow> u64" where "P2END_TYPED x align = - ((NOT x) AND - align)"

definition P2PHASEUP_TYPED :: "u64 \<Rightarrow> u64 \<Rightarrow> u64 \<Rightarrow> u64" where
  "P2PHASEUP_TYPED x align phase = phase - ((phase - x) AND - align)"

definition P2SAMEHIGHBIT_TYPED :: "u64 \<Rightarrow> u64 \<Rightarrow> bool" where
  "P2SAMEHIGHBIT_TYPED x y \<longleftrightarrow> (x XOR y) < (x AND y)"

text \<open>
  The typed variants of the macros above, at type \<^verbatim>\<open>uint64_t\<close>, with arguments of any unsigned
  types: the casts come first.
\<close>

definition P2PHASE_TYPED :: "'a::len word \<Rightarrow> 'b::len word \<Rightarrow> u64" where
  "P2PHASE_TYPED x align = ucast x AND (ucast align - 1)"

definition P2NPHASE_TYPED :: "'a::len word \<Rightarrow> 'b::len word \<Rightarrow> u64" where
  "P2NPHASE_TYPED x align = (- ucast x) AND (ucast align - 1)"

definition P2ROUNDUP_TYPED :: "'a::len word \<Rightarrow> 'b::len word \<Rightarrow> u64" where
  "P2ROUNDUP_TYPED x align = ((ucast x - 1) OR (ucast align - 1)) + 1"

definition P2CROSS_TYPED :: "'a::len word \<Rightarrow> 'a word \<Rightarrow> 'b::len word \<Rightarrow> bool" where
  "P2CROSS_TYPED x y align \<longleftrightarrow> (ucast x XOR ucast y) > (ucast align :: u64) - 1"

subsection \<open>Bit facts\<close>

lemma exp_minus_1: "(2 ^ k :: u64) - 1 = mask k"
  by (simp add: mask_eq_exp_minus_1)

lemma neg_exp: "- (2 ^ k :: u64) = NOT (mask k)"
  by (simp add: minus_exp_eq_not_mask)

lemma unat_exp:
  assumes "k < 64"
  shows "unat (2 ^ k :: u64) = 2 ^ k"
proof -
  have "(2 :: nat) ^ k < 2 ^ 64" using assms by (intro power_strict_increasing) simp_all
  then have "unat (of_nat (2 ^ k) :: u64) = 2 ^ k"
    by (simp only: unat_of_nat) simp
  then show ?thesis by simp
qed

lemma phase_mod: "unat ((x :: u64) AND mask k) = unat x mod 2 ^ k"
  by (metis take_bit_eq_mask take_bit_eq_mod unsigned_take_bit_eq)

lemma align_phase: "(x :: u64) AND NOT (mask k) = x - (x AND mask k)"
proof -
  let ?p = "x AND mask k" and ?q = "x AND NOT (mask k)"
  have "?p AND ?q = 0" and "?p OR ?q = x" by (auto intro!: bit_word_eqI simp: bit_simps)
  then have "?p + ?q = x" using word_plus_and_or [of ?p ?q] by simp
  then show ?thesis by (metis add_diff_cancel_left')
qed

lemma align_div: "unat ((x :: u64) AND NOT (mask k)) = unat x div 2 ^ k * 2 ^ k"
proof -
  have le: "unat (x AND mask k) \<le> unat x" by (simp add: phase_mod)
  then have "unat (x AND NOT (mask k)) = unat x - unat x mod 2 ^ k"
    by (simp add: align_phase unat_sub_if_size word_le_nat_alt phase_mod)
  then show ?thesis by (simp add: minus_mod_eq_div_mult)
qed

lemma div_eq_drop_bit: "unat (drop_bit k (x :: u64)) = unat x div 2 ^ k"
  by (metis drop_bit_eq_div unat_drop_bit_eq)

lemma xor_zero_iff: "(a XOR b) = 0 \<longleftrightarrow> a = (b :: u64)"
  by (auto simp: bit_eq_iff bit_simps)

text \<open>Two words differ above bit \<open>k\<close> exactly when their quotients differ.\<close>

lemma cross_div:
  assumes "k < 64"
  shows "(x XOR y) > mask k \<longleftrightarrow> unat x div 2 ^ k \<noteq> unat (y :: u64) div 2 ^ k"
proof -
  have "unat (mask k :: u64) = 2 ^ k - 1"
    using unat_exp [OF assms]
    by (simp add: exp_minus_1 [symmetric] unat_sub_if_size word_le_nat_alt)
  then have "unat (mask k :: u64) + 1 = 2 ^ k" by simp
  then have "(x XOR y) > mask k \<longleftrightarrow> \<not> unat (x XOR y) < 2 ^ k"
    unfolding word_less_nat_alt by linarith
  also have "unat (x XOR y) < 2 ^ k \<longleftrightarrow> drop_bit k (x XOR y) = 0"
    using div_eq_drop_bit [of k "x XOR y"] by (metis div_eq_0_iff power_not_zero unat_eq_0 zero_neq_numeral)
  also have "drop_bit k (x XOR y) = 0 \<longleftrightarrow> drop_bit k x = drop_bit k y"
    unfolding drop_bit_xor by (rule xor_zero_iff)
  also have "\<dots> \<longleftrightarrow> unat x div 2 ^ k = unat y div 2 ^ k"
    by (simp flip: div_eq_drop_bit add: word_unat_eq_iff)
  finally show ?thesis by blast
qed

text \<open>Rounding up, as the negation of rounding the negation down.\<close>

lemma roundup_neg: "((x :: u64) - 1 OR mask k) + 1 = - ((- x) AND NOT (mask k))"
proof -
  have "NOT (x - 1 OR mask k) = (NOT (x - 1)) AND NOT (mask k)" by simp
  moreover have "NOT (x - 1) = - x" by (simp add: not_eq_complement)
  ultimately have "NOT (x - 1 OR mask k) = (- x) AND NOT (mask k)" by simp
  moreover have "(x - 1 OR mask k) + 1 = - NOT (x - 1 OR mask k)" by (simp only: not_eq_complement) simp
  ultimately show ?thesis by simp
qed

lemma unat_roundup:
  assumes "k < 64"
  shows "unat (((x :: u64) - 1 OR mask k) + 1) = (unat x + 2 ^ k - 1) div 2 ^ k * 2 ^ k mod 2 ^ 64"
proof (cases "x = 0")
  case True
  then show ?thesis by (simp add: roundup_neg)
next
  case False
  let ?y = "x - 1"
  have pos: "0 < unat x" using False by (simp add: unat_gt_0)
  have y: "unat ?y = unat x - 1" using pos by (simp add: unat_sub_if_size word_le_nat_alt)
  have "?y OR mask k = (?y AND NOT (mask k)) + mask k"
  proof -
    let ?p = "?y AND NOT (mask k)"
    have "?p AND mask k = 0" and "?p OR mask k = ?y OR mask k"
      by (auto intro!: bit_word_eqI simp: bit_simps)
    then show ?thesis using word_plus_and_or [of ?p "mask k"] by simp
  qed
  then have "(?y OR mask k) + 1 = (?y AND NOT (mask k)) + 2 ^ k"
    by (simp add: exp_minus_1 [symmetric])
  then have "unat ((?y OR mask k) + 1) = (unat ?y div 2 ^ k * 2 ^ k + 2 ^ k) mod 2 ^ 64"
    using unat_exp [OF assms] by (simp add: unat_word_ariths align_div)
  also have "unat ?y div 2 ^ k * 2 ^ k + 2 ^ k = (unat x + 2 ^ k - 1) div 2 ^ k * 2 ^ k"
  proof -
    have "(unat x + 2 ^ k - 1) = (unat x - 1) + 2 ^ k" using pos by simp
    then show ?thesis using y by (simp only: div_add_self2 [OF power_not_zero [of 2 k]]) simp
  qed
  finally show ?thesis .
qed

lemma roundup_phase_zero:
  assumes "k < 64"
  shows "((x :: u64) + ((- x) AND mask k) = x - (x AND mask k)) \<longleftrightarrow> x AND mask k = 0"
proof
  assume "x + ((- x) AND mask k) = x - (x AND mask k)"
  then have s: "((- x) AND mask k) + (x AND mask k) = 0" by (simp add: algebra_simps)
  have lt: "unat (y AND mask k) < 2 ^ k" for y :: u64 by (simp add: phase_mod)
  have "(2 :: nat) ^ k \<le> 2 ^ 63" using assms by (intro power_increasing) auto
  then have "unat ((- x) AND mask k) + unat (x AND mask k) < 2 ^ 64"
    using lt [of "- x"] lt [of x] by simp
  then have "unat (((- x) AND mask k) + (x AND mask k)) = unat ((- x) AND mask k) + unat (x AND mask k)"
    by (simp add: unat_word_ariths)
  with s have "unat (x AND mask k) = 0" by simp
  then show "x AND mask k = 0" by (simp add: unat_eq_0)
next
  assume h: "x AND mask k = 0"
  then have "2 ^ k dvd unat x" by (simp add: and_mask_dvd_nat)
  then have "2 ^ k dvd uint x" by (simp add: and_mask_dvd h)
  then have "(- x) AND mask k = 0"
    using h mask_eqs(10) [of x k] by (simp add: take_bit_eq_mask [symmetric])
  with h show "x + ((- x) AND mask k) = x - (x AND mask k)" by simp
qed

lemma highest_bit:
  assumes "(x :: u64) \<noteq> 0"
  obtains k where "2 ^ k \<le> unat x" and "unat x < 2 ^ (k + 1)"
proof -
  have "1 \<le> unat x" using assms by (simp add: Suc_le_eq unat_gt_0)
  then show thesis using ex_power_ivl1 [of 2 "unat x"] that by auto
qed

lemma bit_in_range:
  assumes "2 ^ k \<le> unat (x :: u64)" and "unat x < 2 ^ (k + 1)"
  shows "bit x k"
proof -
  have "unat x div 2 ^ k = 1" using assms by (intro div_nat_eqI) simp_all
  then have "bit (unat x) k" by (simp add: bit_iff_odd)
  then show ?thesis by (simp add: bit_unsigned_iff)
qed

lemma isp2_iff: "(x AND (x - 1)) = 0 \<longleftrightarrow> x = 0 \<or> (\<exists>k < 64. x = (2 ^ k :: u64))"
proof
  assume h: "(x AND (x - 1)) = 0"
  show "x = 0 \<or> (\<exists>k < 64. x = (2 ^ k :: u64))"
  proof (cases "x = 0")
    case False
    obtain k where k: "2 ^ k \<le> unat x" "unat x < 2 ^ (k + 1)" using highest_bit [OF False] .
    have bx: "bit x k" using bit_in_range [OF k] .
    then have "k < 64" using bit_imp_le_length by fastforce
    have "unat x = 2 ^ k"
    proof (rule ccontr)
      assume "unat x \<noteq> 2 ^ k"
      moreover have "unat (x - 1) = unat x - 1"
        using False by (simp add: unat_sub_if_size word_le_nat_alt Suc_le_eq unat_gt_0)
      ultimately have "bit (x - 1) k" using k by (intro bit_in_range) auto
      with bx have "bit (x AND (x - 1)) k" by (simp add: bit_simps)
      with h show False by simp
    qed
    then have "x = 2 ^ k" using unat_exp [OF \<open>k < 64\<close>] by (simp add: word_unat_eq_iff)
    with \<open>k < 64\<close> show ?thesis by blast
  qed simp
next
  assume "x = 0 \<or> (\<exists>k < 64. x = (2 ^ k :: u64))"
  then show "(x AND (x - 1)) = 0"
  proof
    assume "\<exists>k < 64. x = (2 ^ k :: u64)"
    then obtain k where "x = (2 ^ k :: u64)" by blast
    then show ?thesis
      by (auto intro!: bit_word_eqI simp: exp_minus_1 bit_simps simp del: mask_eq_exp_minus_1)
  qed simp
qed

subsection \<open>Properties\<close>

text \<open>
  C40: for an alignment \<open>2 ^ k\<close>, \<^verbatim>\<open>P2PHASE\<close> is the remainder and \<^verbatim>\<open>P2ALIGN_TYPED\<close>
  the largest multiple of the alignment not above the argument, \<^verbatim>\<open>P2ROUNDUP\<close> the least
  multiple not below it, reduced modulo \<open>2 ^ 64\<close> (so it wraps to zero above the last
  multiple), and \<^verbatim>\<open>P2NPHASE\<close> is what separates the argument from the latter.
\<close>

theorem p2_rounding:
  assumes "k < 64"
  shows "unat (P2PHASE x (2 ^ k)) = unat x mod 2 ^ k \<and>
    unat (P2ALIGN_TYPED x (2 ^ k)) = unat x div 2 ^ k * 2 ^ k \<and>
    unat (P2ROUNDUP x (2 ^ k)) = (unat x + 2 ^ k - 1) div 2 ^ k * 2 ^ k mod 2 ^ 64 \<and>
    P2ROUNDUP x (2 ^ k) = x + P2NPHASE x (2 ^ k) \<and>
    (IS_P2ALIGNED x (2 ^ k) \<longleftrightarrow> P2ROUNDUP x (2 ^ k) = P2ALIGN_TYPED x (2 ^ k))"
proof (intro conjI)
  show "unat (P2PHASE x (2 ^ k)) = unat x mod 2 ^ k"
    by (simp add: P2PHASE_def exp_minus_1 phase_mod)
  show "unat (P2ALIGN_TYPED x (2 ^ k)) = unat x div 2 ^ k * 2 ^ k"
    by (simp add: P2ALIGN_TYPED_def neg_exp align_div)
  show "unat (P2ROUNDUP x (2 ^ k)) = (unat x + 2 ^ k - 1) div 2 ^ k * 2 ^ k mod 2 ^ 64"
    unfolding P2ROUNDUP_def exp_minus_1 by (rule unat_roundup [OF assms])
  show up: "P2ROUNDUP x (2 ^ k) = x + P2NPHASE x (2 ^ k)"
    by (simp add: P2ROUNDUP_def P2NPHASE_def exp_minus_1 roundup_neg align_phase)
  show "IS_P2ALIGNED x (2 ^ k) \<longleftrightarrow> P2ROUNDUP x (2 ^ k) = P2ALIGN_TYPED x (2 ^ k)"
  proof -
    have "IS_P2ALIGNED x (2 ^ k) \<longleftrightarrow> x AND mask k = 0"
      by (simp add: IS_P2ALIGNED_def exp_minus_1)
    moreover have "P2ALIGN_TYPED x (2 ^ k) = x - (x AND mask k)"
      by (simp add: P2ALIGN_TYPED_def neg_exp align_phase)
    moreover have "(x + ((- x) AND mask k) = x - (x AND mask k)) \<longleftrightarrow> x AND mask k = 0"
      using roundup_phase_zero [OF assms] .
    ultimately show ?thesis unfolding up by (simp add: P2NPHASE_def exp_minus_1)
  qed
qed

theorem p2_rounding_witness: "unat (P2ROUNDUP 0x1234 (2 ^ 9)) = 0x1400"
proof -
  have "unat (P2ROUNDUP 0x1234 (2 ^ 9)) = (unat (0x1234 :: u64) + 2 ^ 9 - 1) div 2 ^ 9 * 2 ^ 9 mod 2 ^ 64"
    by (rule p2_rounding [of 9 "0x1234", THEN conjunct2, THEN conjunct2, THEN conjunct1]) simp
  then show ?thesis by simp
qed

text \<open>
  Two addresses are found to lie across a boundary exactly when their quotients by the
  alignment differ; and a range of bytes that does not wrap crosses a boundary exactly when its
  first and its last byte do.
\<close>

theorem p2_crossing:
  assumes "k < 64" and "0 < unat len" and "unat off + unat len \<le> 2 ^ 64"
  shows "(P2CROSS x y (2 ^ k) \<longleftrightarrow> unat x div 2 ^ k \<noteq> unat y div 2 ^ k) \<and>
    (P2BOUNDARY off len (2 ^ k) \<longleftrightarrow>
       unat off div 2 ^ k \<noteq> (unat off + unat len - 1) div 2 ^ k)"
proof -
  have "unat (off + len - 1) = unat off + unat len - 1"
  proof -
    have l: "unat (len - 1) = unat len - 1"
      using assms(2) by (simp add: unat_sub_if_size word_le_nat_alt)
    have "off + len - 1 = off + (len - 1)" by simp
    also have "unat \<dots> = unat off + (unat len - 1)"
      using l assms(2,3) by (subst unat_word_ariths) (simp add: l)
    finally show ?thesis using assms(2) by simp
  qed
  then show ?thesis
    using cross_div [OF assms(1), of x y] cross_div [OF assms(1), of off "off + len - 1"]
    by (simp add: P2CROSS_def P2BOUNDARY_def exp_minus_1)
qed

theorem p2_crossing_witness: "P2BOUNDARY 0x1ff 2 (2 ^ 9) \<and> \<not> P2BOUNDARY 0x1fe 2 (2 ^ 9)"
  using p2_crossing [of 9 2 "0x1ff"] p2_crossing [of 9 2 "0x1fe"] by simp

text \<open>
  \<^verbatim>\<open>ISP2\<close> holds of the powers of two, and of zero.
\<close>

theorem isp2_powers_and_zero: "ISP2 x \<longleftrightarrow> x = 0 \<or> (\<exists>k < 64. x = 2 ^ k)"
  unfolding ISP2_def by (rule isp2_iff)

theorem isp2_powers_and_zero_witness: "ISP2 (2 ^ 40) \<and> ISP2 0"
proof -
  have "\<exists>k < 64. (2 ^ 40 :: u64) = 2 ^ k" by (rule exI [of _ 40]) simp
  then show ?thesis using isp2_powers_and_zero [of "2 ^ 40"] isp2_powers_and_zero [of 0] by blast
qed

text \<open>
  The typed macros do not depend on the type of the alignment: a power of two of any unsigned type
  rounds an argument of at most 64 bits as the arithmetic says.
\<close>

lemma ucast_exp:
  assumes "k < LENGTH('b)"
  shows "ucast (2 ^ k :: 'b::len word) = (2 ^ k :: u64)"
  by (rule bit_word_eqI) (use assms in \<open>auto simp: bit_simps\<close>)

lemma unat_ucast_wide: "LENGTH('a) \<le> 64 \<Longrightarrow> unat (ucast (x :: 'a::len word) :: u64) = unat x"
proof -
  assume "LENGTH('a) \<le> 64"
  then have "(2 :: nat) ^ LENGTH('a) \<le> 2 ^ 64" by (intro power_increasing) simp_all
  with unsigned_less [where 'a = nat, of x] have "unat x < 2 ^ 64" by linarith
  then show ?thesis by (simp add: unsigned_ucast_eq take_bit_nat_eq_self)
qed

theorem p2_typed_any_alignment:
  assumes "LENGTH('a) \<le> 64" "k < LENGTH('b)" "k < 64"
  shows "unat (P2PHASE_TYPED (x :: 'a::len word) (2 ^ k :: 'b::len word)) = unat x mod 2 ^ k \<and>
    unat (P2ROUNDUP_TYPED x (2 ^ k :: 'b word)) = (unat x + 2 ^ k - 1) div 2 ^ k * 2 ^ k mod 2 ^ 64 \<and>
    P2ROUNDUP_TYPED x (2 ^ k :: 'b word) = ucast x + P2NPHASE_TYPED x (2 ^ k :: 'b word) \<and>
    (P2CROSS_TYPED x y (2 ^ k :: 'b word) \<longleftrightarrow> unat x div 2 ^ k \<noteq> unat y div 2 ^ k)"
proof (intro conjI)
  note cast = ucast_exp [OF assms(2)] unat_ucast_wide [OF assms(1)]
  show "unat (P2PHASE_TYPED x (2 ^ k :: 'b word)) = unat x mod 2 ^ k"
    by (simp add: P2PHASE_TYPED_def cast exp_minus_1 phase_mod)
  show "unat (P2ROUNDUP_TYPED x (2 ^ k :: 'b word)) = (unat x + 2 ^ k - 1) div 2 ^ k * 2 ^ k mod 2 ^ 64"
    using unat_roundup [OF assms(3), of "ucast x"] by (simp add: P2ROUNDUP_TYPED_def cast exp_minus_1)
  show "P2ROUNDUP_TYPED x (2 ^ k :: 'b word) = ucast x + P2NPHASE_TYPED x (2 ^ k :: 'b word)"
    by (simp add: P2ROUNDUP_TYPED_def P2NPHASE_TYPED_def cast exp_minus_1 roundup_neg align_phase)
  show "P2CROSS_TYPED x y (2 ^ k :: 'b word) \<longleftrightarrow> unat x div 2 ^ k \<noteq> unat y div 2 ^ k"
    using cross_div [OF assms(3), of "ucast x" "ucast y"] by (simp add: P2CROSS_TYPED_def cast exp_minus_1)
qed

theorem p2_typed_any_alignment_witness:
  "unat (P2ROUNDUP_TYPED (0x100000001 :: u64) (2 ^ 12 :: 32 word)) = 0x100001000"
proof -
  have "unat (P2ROUNDUP_TYPED (0x100000001 :: u64) (2 ^ 12 :: 32 word)) =
      (unat (0x100000001 :: u64) + 2 ^ 12 - 1) div 2 ^ 12 * 2 ^ 12 mod 2 ^ 64"
    by (rule p2_typed_any_alignment [where 'a = 64 and 'b = 32, of 12 "0x100000001" 0, THEN conjunct2, THEN conjunct1])
      simp_all
  then show ?thesis by simp
qed

end
