(* ===== verification/IsaDefs.thy ===== *)
theory IsaDefs
  imports Prelude
begin

text \<open>
  The instruction-set header \<^verbatim>\<open>src/surgeon/compat/sys/isa_defs.h\<close>. The header is a program
  of the C preprocessor: it reads which macros the compiler has predefined and defines others,
  or stops with \<^verbatim>\<open>#error\<close>. Its model is a function on the set of defined macros. The lemmas
  show that what passes has exactly one byte order and exactly one data model, and which
  compilers are turned away.
\<close>

subsection \<open>Macros\<close>

text \<open>
  The macros the header tests or defines. The comparisons of a byte-order macro with a constant
  are tests of their own, as are \<^verbatim>\<open>__riscv_xlen == 64\<close> and \<^verbatim>\<open>__riscv_atomic\<close>.
\<close>

datatype macro =
    M_x86_64 | MM_x86_64 | M_amd64 | M_x86
  | M_i386 | MM_i386
  | M_powerpc | MM_powerpc | MM_powerpc64
  | M_arm | MM_arm | M_ARMEL | M_ARM_FEATURE_UNALIGNED
  | MM_aarch64 | M_AARCH64EL
  | M_sparc | MM_sparc | MM_arch64
  | MM_s390 | MM_s390x
  | MM_mips | M_MIPSEB | M_MIPSEL
  | M_riscv | M_riscv_xlen | M_riscv_xlen_is_64 | M_riscv_atomic | M_riscv_atomic_nonzero
  | MM_riscv | MM_rv64g
  | MM_loongarch | M_loongarch_lp64
  | M__BYTE_ORDER | M__BIG_ENDIAN | M__LITTLE_ENDIAN
  | M__BYTE_ORDER_is_big | M__BYTE_ORDER_is_little
  | M_BYTE_ORDER | M_BIG_ENDIAN | M_LITTLE_ENDIAN
  | M_BYTE_ORDER_is_big | M_BYTE_ORDER_is_little
  | M_LP64 | M_ILP32
  | M_ZFS_LITTLE_ENDIAN | M_ZFS_BIG_ENDIAN
  | M_SUNOS_VTOC_16 | M_HAVE_EFFICIENT_UNALIGNED_ACCESS | M_ALIGNMENT_REQUIRED

type_synonym cpp = "macro \<Rightarrow> bool"

datatype cpp_error =
    Mips_no_endian
  | Unsupported_ISA
  | Both_data_models
  | No_data_model
  | Both_byte_orders
  | No_byte_order

fun cpp_define :: "macro list \<Rightarrow> cpp \<Rightarrow> cpp" where
  "cpp_define [] e = e"
| "cpp_define (m # ms) e = cpp_define ms (e(m := True))"

subsection \<open>The branches\<close>

definition isa_x86_64 :: "cpp \<Rightarrow> cpp" where
  "isa_x86_64 e =
    (let e = cpp_define [M_x86_64, M_amd64, M_x86] e;
         e = (if e M_ILP32 then e else cpp_define [M_LP64] e)
     in cpp_define [M_ZFS_LITTLE_ENDIAN, M_SUNOS_VTOC_16, M_HAVE_EFFICIENT_UNALIGNED_ACCESS] e)"

definition isa_i386 :: "cpp \<Rightarrow> cpp" where
  "isa_i386 e =
     cpp_define [M_i386, M_x86, M_ILP32, M_ZFS_LITTLE_ENDIAN, M_SUNOS_VTOC_16,
       M_HAVE_EFFICIENT_UNALIGNED_ACCESS] e"

definition isa_powerpc :: "cpp \<Rightarrow> cpp" where
  "isa_powerpc e =
    (let e = cpp_define [M_powerpc, MM_powerpc] e;
         e = (if e MM_powerpc64 then cpp_define [M_LP64] e else cpp_define [M_ILP32] e);
         e = cpp_define [M_SUNOS_VTOC_16, M_HAVE_EFFICIENT_UNALIGNED_ACCESS] e
     in if e M__BYTE_ORDER then
          (if e M__BIG_ENDIAN \<and> e M__BYTE_ORDER_is_big then cpp_define [M_ZFS_BIG_ENDIAN] e
           else if e M__LITTLE_ENDIAN \<and> e M__BYTE_ORDER_is_little then cpp_define [M_ZFS_LITTLE_ENDIAN] e
           else e)
        else if e M_BYTE_ORDER then
          (if e M_BIG_ENDIAN \<and> e M_BYTE_ORDER_is_big then cpp_define [M_ZFS_BIG_ENDIAN] e
           else if e M_LITTLE_ENDIAN \<and> e M_BYTE_ORDER_is_little then cpp_define [M_ZFS_LITTLE_ENDIAN] e
           else e)
        else if e M_BIG_ENDIAN \<and> \<not> e M_LITTLE_ENDIAN then cpp_define [M_ZFS_BIG_ENDIAN] e
        else if e M_LITTLE_ENDIAN \<and> \<not> e M_BIG_ENDIAN then cpp_define [M_ZFS_LITTLE_ENDIAN] e
        else e)"

definition isa_arm :: "cpp \<Rightarrow> cpp" where
  "isa_arm e =
    (let e = cpp_define [M_arm, MM_arm, M_ILP32] e;
         e = (if e M_ARMEL then cpp_define [M_ZFS_LITTLE_ENDIAN] e else cpp_define [M_ZFS_BIG_ENDIAN] e);
         e = cpp_define [M_SUNOS_VTOC_16] e
     in if e M_ARM_FEATURE_UNALIGNED then cpp_define [M_HAVE_EFFICIENT_UNALIGNED_ACCESS] e else e)"

definition isa_aarch64 :: "cpp \<Rightarrow> cpp" where
  "isa_aarch64 e =
    (let e = cpp_define [M_LP64] e;
         e = (if e M_AARCH64EL then cpp_define [M_ZFS_LITTLE_ENDIAN] e else cpp_define [M_ZFS_BIG_ENDIAN] e)
     in cpp_define [M_SUNOS_VTOC_16] e)"

definition isa_sparc :: "cpp \<Rightarrow> cpp" where
  "isa_sparc e =
    (let e = cpp_define [M_sparc, MM_sparc, M_ZFS_BIG_ENDIAN, M_SUNOS_VTOC_16] e
     in if e MM_arch64 then cpp_define [M_LP64] e else cpp_define [M_ILP32] e)"

definition isa_s390 :: "cpp \<Rightarrow> cpp" where
  "isa_s390 e =
    (let e = (if e MM_s390x then cpp_define [M_LP64] e else cpp_define [M_ILP32] e)
     in cpp_define [M_ZFS_BIG_ENDIAN, M_SUNOS_VTOC_16] e)"

definition isa_mips :: "cpp \<Rightarrow> cpp_error + cpp" where
  "isa_mips e =
    (if \<not> e M_MIPSEB \<and> \<not> e M_MIPSEL then Inl Mips_no_endian
     else
       (let e = (if e M_MIPSEB then cpp_define [M_ZFS_BIG_ENDIAN] e else cpp_define [M_ZFS_LITTLE_ENDIAN] e);
            e = (if \<not> e M_LP64 \<and> \<not> e M_ILP32 then cpp_define [M_ILP32] e else e)
        in Inr (cpp_define [M_SUNOS_VTOC_16] e)))"

definition isa_riscv :: "cpp \<Rightarrow> cpp" where
  "isa_riscv e = cpp_define [M_LP64, MM_riscv, MM_rv64g, M_ZFS_LITTLE_ENDIAN, M_SUNOS_VTOC_16] e"

definition isa_loongarch :: "cpp \<Rightarrow> cpp" where
  "isa_loongarch e = cpp_define [M_LP64, M_ZFS_LITTLE_ENDIAN, M_SUNOS_VTOC_16, M_ALIGNMENT_REQUIRED] e"

text \<open>The chain of conditionals.\<close>

definition isa_branch :: "cpp \<Rightarrow> cpp_error + cpp" where
  "isa_branch e =
    (if e M_x86_64 \<or> e MM_x86_64 then Inr (isa_x86_64 e)
     else if e M_i386 \<or> e MM_i386 then Inr (isa_i386 e)
     else if e M_powerpc \<or> e MM_powerpc \<or> e MM_powerpc64 then Inr (isa_powerpc e)
     else if e M_arm \<or> e MM_arm then Inr (isa_arm e)
     else if e MM_aarch64 then Inr (isa_aarch64 e)
     else if e M_sparc \<or> e MM_sparc then Inr (isa_sparc e)
     else if e MM_s390 then Inr (isa_s390 e)
     else if e MM_mips then isa_mips e
     else if e M_riscv \<and> e M_riscv_xlen \<and> e M_riscv_xlen_is_64 \<and> e M_riscv_atomic \<and>
             e M_riscv_atomic_nonzero then Inr (isa_riscv e)
     else if e MM_loongarch \<and> e M_loongarch_lp64 then Inr (isa_loongarch e)
     else Inl Unsupported_ISA)"

text \<open>The checks at the end of the header.\<close>

definition isa_checks :: "cpp \<Rightarrow> cpp_error + cpp" where
  "isa_checks e =
    (if e M_ILP32 \<and> e M_LP64 then Inl Both_data_models
     else if \<not> e M_ILP32 \<and> \<not> e M_LP64 then Inl No_data_model
     else if e M_ZFS_LITTLE_ENDIAN \<and> e M_ZFS_BIG_ENDIAN then Inl Both_byte_orders
     else if \<not> e M_ZFS_LITTLE_ENDIAN \<and> \<not> e M_ZFS_BIG_ENDIAN then Inl No_byte_order
     else Inr e)"

definition isa_defs :: "cpp \<Rightarrow> cpp_error + cpp" where
  "isa_defs e = (case isa_branch e of Inl err \<Rightarrow> Inl err | Inr e' \<Rightarrow> isa_checks e')"

lemmas isa_branch_defs = isa_branch_def isa_x86_64_def isa_i386_def isa_powerpc_def isa_arm_def
  isa_aarch64_def isa_sparc_def isa_s390_def isa_mips_def isa_riscv_def isa_loongarch_def Let_def

subsection \<open>What is defined\<close>

lemma cpp_define_iff [simp]: "cpp_define ms e m \<longleftrightarrow> m \<in> set ms \<or> e m"
  by (induction ms arbitrary: e) auto

declare cpp_define.simps [simp del]

text \<open>A compiler that has not decided any of the four questions the header answers.\<close>

definition undecided :: "cpp \<Rightarrow> bool" where
  "undecided e \<longleftrightarrow> \<not> e M_LP64 \<and> \<not> e M_ILP32 \<and> \<not> e M_ZFS_LITTLE_ENDIAN \<and> \<not> e M_ZFS_BIG_ENDIAN"

text \<open>The byte order a PowerPC compiler announces.\<close>

definition ppc_order :: "cpp \<Rightarrow> bool" where
  "ppc_order e \<longleftrightarrow>
    (if e M__BYTE_ORDER
     then e M__BIG_ENDIAN \<and> e M__BYTE_ORDER_is_big \<or> e M__LITTLE_ENDIAN \<and> e M__BYTE_ORDER_is_little
     else if e M_BYTE_ORDER
     then e M_BIG_ENDIAN \<and> e M_BYTE_ORDER_is_big \<or> e M_LITTLE_ENDIAN \<and> e M_BYTE_ORDER_is_little
     else e M_BIG_ENDIAN \<noteq> e M_LITTLE_ENDIAN)"

lemma isa_checks_Inr:
  "isa_checks e = Inr e' \<longleftrightarrow> e' = e \<and> e M_ILP32 \<noteq> e M_LP64 \<and>
     e M_ZFS_LITTLE_ENDIAN \<noteq> e M_ZFS_BIG_ENDIAN"
  by (auto simp: isa_checks_def)

lemma isa_branch_mono:
  assumes "isa_branch e = Inr e'" and "e m"
  shows "e' m"
  using assms by (auto simp: isa_branch_defs split: if_splits)

text \<open>The branch an architecture takes, given that the earlier ones are not taken.\<close>

definition is_powerpc :: "cpp \<Rightarrow> bool" where
  "is_powerpc e \<longleftrightarrow> \<not> (e M_x86_64 \<or> e MM_x86_64 \<or> e M_i386 \<or> e MM_i386) \<and>
     (e M_powerpc \<or> e MM_powerpc \<or> e MM_powerpc64)"

definition is_mips :: "cpp \<Rightarrow> bool" where
  "is_mips e \<longleftrightarrow> \<not> (e M_x86_64 \<or> e MM_x86_64 \<or> e M_i386 \<or> e MM_i386 \<or> e M_powerpc \<or> e MM_powerpc \<or>
     e MM_powerpc64 \<or> e M_arm \<or> e MM_arm \<or> e MM_aarch64 \<or> e M_sparc \<or> e MM_sparc \<or> e MM_s390) \<and> e MM_mips"

definition decided :: "cpp \<Rightarrow> bool" where
  "decided e \<longleftrightarrow> e M_ILP32 \<noteq> e M_LP64 \<and> e M_ZFS_LITTLE_ENDIAN \<noteq> e M_ZFS_BIG_ENDIAN"

lemma isa_checks_decided: "(\<exists>e'. isa_checks e = Inr e') \<longleftrightarrow> decided e"
  by (simp add: isa_checks_Inr decided_def)

lemma undecided_branches:
  assumes "undecided e"
  shows "decided (isa_x86_64 e)" "decided (isa_i386 e)" "decided (isa_arm e)"
    "decided (isa_aarch64 e)" "decided (isa_sparc e)" "decided (isa_s390 e)"
    "decided (isa_riscv e)" "decided (isa_loongarch e)" "isa_mips e = Inr e' \<Longrightarrow> decided e'"
  using assms
  by (auto simp: undecided_def decided_def isa_branch_defs split: if_splits)

lemma undecided_powerpc: "undecided e \<Longrightarrow> decided (isa_powerpc e) \<longleftrightarrow> ppc_order e"
  by (cases "e MM_powerpc64") (auto simp: undecided_def decided_def isa_powerpc_def ppc_order_def Let_def)

lemma undecided_branch:
  assumes "undecided e" and "isa_branch e = Inr e'"
  shows "(\<exists>e''. isa_defs e = Inr e'') \<longleftrightarrow> (is_powerpc e \<longrightarrow> ppc_order e)"
proof -
  have "(\<exists>e''. isa_defs e = Inr e'') \<longleftrightarrow> decided e'"
    using assms(2) by (simp add: isa_defs_def isa_checks_decided)
  also have "\<dots> \<longleftrightarrow> (is_powerpc e \<longrightarrow> ppc_order e)"
    using assms(2) undecided_branches [OF assms(1)] undecided_powerpc [OF assms(1)]
    by (simp add: isa_branch_def is_powerpc_def split: if_splits) auto
  finally show ?thesis .
qed

subsection \<open>Properties\<close>

text \<open>
  A translation unit that gets past the header has exactly one of the two data models and
  exactly one of the two byte orders, and every macro the compiler had predefined is still
  defined.
\<close>

theorem isa_defs_exactly_one:
  assumes "isa_defs e = Inr e'"
  shows "(e' M_ILP32 \<longleftrightarrow> \<not> e' M_LP64) \<and> (e' M_ZFS_LITTLE_ENDIAN \<longleftrightarrow> \<not> e' M_ZFS_BIG_ENDIAN) \<and>
    e \<le> e'"
proof -
  obtain e1 where e1: "isa_branch e = Inr e1" "isa_checks e1 = Inr e'"
    using assms by (auto simp: isa_defs_def split: sum.splits)
  then have "e' = e1" by (simp add: isa_checks_Inr)
  with e1 isa_branch_mono [OF e1(1)] show ?thesis by (auto simp: isa_checks_Inr le_fun_def)
qed

theorem isa_defs_exactly_one_witness:
  "\<exists>e'. isa_defs (\<lambda>m. m = MM_x86_64) = Inr e' \<and> e' M_LP64 \<and> e' M_ZFS_LITTLE_ENDIAN \<and> \<not> e' M_ILP32"
proof -
  obtain e' where e': "isa_defs (\<lambda>m. m = MM_x86_64) = Inr e'" "e' M_LP64" "e' M_ZFS_LITTLE_ENDIAN"
    by (simp add: isa_defs_def isa_branch_defs isa_checks_def)
  with isa_defs_exactly_one [OF e'(1)] show ?thesis by blast
qed

text \<open>
  A compiler that has decided neither data model nor byte order is accepted exactly when its
  architecture is one of the listed ones, except that a PowerPC compiler must announce its byte
  order in one of the three ways the header understands and a MIPS compiler by one of its two
  macros.
\<close>

theorem isa_defs_accepts:
  assumes "undecided e"
  shows "(\<exists>e'. isa_defs e = Inr e') \<longleftrightarrow>
    isa_branch e \<noteq> Inl Unsupported_ISA \<and> (is_powerpc e \<longrightarrow> ppc_order e) \<and>
    (is_mips e \<longrightarrow> e M_MIPSEB \<or> e M_MIPSEL)"
proof -
  have "(\<exists>e'. isa_branch e = Inr e') \<longleftrightarrow>
      isa_branch e \<noteq> Inl Unsupported_ISA \<and> (is_mips e \<longrightarrow> e M_MIPSEB \<or> e M_MIPSEL)"
    by (auto simp: isa_branch_def is_mips_def isa_mips_def Let_def split: if_splits)
  moreover have "(\<exists>e'. isa_defs e = Inr e') \<longrightarrow> (\<exists>e'. isa_branch e = Inr e')"
    by (auto simp: isa_defs_def split: sum.splits)
  ultimately show ?thesis using undecided_branch [OF assms] by blast
qed

theorem isa_defs_accepts_witness:
  "\<exists>e'. isa_defs (\<lambda>m. m \<in> {MM_mips, M_MIPSEL}) = Inr e'"
proof -
  have "undecided (\<lambda>m. m \<in> {MM_mips, M_MIPSEL})" by (simp add: undecided_def)
  then show ?thesis
    by (rule iffD2 [OF isa_defs_accepts]) (simp add: isa_branch_def isa_mips_def is_powerpc_def)
qed

end
