(* ===== verification/Umem.thy ===== *)
theory Umem
  imports Prelude
begin

text \<open>
  The allocator shim \<^verbatim>\<open>src/surgeon/compat/umem.h\<close> over the C library's allocator, which is
  a parameter: each call maps a heap state to its result and a new heap state. The retry loops
  of the no-fail flag need not end, so they are functions to \<open>option\<close>, where \<open>None\<close> is
  running forever. The lemmas show when they return and with what, which allocations the caches
  make and construct, and what a cache's name is cut to.
\<close>

subsection \<open>The C library's allocator\<close>

text \<open>
  Pointers are addresses, NULL is 0. The heap state \<open>'h\<close> is arbitrary; \<open>memset0\<close> and the
  constructors and destructors of caches change it too.
\<close>

record 'h libc =
  malloc :: "u64 \<Rightarrow> 'h \<Rightarrow> u64 \<times> 'h"
  posix_memalign :: "u64 \<Rightarrow> u64 \<Rightarrow> 'h \<Rightarrow> c_int \<times> u64 \<times> 'h"
  free :: "u64 \<Rightarrow> 'h \<Rightarrow> 'h"
  memset0 :: "u64 \<Rightarrow> u64 \<Rightarrow> 'h \<Rightarrow> 'h"

definition UMEM_DEFAULT :: c_int where "UMEM_DEFAULT = 0"

definition UMEM_NOFAIL :: c_int where "UMEM_NOFAIL = 0x100"

definition UMC_NODEBUG :: c_int where "UMC_NODEBUG = 0x20000"

definition UMEM_CACHE_NAMELEN :: nat where "UMEM_CACHE_NAMELEN = 31"

definition nofail :: "c_int \<Rightarrow> bool" where "nofail flags \<longleftrightarrow> (flags AND UMEM_NOFAIL) \<noteq> 0"

record 'h umem_cache =
  cache_name :: string
  cache_bufsize :: u64
  cache_align :: u64
  cache_constructor :: "(u64 \<Rightarrow> u64 \<Rightarrow> c_int \<Rightarrow> 'h \<Rightarrow> 'h) option"
  cache_destructor :: "(u64 \<Rightarrow> u64 \<Rightarrow> 'h \<Rightarrow> 'h) option"
  cache_reclaim :: u64
  cache_private :: u64
  cache_arena :: u64
  cache_cflags :: c_int

subsection \<open>Allocation\<close>

partial_function (option) umem_alloc :: "'h libc \<Rightarrow> u64 \<Rightarrow> c_int \<Rightarrow> 'h \<Rightarrow> (u64 \<times> 'h) option" where
  "umem_alloc L sz flags h =
    (case malloc L sz h of (p, h') \<Rightarrow>
       if p = 0 \<and> nofail flags then umem_alloc L sz flags h' else Some (p, h'))"

text \<open>The retry loop of the aligned allocation, with the last result code.\<close>

partial_function (option) memalign_loop ::
  "'h libc \<Rightarrow> u64 \<Rightarrow> u64 \<Rightarrow> c_int \<Rightarrow> 'h \<Rightarrow> (c_int \<times> u64 \<times> 'h) option" where
  "memalign_loop L align sz flags h =
    (case posix_memalign L align sz h of (rc, p, h') \<Rightarrow>
       if rc = ENOMEM \<and> nofail flags then memalign_loop L align sz flags h' else Some (rc, p, h'))"

text \<open>The outcome of an aligned allocation: a pointer, or the call of \<^verbatim>\<open>abort\<close>.\<close>

datatype 'h alloc_end = Ptr u64 'h | Aborted 'h

definition umem_alloc_aligned ::
  "'h libc \<Rightarrow> u64 \<Rightarrow> u64 \<Rightarrow> c_int \<Rightarrow> 'h \<Rightarrow> 'h alloc_end option" where
  "umem_alloc_aligned L sz align flags h =
    (case memalign_loop L align sz flags h of
       None \<Rightarrow> None
     | Some (rc, p, h') \<Rightarrow>
         Some (if rc = EINVAL then (if nofail flags then Aborted h' else Ptr 0 h') else Ptr p h'))"

definition umem_zalloc :: "'h libc \<Rightarrow> u64 \<Rightarrow> c_int \<Rightarrow> 'h \<Rightarrow> (u64 \<times> 'h) option" where
  "umem_zalloc L sz flags h =
    (case umem_alloc L sz flags h of
       None \<Rightarrow> None
     | Some (p, h') \<Rightarrow> Some (p, if p \<noteq> 0 then memset0 L p sz h' else h'))"

definition umem_free :: "'h libc \<Rightarrow> u64 \<Rightarrow> u64 \<Rightarrow> 'h \<Rightarrow> 'h" where
  "umem_free L p sz h = free L p h"

definition umem_free_aligned :: "'h libc \<Rightarrow> u64 \<Rightarrow> u64 \<Rightarrow> 'h \<Rightarrow> 'h" where
  "umem_free_aligned L p sz h = free L p h"

subsection \<open>Caches\<close>

text \<open>\<^verbatim>\<open>strlcpy(dst, src, n)\<close>: at most \<open>n - 1\<close> characters and a NUL.\<close>

definition strlcpy :: "string \<Rightarrow> nat \<Rightarrow> string" where
  "strlcpy src n = take (n - 1) src"

definition umem_cache_create ::
  "'h libc \<Rightarrow> u64 \<Rightarrow> string \<Rightarrow> u64 \<Rightarrow> u64 \<Rightarrow> (u64 \<Rightarrow> u64 \<Rightarrow> c_int \<Rightarrow> 'h \<Rightarrow> 'h) option \<Rightarrow>
   (u64 \<Rightarrow> u64 \<Rightarrow> 'h \<Rightarrow> 'h) option \<Rightarrow> u64 \<Rightarrow> u64 \<Rightarrow> u64 \<Rightarrow> c_int \<Rightarrow> 'h \<Rightarrow>
   ((u64 \<times> 'h umem_cache) option \<times> 'h) option" where
  "umem_cache_create L cache_size name bufsize align constructor destructor reclaim priv vmp cflags h =
    (case umem_alloc L cache_size UMEM_DEFAULT h of
       None \<Rightarrow> None
     | Some (cp, h') \<Rightarrow>
         Some (if cp = 0 then None
               else Some (cp, \<lparr>cache_name = strlcpy name UMEM_CACHE_NAMELEN, cache_bufsize = bufsize,
                      cache_align = align, cache_constructor = constructor,
                      cache_destructor = destructor, cache_reclaim = reclaim,
                      cache_private = priv, cache_arena = vmp, cache_cflags = cflags\<rparr>), h'))"

definition umem_cache_destroy :: "'h libc \<Rightarrow> u64 \<Rightarrow> u64 \<Rightarrow> 'h \<Rightarrow> 'h" where
  "umem_cache_destroy L cache_size cp h = umem_free L cp cache_size h"

definition umem_cache_alloc :: "'h libc \<Rightarrow> 'h umem_cache \<Rightarrow> c_int \<Rightarrow> 'h \<Rightarrow> 'h alloc_end option" where
  "umem_cache_alloc L cp flags h =
    (let r = (if cache_align cp \<noteq> 0
              then umem_alloc_aligned L (cache_bufsize cp) (cache_align cp) flags h
              else map_option (\<lambda>(p, h'). Ptr p h') (umem_alloc L (cache_bufsize cp) flags h))
     in case r of
          None \<Rightarrow> None
        | Some (Aborted h') \<Rightarrow> Some (Aborted h')
        | Some (Ptr p h') \<Rightarrow>
            Some (Ptr p (case cache_constructor cp of
                           None \<Rightarrow> h'
                         | Some c \<Rightarrow> if p \<noteq> 0 then c p (cache_private cp) UMEM_DEFAULT h' else h')))"

definition umem_cache_free :: "'h libc \<Rightarrow> 'h umem_cache \<Rightarrow> u64 \<Rightarrow> 'h \<Rightarrow> 'h" where
  "umem_cache_free L cp p h =
    (let h = (case cache_destructor cp of None \<Rightarrow> h | Some d \<Rightarrow> d p (cache_private cp) h)
     in if cache_align cp \<noteq> 0 then umem_free_aligned L p (cache_bufsize cp) h
        else umem_free L p (cache_bufsize cp) h)"

subsection \<open>The retry loop\<close>

text \<open>The heap after \<open>n\<close> attempts.\<close>

fun attempts :: "'h libc \<Rightarrow> u64 \<Rightarrow> nat \<Rightarrow> 'h \<Rightarrow> 'h" where
  "attempts L sz 0 h = h"
| "attempts L sz (Suc n) h = attempts L sz n (snd (malloc L sz h))"

lemma umem_alloc_default: "\<not> nofail flags \<Longrightarrow> umem_alloc L sz flags h = Some (malloc L sz h)"
  by (subst umem_alloc.simps) (simp split: prod.split)

lemma umem_alloc_nofail_step:
  "nofail flags \<Longrightarrow> umem_alloc L sz flags h =
     (if fst (malloc L sz h) = 0 then umem_alloc L sz flags (snd (malloc L sz h))
      else Some (malloc L sz h))"
  by (subst umem_alloc.simps) (simp split: prod.split)

lemma umem_alloc_succeeds:
  assumes "nofail flags" and "fst (malloc L sz (attempts L sz n h)) \<noteq> 0"
  shows "\<exists>p h'. umem_alloc L sz flags h = Some (p, h') \<and> p \<noteq> 0"
  using assms(2)
proof (induction n arbitrary: h)
  case 0
  then show ?case
    using assms(1) by (cases "malloc L sz h") (simp add: umem_alloc_nofail_step)
next
  case (Suc n)
  then show ?case
    using assms(1) by (cases "malloc L sz h") (auto simp: umem_alloc_nofail_step)
qed

text \<open>A result of the loop comes from an attempt that succeeded.\<close>

lemma umem_alloc_result:
  assumes "umem_alloc L sz flags h = Some r"
  shows "nofail flags \<longrightarrow> (\<exists>n. malloc L sz (attempts L sz n h) = r \<and> fst r \<noteq> 0)"
proof (rule umem_alloc.raw_induct [OF _ assms])
  fix rec and L :: "'a libc" and sz flags h r
  assume IH: "\<And>L sz flags h r. rec L sz flags h = Some r \<Longrightarrow>
      nofail flags \<longrightarrow> (\<exists>n. malloc L sz (attempts L sz n h) = r \<and> fst r \<noteq> 0)"
    and body: "(case malloc L sz h of (p, h') \<Rightarrow>
      if p = 0 \<and> nofail flags then rec L sz flags h' else Some (p, h')) = Some r"
  obtain q g where m: "malloc L sz h = (q, g)" by force
  show "nofail flags \<longrightarrow> (\<exists>n. malloc L sz (attempts L sz n h) = r \<and> fst r \<noteq> 0)"
  proof (cases "nofail flags \<and> q = 0")
    case True
    then have "rec L sz flags g = Some r" using body m by simp
    from IH [OF this] True obtain n where "malloc L sz (attempts L sz n g) = r \<and> fst r \<noteq> 0" by blast
    then show ?thesis using m by (auto intro!: exI [of _ "Suc n"])
  next
    case False
    then show ?thesis using body m by (auto intro!: exI [of _ 0])
  qed
qed

lemma memalign_loop_result:
  assumes "memalign_loop L align sz flags h = Some r"
  shows "(\<exists>g. posix_memalign L align sz g = r) \<and> \<not> (fst r = ENOMEM \<and> nofail flags)"
proof (rule memalign_loop.raw_induct [OF _ assms])
  fix rec and L :: "'a libc" and align sz flags h r
  assume IH: "\<And>L align sz flags h r. rec L align sz flags h = Some r \<Longrightarrow>
      (\<exists>g. posix_memalign L align sz g = r) \<and> \<not> (fst r = ENOMEM \<and> nofail flags)"
    and body: "(case posix_memalign L align sz h of (rc, p, h') \<Rightarrow>
      if rc = ENOMEM \<and> nofail flags then rec L align sz flags h' else Some (rc, p, h')) = Some r"
  obtain rc p g where m: "posix_memalign L align sz h = (rc, p, g)" by (metis prod_cases3)
  show "(\<exists>g. posix_memalign L align sz g = r) \<and> \<not> (fst r = ENOMEM \<and> nofail flags)"
  proof (cases "rc = ENOMEM \<and> nofail flags")
    case True
    then have "rec L align sz flags g = Some r" using body m by simp
    from IH [OF this] show ?thesis .
  next
    case False
    then show ?thesis using body m by auto
  qed
qed

subsection \<open>Properties\<close>

text \<open>
  C36: with the no-fail flag an allocation returns exactly when one of the successive attempts
  succeeds, and then never NULL; otherwise the loop runs forever. Without the flag it makes
  exactly one attempt and returns whatever that gives.
\<close>

theorem umem_alloc_contract:
  "(if (flags AND UMEM_NOFAIL) \<noteq> 0
    then (\<exists>p h'. umem_alloc L sz flags h = Some (p, h') \<and> p \<noteq> 0) \<and>
         (\<exists>n. fst (malloc L sz (attempts L sz n h)) \<noteq> 0) \<or>
         umem_alloc L sz flags h = None \<and> (\<forall>n. fst (malloc L sz (attempts L sz n h)) = 0)
    else umem_alloc L sz flags h = Some (malloc L sz h))"
proof (cases "nofail flags")
  case True
  show ?thesis
  proof (cases "\<exists>n. fst (malloc L sz (attempts L sz n h)) \<noteq> 0")
    case ex: True
    then obtain n where "fst (malloc L sz (attempts L sz n h)) \<noteq> 0" by blast
    from umem_alloc_succeeds [OF True this]
    have "\<exists>p h'. umem_alloc L sz flags h = Some (p, h') \<and> p \<noteq> 0" .
    with ex True show ?thesis unfolding nofail_def by (simp only: if_True) simp
  next
    case False
    then have "umem_alloc L sz flags h = None"
      using umem_alloc_result [of L sz flags h] True by (cases "umem_alloc L sz flags h") (auto, metis fst_conv)
    with False True show ?thesis by (auto simp: nofail_def)
  qed
next
  case False
  then show ?thesis by (simp add: umem_alloc_default) (simp add: nofail_def)
qed

text \<open>
  A cache hands out constructed objects. With the no-fail flag, over a library whose
  allocation functions give a non-null pointer when they succeed, an allocation from a cache
  that returns gives a non-null pointer on which the constructor has just been run, or, when
  the cache's alignment is refused by the library, aborts the process.
\<close>

theorem umem_cache_alloc_constructed:
  assumes "\<And>al s g rc p g'. posix_memalign L al s g = (rc, p, g') \<Longrightarrow>
      rc \<in> {0, EINVAL, ENOMEM} \<and> (rc = 0 \<longrightarrow> p \<noteq> 0)"
    and "nofail flags" and "cache_constructor cp = Some c"
    and "umem_cache_alloc L cp flags h = Some r"
  shows "(\<exists>h'. r = Aborted h' \<and> cache_align cp \<noteq> 0) \<or>
    (\<exists>p h'. p \<noteq> 0 \<and> r = Ptr p (c p (cache_private cp) UMEM_DEFAULT h'))"
proof (cases "cache_align cp = 0")
  case True
  then obtain p h' where "umem_alloc L (cache_bufsize cp) flags h = Some (p, h')"
    and r: "r = Ptr p (if p \<noteq> 0 then c p (cache_private cp) UMEM_DEFAULT h' else h')"
    using assms(3,4) by (auto simp: umem_cache_alloc_def split: option.splits)
  then have "p \<noteq> 0" using umem_alloc_result assms(2) by fastforce
  with r show ?thesis by auto
next
  case False
  then obtain rc p h' where l: "memalign_loop L (cache_align cp) (cache_bufsize cp) flags h = Some (rc, p, h')"
    using assms(4) by (auto simp: umem_cache_alloc_def umem_alloc_aligned_def split: option.splits)
  show ?thesis
  proof (cases "rc = EINVAL")
    case True
    with l False assms show ?thesis by (auto simp: umem_cache_alloc_def umem_alloc_aligned_def)
  next
    case ok: False
    then have "p \<noteq> 0" using memalign_loop_result [OF l] assms(1,2) by fastforce
    with ok l False assms(3,4) show ?thesis
      by (auto simp: umem_cache_alloc_def umem_alloc_aligned_def)
  qed
qed

definition bump_libc :: "u64 libc" where
  "bump_libc = \<lparr>malloc = (\<lambda>s g. (g, g + s)),
     posix_memalign = (\<lambda>al s g. if al = 0 then (EINVAL, 0, g) else (0, 1, g)),
     free = (\<lambda>p g. g), memset0 = (\<lambda>p s g. g)\<rparr>"

theorem umem_cache_alloc_constructed_witness:
  "\<exists>h'. umem_cache_alloc bump_libc
     \<lparr>cache_name = [], cache_bufsize = 64, cache_align = 8, cache_constructor = Some (\<lambda>p a f h. h + 1),
      cache_destructor = None, cache_reclaim = 0, cache_private = 0, cache_arena = 0, cache_cflags = 0\<rparr>
     UMEM_NOFAIL 4096 = Some (Ptr 1 (h' + 1))"
proof -
  let ?cp = "\<lparr>cache_name = [], cache_bufsize = 64, cache_align = 8,
    cache_constructor = Some (\<lambda>p a f h. h + 1), cache_destructor = None, cache_reclaim = 0,
    cache_private = 0, cache_arena = 0, cache_cflags = 0\<rparr> :: u64 umem_cache"
  have "memalign_loop bump_libc 8 64 UMEM_NOFAIL 4096 = Some (0, 1, 4096)"
    by (subst memalign_loop.simps) (simp add: bump_libc_def ENOMEM_def)
  then have run: "umem_cache_alloc bump_libc ?cp UMEM_NOFAIL 4096 = Some (Ptr 1 (4096 + 1))"
    by (simp add: umem_cache_alloc_def umem_alloc_aligned_def EINVAL_def)
  have lib: "posix_memalign bump_libc al s g = (rc, p, g') \<Longrightarrow>
      rc \<in> {0, EINVAL, ENOMEM} \<and> (rc = 0 \<longrightarrow> p \<noteq> 0)" for al s g rc p g'
    by (auto simp: bump_libc_def errno_simps split: if_splits)
  have nf: "nofail UMEM_NOFAIL" by (simp add: nofail_def UMEM_NOFAIL_def)
  have "(\<exists>h'. Ptr 1 (4096 + 1 :: u64) = Aborted h' \<and> cache_align ?cp \<noteq> 0) \<or>
      (\<exists>p h'. p \<noteq> 0 \<and> Ptr 1 (4096 + 1) = Ptr p ((\<lambda>p a f h. h + 1 :: u64) p (cache_private ?cp) UMEM_DEFAULT h'))"
  proof (rule umem_cache_alloc_constructed [OF _ nf _ run])
    show "rc \<in> {0, EINVAL, ENOMEM} \<and> (rc = 0 \<longrightarrow> p \<noteq> 0)"
      if "posix_memalign bump_libc al s g = (rc, p, g')" for al s g rc p g'
      using lib [OF that] .
  qed simp
  then obtain h' where "Ptr 1 (4096 + 1) = Ptr 1 (h' + 1 :: u64)" by auto
  with run show ?thesis by auto
qed

text \<open>
  The name of a cache keeps at most 30 characters, one fewer than the named length and two
  fewer than its array: a name of 31 characters, for which there is room, loses its last one.
\<close>

theorem umem_cache_name_cut:
  assumes "umem_cache_create L cs name bs al con des rec priv vmp cf h = Some (Some (cp, cache), h')"
  shows "cache_name cache = take 30 name \<and>
    (length name = UMEM_CACHE_NAMELEN \<longrightarrow> cache_name cache \<noteq> name)"
proof -
  have "cache_name cache = take 30 name"
    using assms by (auto simp: umem_cache_create_def strlcpy_def UMEM_CACHE_NAMELEN_def
        split: option.splits if_splits)
  moreover have "take 30 name \<noteq> name" if "length name = UMEM_CACHE_NAMELEN"
  proof
    assume "take 30 name = name"
    then have "length (take 30 name) = 31" using that by (simp add: UMEM_CACHE_NAMELEN_def)
    then show False by simp
  qed
  ultimately show ?thesis by simp
qed

theorem umem_cache_name_cut_witness:
  "\<exists>cp cache h'. umem_cache_create bump_libc 96 (replicate 31 (CHR ''x'')) 64 0 None None 0 0 0 0 4096 =
     Some (Some (cp, cache), h') \<and> cache_name cache = replicate 30 (CHR ''x'')"
proof -
  have "\<not> nofail UMEM_DEFAULT" by (simp add: nofail_def UMEM_DEFAULT_def)
  then obtain cp cache h' where r: "umem_cache_create bump_libc 96 (replicate 31 (CHR ''x'')) 64 0 None
      None 0 0 0 0 4096 = Some (Some (cp, cache), h')"
    by (simp add: umem_cache_create_def umem_alloc_default bump_libc_def)
  with umem_cache_name_cut [OF r] show ?thesis by auto
qed

end
