(* ===== verification/Hrtime.thy ===== *)
theory Hrtime
  imports Prelude "HOL-Library.Signed_Division"
begin

text \<open>
  The time header \<^verbatim>\<open>src/surgeon/compat/sys/time.h\<close>: unit conversions on \<^verbatim>\<open>hrtime_t\<close>, a
  signed 64-bit count of nanoseconds, and the clock readers over \<^verbatim>\<open>gettimeofday\<close> and
  \<^verbatim>\<open>clock_gettime\<close>, whose results are arguments. Signed values are words read with
  \<open>sint\<close>; C's division of them truncates. The lemmas show the round trips of the conversions
  and their range, and that the monotonic clock is read in order until it wraps.
\<close>

subsection \<open>Units\<close>

definition SEC :: u64 where "SEC = 1"
definition MILLISEC :: u64 where "MILLISEC = 1000"
definition MICROSEC :: u64 where "MICROSEC = 1000000"
definition NANOSEC :: u64 where "NANOSEC = 1000000000"
definition NSEC_PER_USEC :: u64 where "NSEC_PER_USEC = 1000"

text \<open>The quotients of the units are constants of the source, divisions without remainder.\<close>

definition MSEC2NSEC :: "u64 \<Rightarrow> u64" where "MSEC2NSEC m = m * (NANOSEC div MILLISEC)"
definition USEC2NSEC :: "u64 \<Rightarrow> u64" where "USEC2NSEC m = m * (NANOSEC div MICROSEC)"
definition SEC2NSEC :: "u64 \<Rightarrow> u64" where "SEC2NSEC m = m * (NANOSEC div SEC)"
definition NSEC2MSEC :: "u64 \<Rightarrow> u64" where
  "NSEC2MSEC n = word_of_int (sint n sdiv sint (NANOSEC div MILLISEC))"
definition NSEC2USEC :: "u64 \<Rightarrow> u64" where
  "NSEC2USEC n = word_of_int (sint n sdiv sint (NANOSEC div MICROSEC))"
definition NSEC2SEC :: "u64 \<Rightarrow> u64" where
  "NSEC2SEC n = word_of_int (sint n sdiv sint (NANOSEC div SEC))"

subsection \<open>Clocks\<close>

record timeval =
  tv_sec :: u64
  tv_usec :: u64

record timespec =
  ts_sec :: u64
  ts_nsec :: u64

definition gethrestime :: "timeval \<Rightarrow> timespec" where
  "gethrestime tv = \<lparr>ts_sec = tv_sec tv, ts_nsec = tv_usec tv * NSEC_PER_USEC\<rparr>"

definition gethrestime_sec :: "timeval \<Rightarrow> u64" where
  "gethrestime_sec tv = tv_sec tv"

definition gethrtime :: "timespec \<Rightarrow> u64" where
  "gethrtime ts = ts_sec ts * NANOSEC + ts_nsec ts"

lemmas time_units = SEC_def MILLISEC_def MICROSEC_def NANOSEC_def NSEC_PER_USEC_def

subsection \<open>Arithmetic in range\<close>

lemma sint_mult_in_range:
  assumes "- (2 ^ 63) \<le> sint m * k" and "sint m * k < 2 ^ 63"
  shows "sint ((m :: u64) * word_of_int k) = sint m * k"
proof -
  have "m * word_of_int k = word_of_int (sint m * k)" by simp
  also have "sint \<dots> = sint m * k"
    using assms by (simp only: sint_sbintrunc') (simp add: signed_take_bit_int_eq_self)
  finally show ?thesis .
qed

lemma sdiv_mult_cancel: "(k :: int) > 0 \<Longrightarrow> (m * k) sdiv k = m"
  by (simp add: signed_divide_int_def abs_mult sgn_mult sgn_mult_abs)

lemma conversion_roundtrip:
  assumes "0 < k" and "- (2 ^ 63) \<le> sint m * k" and "sint m * k < 2 ^ 63"
  shows "word_of_int (sint ((m :: u64) * word_of_int k) sdiv k) = m"
  using sint_mult_in_range [OF assms(2,3)] assms(1) by (simp add: sdiv_mult_cancel)

lemma hr_value:
  assumes "unat (ts_sec ts) < 9223372036" and "unat (ts_nsec ts) < 1000000000"
  shows "unat (gethrtime ts) = unat (ts_sec ts) * 1000000000 + unat (ts_nsec ts)"
    and "unat (gethrtime ts) < 2 ^ 63"
proof -
  have lt: "unat (ts_sec ts) * 1000000000 + unat (ts_nsec ts) < 2 ^ 63"
    using assms by simp
  have n: "unat (NANOSEC) = 1000000000" by (simp add: NANOSEC_def)
  have "unat (gethrtime ts) = (unat (ts_sec ts) * 1000000000 + unat (ts_nsec ts)) mod 2 ^ 64"
    unfolding gethrtime_def by (simp add: unat_word_ariths n mod_simps)
  then show eq: "unat (gethrtime ts) = unat (ts_sec ts) * 1000000000 + unat (ts_nsec ts)"
    using lt by simp
  then show "unat (gethrtime ts) < 2 ^ 63" using lt by simp
qed

lemma lex_less:
  "n < 1000000000 \<Longrightarrow> m < 1000000000 \<Longrightarrow>
     s * 1000000000 + n < t * 1000000000 + m \<longleftrightarrow> s < t \<or> s = t \<and> n < (m :: nat)"
  by (cases s t rule: linorder_cases) simp_all

subsection \<open>Properties\<close>

text \<open>
  Converting milliseconds to nanoseconds and back gives the same number, negative ones
  included, as long as the product is in the range of \<^verbatim>\<open>hrtime_t\<close>; and likewise for
  microseconds and seconds.
\<close>

theorem hrtime_roundtrip:
  assumes "\<bar>sint m\<bar> \<le> 9223372036"
  shows "NSEC2SEC (SEC2NSEC m) = m \<and> NSEC2MSEC (MSEC2NSEC m) = m \<and> NSEC2USEC (USEC2NSEC m) = m"
proof -
  have r: "- (2 ^ 63) \<le> sint m * k" "sint m * k < 2 ^ 63" if "0 < k" "k \<le> 1000000000" for k :: int
  proof -
    have "\<bar>sint m * k\<bar> \<le> 9223372036 * 1000000000"
      unfolding abs_mult using assms that by (intro mult_mono) auto
    then show "- (2 ^ 63) \<le> sint m * k" "sint m * k < 2 ^ 63" by simp_all
  qed
  from conversion_roundtrip [of 1000000000 m] conversion_roundtrip [of 1000000 m]
    conversion_roundtrip [of 1000 m] r [of 1000000000] r [of 1000000] r [of 1000]
  show ?thesis
    by (simp add: NSEC2SEC_def SEC2NSEC_def NSEC2MSEC_def MSEC2NSEC_def NSEC2USEC_def USEC2NSEC_def
        time_units)
qed

theorem hrtime_roundtrip_witness: "NSEC2MSEC (MSEC2NSEC (- 5)) = - 5"
  using hrtime_roundtrip [of "- 5"] by simp

text \<open>
  Readings of the monotonic clock are ordered as the clock's, seconds first: for the first
  292 years of uptime, the value is the number of nanoseconds and not negative as a signed one.
\<close>

theorem gethrtime_ordered:
  assumes "unat (ts_sec a) < 9223372036" and "unat (ts_nsec a) < 1000000000"
    and "unat (ts_sec b) < 9223372036" and "unat (ts_nsec b) < 1000000000"
  shows "(sint (gethrtime a) < sint (gethrtime b) \<longleftrightarrow>
      ts_sec a < ts_sec b \<or> ts_sec a = ts_sec b \<and> ts_nsec a < ts_nsec b) \<and> 0 \<le> sint (gethrtime a)"
proof -
  note va = hr_value [OF assms(1,2)] and vb = hr_value [OF assms(3,4)]
  have "unat (ts_sec a) * 1000000000 + unat (ts_nsec a) < unat (ts_sec b) * 1000000000 + unat (ts_nsec b) \<longleftrightarrow>
      unat (ts_sec a) < unat (ts_sec b) \<or> unat (ts_sec a) = unat (ts_sec b) \<and> unat (ts_nsec a) < unat (ts_nsec b)"
    using assms(2,4) by (rule lex_less)
  moreover have "sint (gethrtime a) < sint (gethrtime b) \<longleftrightarrow> unat (gethrtime a) < unat (gethrtime b)"
    unfolding sint_unat [OF va(2)] sint_unat [OF vb(2)] by (simp only: of_nat_less_iff)
  moreover have "0 \<le> sint (gethrtime a)" unfolding sint_unat [OF va(2)] by simp
  ultimately show ?thesis
    unfolding va(1) vb(1) word_less_nat_alt word_unat_eq_iff by blast
qed

theorem gethrtime_ordered_witness:
  "sint (gethrtime \<lparr>ts_sec = 1, ts_nsec = 999999999\<rparr>) < sint (gethrtime \<lparr>ts_sec = 2, ts_nsec = 0\<rparr>)"
  using gethrtime_ordered [of "\<lparr>ts_sec = 1, ts_nsec = 999999999\<rparr>" "\<lparr>ts_sec = 2, ts_nsec = 0\<rparr>"] by simp

end
