(* ===== verification/Uio.thy ===== *)
theory Uio
  imports Prelude
begin

text \<open>
  Scatter-gather descriptors (\<^verbatim>\<open>src/surgeon/compat/sys/uio.h\<close>): \<^verbatim>\<open>zfs_uio_t\<close>, its
  accessors, the cursor \<^verbatim>\<open>zfs_uio_advance\<close> and the search \<^verbatim>\<open>zfs_uio_index_at_offset\<close>.
  Offsets and counts are signed 64-bit values, kept as words. The lemmas show that the search
  ends and lands in the vector the offset lies in, and what the cursor preserves.
\<close>

subsection \<open>Descriptors\<close>

datatype zfs_uio_rw = UIO_READ | UIO_WRITE

datatype zfs_uio_seg = UIO_USERSPACE | UIO_SYSSPACE

record iovec =
  iov_base :: u64
  iov_len :: u64

record zfs_uio =
  uio_iov :: "iovec list"
  uio_iovcnt :: c_int
  uio_loffset :: u64
  uio_segflg :: zfs_uio_seg
  uio_fmode :: u16
  uio_extflg :: u16
  uio_resid :: u64

text \<open>Reading past the array is \<open>None\<close>.\<close>

definition zfs_uio_iovlen :: "zfs_uio \<Rightarrow> u32 \<Rightarrow> u64 option" where
  "zfs_uio_iovlen uio idx =
    (if unat idx < length (uio_iov uio) then Some (iov_len (uio_iov uio ! unat idx)) else None)"

definition zfs_uio_iovbase :: "zfs_uio \<Rightarrow> u32 \<Rightarrow> u64 option" where
  "zfs_uio_iovbase uio idx =
    (if unat idx < length (uio_iov uio) then Some (iov_base (uio_iov uio ! unat idx)) else None)"

definition zfs_uio_iov_at_index :: "zfs_uio \<Rightarrow> u32 \<Rightarrow> (u64 \<times> u64) option" where
  "zfs_uio_iov_at_index uio idx =
    (case (zfs_uio_iovbase uio idx, zfs_uio_iovlen uio idx) of
       (Some b, Some l) \<Rightarrow> Some (b, l) | _ \<Rightarrow> None)"

definition zfs_uio_advance :: "zfs_uio \<Rightarrow> u64 \<Rightarrow> zfs_uio" where
  "zfs_uio_advance uio n = uio\<lparr>uio_resid := uio_resid uio - n, uio_loffset := uio_loffset uio + n\<rparr>"

lemma idx_succ: "(idx :: u32) < n \<Longrightarrow> unat (idx + 1) = Suc (unat idx)"
  using unsigned_less [of n, where ?'a = nat] by (simp add: unat_word_ariths word_less_nat_alt)

text \<open>
  The search loop: the index and what is left of the offset; \<open>None\<close> is a read past the array.
  The comparison \<^verbatim>\<open>off >= (offset_t)len\<close> is signed, the count is compared unsigned.
\<close>

function index_loop :: "zfs_uio \<Rightarrow> u64 \<Rightarrow> u32 \<Rightarrow> (u64 \<times> u32) option" where
  "index_loop uio off idx =
    (if idx < uio_iovcnt uio then
       (case zfs_uio_iovlen uio idx of
          None \<Rightarrow> None
        | Some len \<Rightarrow> if len \<le>s off then index_loop uio (off - len) (idx + 1) else Some (off, idx))
     else Some (off, idx))"
  by pat_completeness auto

termination
  by (relation "measure (\<lambda>(uio, off, idx). unat (uio_iovcnt uio) - unat idx)")
    (auto simp: idx_succ word_less_nat_alt)

declare index_loop.simps [simp del]

definition zfs_uio_index_at_offset :: "zfs_uio \<Rightarrow> u64 \<Rightarrow> (u64 \<times> u32) option" where
  "zfs_uio_index_at_offset uio off = index_loop uio off 0"

subsection \<open>Where the search lands\<close>

text \<open>The lengths as numbers, and a descriptor whose count and total are honest.\<close>

definition iov_lens :: "zfs_uio \<Rightarrow> nat list" where
  "iov_lens uio = map (unat \<circ> iov_len) (uio_iov uio)"

definition uio_wf :: "zfs_uio \<Rightarrow> bool" where
  "uio_wf uio \<longleftrightarrow> unat (uio_iovcnt uio) = length (uio_iov uio) \<and> sum_list (iov_lens uio) < 2 ^ 63"

lemma sle_nat:
  assumes "unat a < 2 ^ 63" and "unat b < 2 ^ 63"
  shows "(a :: u64) \<le>s b \<longleftrightarrow> unat a \<le> unat b"
  using sint_unat [OF assms(1)] sint_unat [OF assms(2)] by (simp only: word_sle_eq of_nat_le_iff)

lemma iov_len_bound: "uio_wf uio \<Longrightarrow> i < length (uio_iov uio) \<Longrightarrow> unat (iov_len (uio_iov uio ! i)) < 2 ^ 63"
proof -
  assume wf: "uio_wf uio" and i: "i < length (uio_iov uio)"
  have "iov_lens uio ! i \<le> sum_list (iov_lens uio)"
    using i by (intro elem_le_sum_list) (simp add: iov_lens_def)
  then show ?thesis using wf i by (simp add: uio_wf_def iov_lens_def)
qed

lemma index_loop_lands:
  assumes "uio_wf uio" and "unat off < 2 ^ 63" and "idx \<le> uio_iovcnt uio"
  shows "\<exists>off' idx'. index_loop uio off idx = Some (off', idx') \<and> idx \<le> idx' \<and> idx' \<le> uio_iovcnt uio \<and>
    unat off = sum_list (take (unat idx' - unat idx) (drop (unat idx) (iov_lens uio))) + unat off' \<and>
    (idx' < uio_iovcnt uio \<longrightarrow> unat off' < iov_lens uio ! unat idx')"
  using assms
proof (induction uio off idx rule: index_loop.induct)
  case (1 uio off idx)
  show ?case
  proof (cases "idx < uio_iovcnt uio")
    case False
    then show ?thesis using "1.prems" by (subst index_loop.simps) simp
  next
    case True
    let ?len = "iov_len (uio_iov uio ! unat idx)"
    have i: "unat idx < length (uio_iov uio)"
      using True "1.prems"(1) by (simp add: uio_wf_def word_less_nat_alt)
    then have len: "zfs_uio_iovlen uio idx = Some ?len" by (simp add: zfs_uio_iovlen_def)
    have l: "iov_lens uio ! unat idx = unat ?len" using i by (simp add: iov_lens_def)
    have cmp: "?len \<le>s off \<longleftrightarrow> unat ?len \<le> unat off"
      using iov_len_bound [OF "1.prems"(1) i] "1.prems"(2) by (rule sle_nat)
    show ?thesis
    proof (cases "?len \<le>s off")
      case False
      then show ?thesis
        using True len cmp l "1.prems" by (subst index_loop.simps) simp
    next
      case le: True
      have step: "index_loop uio off idx = index_loop uio (off - ?len) (idx + 1)"
        using True len le by (subst index_loop.simps) simp
      have sub: "unat (off - ?len) = unat off - unat ?len"
        using le cmp by (simp add: unat_sub_if_size word_le_nat_alt)
      have suc: "unat (idx + 1) = Suc (unat idx)" using True by (rule idx_succ)
      have le1: "idx + 1 \<le> uio_iovcnt uio"
        using True suc by (simp add: word_le_nat_alt word_less_nat_alt)
      have lt: "unat (off - ?len) < 2 ^ 63" using sub "1.prems"(2) by simp
      from "1.IH" [OF True len le "1.prems"(1) lt le1] obtain off' idx' where
        r: "index_loop uio (off - ?len) (idx + 1) = Some (off', idx')" "idx + 1 \<le> idx'"
          "idx' \<le> uio_iovcnt uio"
          "unat (off - ?len) = sum_list (take (unat idx' - Suc (unat idx)) (drop (Suc (unat idx)) (iov_lens uio)))
             + unat off'"
          "idx' < uio_iovcnt uio \<longrightarrow> unat off' < iov_lens uio ! unat idx'"
        unfolding suc by blast
      have ii: "Suc (unat idx) \<le> unat idx'" using r(2) suc by (simp add: word_le_nat_alt)
      have "take (unat idx' - unat idx) (drop (unat idx) (iov_lens uio)) =
          iov_lens uio ! unat idx # take (unat idx' - Suc (unat idx)) (drop (Suc (unat idx)) (iov_lens uio))"
        using ii i by (simp add: Cons_nth_drop_Suc [symmetric] iov_lens_def take_Cons' Suc_le_eq)
      then have "unat off = sum_list (take (unat idx' - unat idx) (drop (unat idx) (iov_lens uio))) + unat off'"
        using r(4) sub l le cmp by simp
      moreover have "idx \<le> idx'" using ii by (simp add: word_le_nat_alt)
      ultimately show ?thesis using step r(1,3,5) by auto
    qed
  qed
qed

subsection \<open>Properties\<close>

text \<open>
  The search for an offset reads no vector past the array and ends at the vector the offset
  lies in: the lengths of the vectors before it and the remaining offset add up to the offset
  asked for, and the remaining offset lies inside the vector found unless the offset is past
  the last one. Vectors of length zero are skipped.
\<close>

theorem index_at_offset_lands:
  assumes "uio_wf uio" and "unat off < 2 ^ 63"
  shows "\<exists>off' idx. zfs_uio_index_at_offset uio off = Some (off', idx) \<and> idx \<le> uio_iovcnt uio \<and>
    unat off = sum_list (take (unat idx) (iov_lens uio)) + unat off' \<and>
    (idx < uio_iovcnt uio \<longrightarrow> unat off' < iov_lens uio ! unat idx)"
  using index_loop_lands [OF assms, of 0] by (simp add: zfs_uio_index_at_offset_def)

definition two_vectors :: zfs_uio where
  "two_vectors = \<lparr>uio_iov = [\<lparr>iov_base = 0x1000, iov_len = 8\<rparr>, \<lparr>iov_base = 0x2000, iov_len = 16\<rparr>],
     uio_iovcnt = 2, uio_loffset = 0, uio_segflg = UIO_SYSSPACE, uio_fmode = 0, uio_extflg = 0,
     uio_resid = 24\<rparr>"

theorem index_at_offset_lands_witness:
  "\<exists>off' idx. zfs_uio_index_at_offset two_vectors 10 = Some (off', idx) \<and> idx \<le> 2 \<and>
     10 = sum_list (take (unat idx) [8, 16]) + unat off'"
proof -
  have "uio_wf two_vectors" "iov_lens two_vectors = [8, 16]" "uio_iovcnt two_vectors = 2"
    by (simp_all add: uio_wf_def two_vectors_def iov_lens_def)
  with index_at_offset_lands [of two_vectors 10] show ?thesis by auto
qed

text \<open>
  Advancing keeps the end of the transfer where it is, and advancing twice is advancing by
  the sum.
\<close>

theorem uio_advance_end:
  "uio_loffset (zfs_uio_advance uio n) + uio_resid (zfs_uio_advance uio n) = uio_loffset uio + uio_resid uio \<and>
   zfs_uio_advance (zfs_uio_advance uio n) k = zfs_uio_advance uio (n + k)"
  by (simp add: zfs_uio_advance_def algebra_simps)

end
