(* ===== verification/CmnErr.thy ===== *)
theory CmnErr
  imports Prelude
begin

text \<open>
  Messages printed once (\<^verbatim>\<open>src/surgeon/compat/sys/cmn_err.h\<close>) on top of the atomic
  compare-and-swap \<^verbatim>\<open>src/surgeon/compat/atomic.h\<close> declares. Each use of the macro has a flag of its
  own, which any number of threads race for with a compare-and-swap; the swap and the print are
  separate steps, so a thread may be overtaken between them. \<^verbatim>\<open>atomic_cas_32\<close> is library
  code: it is an argument, with the behaviour the header documents as a hypothesis. The theorem
  is that in every interleaving exactly one thread prints.
\<close>

subsection \<open>One thread\<close>

text \<open>Where a thread is in the macro: before the swap, past it with the duty to print, or done.\<close>

datatype once_pc = Start | Won | Done

text \<open>
  The four macros \<^verbatim>\<open>cmn_err_once\<close>, \<^verbatim>\<open>vcmn_err_once\<close>, \<^verbatim>\<open>zcmn_err_once\<close> and
  \<^verbatim>\<open>vzcmn_err_once\<close> differ only in the function they print with.
\<close>

datatype once_macro = CMN_ERR | VCMN_ERR | ZCMN_ERR | VZCMN_ERR

text \<open>The flag, the messages printed, and the threads of one use of a macro.\<close>

record 'msg once =
  printed :: u32
  messages :: "(once_macro \<times> 'msg) list"
  threads :: "(once_pc \<times> 'msg) list"

text \<open>The swap returns the old value and leaves the new one: \<open>cas v old new = (returned, after)\<close>.\<close>

definition swap_step :: "(u32 \<Rightarrow> u32 \<Rightarrow> u32 \<Rightarrow> u32 \<times> u32) \<Rightarrow> u32 \<Rightarrow> once_pc \<times> u32" where
  "swap_step cas v = (let (old, v') = cas v 0 1 in (if old = 0 then Won else Done, v'))"

inductive once_step ::
  "(u32 \<Rightarrow> u32 \<Rightarrow> u32 \<Rightarrow> u32 \<times> u32) \<Rightarrow> once_macro \<Rightarrow> 'msg once \<Rightarrow> 'msg once \<Rightarrow> bool"
  for cas m where
  swap: "i < length (threads s) \<Longrightarrow> threads s ! i = (Start, msg) \<Longrightarrow>
     swap_step cas (printed s) = (pc, v) \<Longrightarrow>
     once_step cas m s (s\<lparr>printed := v, threads := (threads s)[i := (pc, msg)]\<rparr>)"
| print: "i < length (threads s) \<Longrightarrow> threads s ! i = (Won, msg) \<Longrightarrow>
     once_step cas m s (s\<lparr>messages := messages s @ [(m, msg)], threads := (threads s)[i := (Done, msg)]\<rparr>)"

inductive once_run ::
  "(u32 \<Rightarrow> u32 \<Rightarrow> u32 \<Rightarrow> u32 \<times> u32) \<Rightarrow> once_macro \<Rightarrow> 'msg once \<Rightarrow> 'msg once \<Rightarrow> bool"
  for cas m where
  refl: "once_run cas m s s"
| step: "once_run cas m s t \<Longrightarrow> once_step cas m t u \<Longrightarrow> once_run cas m s u"

definition once_init :: "'msg list \<Rightarrow> 'msg once" where
  "once_init msgs = \<lparr>printed = 0, messages = [], threads = map (\<lambda>x. (Start, x)) msgs\<rparr>"

definition finished :: "'msg once \<Rightarrow> bool" where
  "finished s \<longleftrightarrow> (\<forall>(pc, msg) \<in> set (threads s). pc = Done)"

subsection \<open>The invariant\<close>

definition winners :: "'msg once \<Rightarrow> nat" where
  "winners s = length (filter (\<lambda>(pc, msg). pc = Won) (threads s))"

text \<open>
  Nothing happened yet; or the flag is up and the thread that raised it has printed or is about
  to.
\<close>

definition once_inv :: "'msg once \<Rightarrow> bool" where
  "once_inv s \<longleftrightarrow>
    (printed s = 0 \<and> messages s = [] \<and> (\<forall>(pc, msg) \<in> set (threads s). pc = Start)) \<or>
    (printed s = 1 \<and> length (messages s) + winners s = 1)"

lemma winners_update:
  assumes "i < length (threads s)"
  shows "length (filter (\<lambda>(pc, msg). pc = Won) ((threads s)[i := (pc, msg)]))
      + (if fst (threads s ! i) = Won then 1 else 0) = winners s + (if pc = Won then 1 else 0)"
proof -
  let ?P = "\<lambda>(pc, msg). pc = Won"
  have split: "threads s = take i (threads s) @ threads s ! i # drop (Suc i) (threads s)"
    using assms by (rule id_take_nth_drop)
  have "(threads s)[i := (pc, msg)] = take i (threads s) @ (pc, msg) # drop (Suc i) (threads s)"
    using assms by (rule upd_conv_take_nth_drop)
  moreover have "winners s = length (filter ?P (take i (threads s)))
      + (if fst (threads s ! i) = Won then 1 else 0) + length (filter ?P (drop (Suc i) (threads s)))"
    unfolding winners_def by (subst split) (auto simp: case_prod_beta)
  ultimately show ?thesis by (simp add: case_prod_beta)
qed

lemma no_winners: "\<forall>(pc, msg) \<in> set (threads s). pc = Start \<Longrightarrow> winners s = 0"
  by (auto simp: winners_def filter_empty_conv)

lemma once_step_inv:
  assumes cas: "\<And>v a b. cas v a b = (v, if v = a then b else v)"
    and "once_step cas m s t" and "once_inv s"
  shows "once_inv t"
  using assms(2)
proof cases
  case (swap i msg pc v)
  have w: "length (filter (\<lambda>(pc, msg). pc = Won) ((threads s)[i := (pc, msg)])) =
      winners s + (if pc = Won then 1 else 0)"
    using winners_update [OF swap(2), of pc msg] swap(3) by simp
  from assms(3) consider (fresh) "printed s = 0" "messages s = []" "winners s = 0"
    | (taken) "printed s = 1" "length (messages s) + winners s = 1"
    using no_winners [of s] unfolding once_inv_def by (elim disjE conjE) simp_all
  then show ?thesis
  proof cases
    case fresh
    then have "pc = Won" "v = 1" using swap(4) by (simp_all add: swap_step_def cas)
    with w fresh show ?thesis unfolding swap(1) once_inv_def by (simp add: winners_def)
  next
    case taken
    then have "pc = Done" "v = 1" using swap(4) by (simp_all add: swap_step_def cas)
    with w taken show ?thesis unfolding swap(1) once_inv_def by (simp add: winners_def)
  qed
next
  case (print i msg)
  have w: "length (filter (\<lambda>(pc, msg). pc = Won) ((threads s)[i := (Done, msg)])) + 1 = winners s"
    using winners_update [OF print(2), of Done msg] print(3) by simp
  have "(Won, msg) \<in> set (threads s)" using print(2,3) by (metis nth_mem)
  then have p: "printed s = 1" and l: "length (messages s) + winners s = 1"
    using assms(3) by (auto simp: once_inv_def)
  from w l have "length (messages s) = 0"
    and "length (filter (\<lambda>(pc, msg). pc = Won) ((threads s)[i := (Done, msg)])) = 0" by linarith+
  with p show ?thesis unfolding print(1) once_inv_def by (simp add: winners_def)
qed

lemma once_run_inv:
  assumes "\<And>v a b. cas v a b = (v, if v = a then b else v)"
    and "once_run cas m s t" and "once_inv s"
  shows "once_inv t"
  using assms(2,3) by induction (auto intro: once_step_inv [OF assms(1)])

lemma once_init_inv: "once_inv (once_init msgs)"
  by (auto simp: once_inv_def once_init_def)

lemma once_run_threads: "once_run cas m s t \<Longrightarrow> length (threads t) = length (threads s)"
  by (induction rule: once_run.induct) (auto elim: once_step.cases)

subsection \<open>Properties\<close>

text \<open>
  C35: a message is printed once. However the steps of the threads that reach the same use of the
  macro are interleaved, at most one message has been printed at any time, and when the threads
  are done, and there was at least one, exactly one has.
\<close>

theorem printed_once:
  assumes cas: "\<And>v a b. cas v a b = (v, if v = a then b else v)"
    and run: "once_run cas m (once_init msgs) s"
  shows "length (messages s) \<le> 1 \<and> (finished s \<and> msgs \<noteq> [] \<longrightarrow> length (messages s) = 1)"
proof -
  have inv: "once_inv s" using once_run_inv [OF cas run once_init_inv] .
  have len: "length (threads s) = length msgs"
    using once_run_threads [OF run] by (simp add: once_init_def)
  have "length (messages s) = 1" if fin: "finished s" and ne: "msgs \<noteq> []"
  proof -
    have "winners s = 0" using fin by (auto simp: finished_def winners_def filter_empty_conv)
    moreover obtain x where "x \<in> set (threads s)"
      using len ne by (cases "threads s") auto
    then have "\<not> (\<forall>(pc, msg) \<in> set (threads s). pc = Start)"
      using fin by (fastforce simp: finished_def)
    ultimately show ?thesis using inv by (auto simp: once_inv_def)
  qed
  then show ?thesis using inv by (auto simp: once_inv_def)
qed

theorem printed_once_witness:
  "\<exists>s. once_run (\<lambda>v a b. (v, if v = a then b else v)) CMN_ERR (once_init [''a'', ''b'']) s \<and>
     finished s \<and> length (messages s) = 1"
proof -
  let ?cas = "\<lambda>v a b. (v, if v = a then b else v) :: u32 \<times> u32"
  let ?s0 = "once_init [''a'', ''b'']"
  let ?s1 = "?s0\<lparr>printed := 1, threads := [(Won, ''a''), (Start, ''b'')]\<rparr>"
  let ?s2 = "?s1\<lparr>printed := 1, threads := [(Won, ''a''), (Done, ''b'')]\<rparr>"
  let ?s3 = "?s2\<lparr>messages := [(CMN_ERR, ''a'')], threads := [(Done, ''a''), (Done, ''b'')]\<rparr>"
  have "once_step ?cas CMN_ERR ?s0 ?s1"
    using once_step.swap [of 0 ?s0 "''a''" ?cas Won 1] by (simp add: once_init_def swap_step_def)
  moreover have "once_step ?cas CMN_ERR ?s1 ?s2"
    using once_step.swap [of 1 ?s1 "''b''" ?cas Done 1] by (simp add: once_init_def swap_step_def)
  moreover have "once_step ?cas CMN_ERR ?s2 ?s3"
    using once_step.print [of 0 ?s2 "''a''" ?cas CMN_ERR] by (simp add: once_init_def)
  ultimately have run: "once_run ?cas CMN_ERR ?s0 ?s3"
    by (blast intro: once_run.intros)
  have "finished ?s3" by (simp add: finished_def)
  with run printed_once [OF _ run] show ?thesis by auto
qed

end
