(* ===== verification/CLayout.thy ===== *)
theory CLayout
  imports Prelude
begin

text \<open>
  The layout of C aggregates under the LP64 ABI of the program's targets: sizes, alignments and
  field offsets, computed from a description of a type. The theories of the on-disk formats and
  of the ioctl arguments describe their structures in it; the lemmas here hold of every
  well-formed description: sizes are multiples of alignments, and the fields of a structure are
  aligned, in order, disjoint and inside it.
\<close>

subsection \<open>Types\<close>

text \<open>A scalar has a size and an alignment.\<close>

datatype c_type =
    Scalar nat nat
  | Array nat c_type
  | Struct c_fields
  | Union c_fields
and c_fields =
    NoField
  | Field string c_type c_fields

abbreviation "uchar_t \<equiv> Scalar 1 1"
abbreviation "ushort_t \<equiv> Scalar 2 2"
abbreviation "uint_t \<equiv> Scalar 4 4"
abbreviation "uint64_t \<equiv> Scalar 8 8"
abbreviation "pointer_t \<equiv> Scalar 8 8"

definition align_up :: "nat \<Rightarrow> nat \<Rightarrow> nat" where
  "align_up n a = (n + a - 1) div a * a"

primrec alignof :: "c_type \<Rightarrow> nat" and fields_align :: "c_fields \<Rightarrow> nat" where
  "alignof (Scalar s a) = a"
| "alignof (Array n t) = alignof t"
| "alignof (Struct fs) = fields_align fs"
| "alignof (Union fs) = fields_align fs"
| "fields_align NoField = 1"
| "fields_align (Field f t fs) = max (alignof t) (fields_align fs)"

text \<open>
  \<open>fields_end\<close> is the first byte after the last field of a structure whose first field may
  start at byte \<open>n\<close>, \<open>fields_max\<close> the size of the largest alternative of a union.
\<close>

fun sizeof :: "c_type \<Rightarrow> nat" and fields_end :: "c_fields \<Rightarrow> nat \<Rightarrow> nat"
  and fields_max :: "c_fields \<Rightarrow> nat" where
  "sizeof (Scalar s a) = s"
| "sizeof (Array n t) = n * sizeof t"
| "sizeof (Struct fs) = align_up (fields_end fs 0) (fields_align fs)"
| "sizeof (Union fs) = align_up (fields_max fs) (fields_align fs)"
| "fields_end NoField n = n"
| "fields_end (Field f t fs) n = fields_end fs (align_up n (alignof t) + sizeof t)"
| "fields_max NoField = 0"
| "fields_max (Field f t fs) = max (sizeof t) (fields_max fs)"

text \<open>The fields of a structure with their offsets and sizes.\<close>

fun layout :: "c_fields \<Rightarrow> nat \<Rightarrow> (string \<times> nat \<times> nat) list" where
  "layout NoField n = []"
| "layout (Field f t fs) n =
    (let off = align_up n (alignof t) in (f, off, sizeof t) # layout fs (off + sizeof t))"

fun struct_fields :: "c_type \<Rightarrow> c_fields" where
  "struct_fields (Struct fs) = fs"
| "struct_fields _ = NoField"

definition offsetof :: "c_type \<Rightarrow> string \<Rightarrow> nat option" where
  "offsetof t f = map_option fst (map_of (layout (struct_fields t) 0) f)"

text \<open>Fields from a list of names and types.\<close>

fun fields :: "(string \<times> c_type) list \<Rightarrow> c_fields" where
  "fields [] = NoField"
| "fields ((f, t) # fs) = Field f t (fields fs)"

definition struct :: "(string \<times> c_type) list \<Rightarrow> c_type" where
  "struct fs = Struct (fields fs)"

text \<open>A structure the compiler puts no padding into.\<close>

definition packed :: "c_type \<Rightarrow> bool" where
  "packed t = (sizeof t = sum_list (map (snd \<circ> snd) (layout (struct_fields t) 0)))"

subsection \<open>Well-formed descriptions\<close>

text \<open>Alignments are powers of two that divide the sizes of the scalars.\<close>

definition pow2 :: "nat \<Rightarrow> bool" where "pow2 a \<longleftrightarrow> (\<exists>k. a = 2 ^ k)"

fun type_wf :: "c_type \<Rightarrow> bool" and fields_wf :: "c_fields \<Rightarrow> bool" where
  "type_wf (Scalar s a) \<longleftrightarrow> pow2 a \<and> a dvd s"
| "type_wf (Array n t) \<longleftrightarrow> type_wf t"
| "type_wf (Struct fs) \<longleftrightarrow> fields_wf fs"
| "type_wf (Union fs) \<longleftrightarrow> fields_wf fs"
| "fields_wf NoField \<longleftrightarrow> True"
| "fields_wf (Field f t fs) \<longleftrightarrow> type_wf t \<and> fields_wf fs"

lemma pow2_1: "pow2 1" "pow2 2" "pow2 4" "pow2 8"
proof -
  show "pow2 1" unfolding pow2_def by (rule exI [of _ 0]) simp
  show "pow2 2" unfolding pow2_def by (rule exI [of _ 1]) simp
  show "pow2 4" unfolding pow2_def by (rule exI [of _ 2]) simp
  show "pow2 8" unfolding pow2_def by (rule exI [of _ 3]) simp
qed

lemma pow2_pos: "pow2 a \<Longrightarrow> 0 < a"
  by (auto simp: pow2_def)

lemma pow2_max: "pow2 a \<Longrightarrow> pow2 b \<Longrightarrow> pow2 (max a b)"
  by (simp add: max_def)

lemma pow2_dvd_max: "pow2 a \<Longrightarrow> pow2 b \<Longrightarrow> a dvd max a b \<and> b dvd max a b"
  by (auto simp: pow2_def max_def le_imp_power_dvd)

lemma align_up_dvd: "a dvd align_up n a"
  by (simp add: align_up_def)

lemma align_up_ge: "0 < a \<Longrightarrow> n \<le> align_up n a"
proof -
  assume a: "0 < a"
  have "n + a - 1 < (n + a - 1) div a * a + a"
    using a by (metis dividend_less_div_times mult.commute add.commute)
  then show ?thesis using a by (simp add: align_up_def)
qed

lemma align_pow2:
  "type_wf t \<Longrightarrow> pow2 (alignof t)"
  "fields_wf fs \<Longrightarrow> pow2 (fields_align fs)"
  by (induction t and fs) (auto simp: pow2_1(1) [simplified] pow2_max)

lemma size_dvd: "type_wf t \<Longrightarrow> alignof t dvd sizeof t"
proof (induction t)
  case (Array n t)
  then show ?case by (simp add: dvd_mult)
qed (simp_all add: align_up_dvd)

text \<open>The fields of a structure, from byte \<open>n\<close> on.\<close>

lemma layout_sound:
  assumes "fields_wf fs"
  shows "sorted_wrt (\<lambda>(f, o1, s1) (g, o2, s2). o1 + s1 \<le> o2) (layout fs n) \<and>
    list_all (\<lambda>(f, off, s). n \<le> off \<and> off + s \<le> fields_end fs n) (layout fs n) \<and>
    n \<le> fields_end fs n"
  using assms
proof (induction fs arbitrary: n rule: c_fields.induct [of "\<lambda>_. True"])
  case (Field f t fs)
  let ?off = "align_up n (alignof t)"
  have le: "n \<le> ?off" using Field.prems pow2_pos align_pow2(1) by (intro align_up_ge) simp
  have IH: "sorted_wrt (\<lambda>(f, o1, s1) (g, o2, s2). o1 + s1 \<le> o2) (layout fs (?off + sizeof t))"
    "list_all (\<lambda>(f, off, s). ?off + sizeof t \<le> off \<and> off + s \<le> fields_end fs (?off + sizeof t))
       (layout fs (?off + sizeof t))"
    "?off + sizeof t \<le> fields_end fs (?off + sizeof t)"
    using Field.IH [of "?off + sizeof t"] Field.prems by auto
  then show ?case using le by (fastforce simp: Let_def list_all_iff)
qed auto

lemma layout_aligned:
  "list_all2 (\<lambda>(f, off, s) (g, t). f = g \<and> alignof t dvd off \<and> s = sizeof t) (layout (fields fs) n) fs"
  by (induction fs arbitrary: n) (auto simp: Let_def align_up_dvd)

end
