(* ===== verification/DiskLabel.thy ===== *)
theory DiskLabel
  imports CLayout Byteorder
begin

text \<open>
  The on-disk formats of \<^verbatim>\<open>src/surgeon/compat/sys/dklabel.h\<close> and
  \<^verbatim>\<open>src/surgeon/compat/sys/dktp/fdisk.h\<close>: the Sun disk label in its two variants, the stored
  device id and the master boot block, as structure descriptions with the fields of the source
  in order. The theorems are what the comments of the headers promise: each record fills one
  sector of 512 bytes, with no padding of the compiler's, and its magic numbers, checksums and
  partition table are where the firmware looks for them.
\<close>

subsection \<open>The Sun label\<close>

definition DKL_MAGIC :: u16 where "DKL_MAGIC = 0xDABE"
definition FKL_MAGIC :: u16 where "FKL_MAGIC = 0xff"

text \<open>The two VTOC formats, \<^verbatim>\<open>_SUNOS_VTOC_16\<close> and \<^verbatim>\<open>_SUNOS_VTOC_8\<close>.\<close>

datatype vtoc_format = VTOC_16 | VTOC_8

fun NDKMAP :: "vtoc_format \<Rightarrow> nat" where
  "NDKMAP VTOC_16 = 16"
| "NDKMAP VTOC_8 = 8"

fun DK_LABEL_LOC :: "vtoc_format \<Rightarrow> nat" where
  "DK_LABEL_LOC VTOC_16 = 1"
| "DK_LABEL_LOC VTOC_8 = 0"

definition LEN_DKL_ASCII :: nat where "LEN_DKL_ASCII = 128"
definition LEN_DKL_VVOL :: nat where "LEN_DKL_VVOL = 8"
definition DK_LABEL_SIZE :: nat where "DK_LABEL_SIZE = 512"

definition dk_map :: c_type where
  "dk_map = struct [(''dkl_cylno'', uint64_t), (''dkl_nblk'', uint64_t)]"

definition dk_map32 :: c_type where
  "dk_map32 = struct [(''dkl_cylno'', uint_t), (''dkl_nblk'', uint_t)]"

definition dk_map2 :: c_type where
  "dk_map2 = struct [(''p_tag'', ushort_t), (''p_flag'', ushort_t)]"

definition dkl_partition :: c_type where
  "dkl_partition = struct
    [(''p_tag'', ushort_t), (''p_flag'', ushort_t), (''p_start'', uint_t), (''p_size'', uint_t)]"

fun dk_vtoc :: "vtoc_format \<Rightarrow> c_type" where
  "dk_vtoc VTOC_16 = struct
    [(''v_bootinfo'', Array 3 uint_t), (''v_sanity'', uint_t), (''v_version'', uint_t),
     (''v_volume'', Array LEN_DKL_VVOL uchar_t), (''v_sectorsz'', ushort_t), (''v_nparts'', ushort_t),
     (''v_reserved'', Array 10 uint_t), (''v_part'', Array (NDKMAP VTOC_16) dkl_partition),
     (''timestamp'', Array (NDKMAP VTOC_16) uint_t), (''v_asciilabel'', Array LEN_DKL_ASCII uchar_t)]"
| "dk_vtoc VTOC_8 = struct
    [(''v_version'', uint_t), (''v_volume'', Array LEN_DKL_VVOL uchar_t), (''v_nparts'', ushort_t),
     (''v_part'', Array (NDKMAP VTOC_8) dk_map2), (''v_bootinfo'', Array 3 uint_t),
     (''v_sanity'', uint_t), (''v_reserved'', Array 10 uint_t),
     (''v_timestamp'', Array (NDKMAP VTOC_8) uint_t)]"

text \<open>The padding, computed as in the source.\<close>

fun LEN_DKL_PAD :: "vtoc_format \<Rightarrow> nat" where
  "LEN_DKL_PAD VTOC_16 =
     DK_LABEL_SIZE - (sizeof (dk_vtoc VTOC_16) + 4 * sizeof uint_t + 12 * sizeof ushort_t + 2 * sizeof ushort_t)"
| "LEN_DKL_PAD VTOC_8 =
     DK_LABEL_SIZE - (LEN_DKL_ASCII + sizeof (dk_vtoc VTOC_8) + sizeof dk_map32 * NDKMAP VTOC_8
       + 14 * sizeof ushort_t + 2 * sizeof ushort_t)"

fun dk_label :: "vtoc_format \<Rightarrow> c_type" where
  "dk_label VTOC_16 = struct
    [(''dkl_vtoc'', dk_vtoc VTOC_16), (''dkl_pcyl'', uint_t), (''dkl_ncyl'', uint_t),
     (''dkl_acyl'', ushort_t), (''dkl_bcyl'', ushort_t), (''dkl_nhead'', uint_t),
     (''dkl_nsect'', uint_t), (''dkl_intrlv'', ushort_t), (''dkl_skew'', ushort_t),
     (''dkl_apc'', ushort_t), (''dkl_rpm'', ushort_t), (''dkl_write_reinstruct'', ushort_t),
     (''dkl_read_reinstruct'', ushort_t), (''dkl_extra'', Array 4 ushort_t),
     (''dkl_pad'', Array (LEN_DKL_PAD VTOC_16) uchar_t),
     (''dkl_magic'', ushort_t), (''dkl_cksum'', ushort_t)]"
| "dk_label VTOC_8 = struct
    [(''dkl_asciilabel'', Array LEN_DKL_ASCII uchar_t), (''dkl_vtoc'', dk_vtoc VTOC_8),
     (''dkl_write_reinstruct'', ushort_t), (''dkl_read_reinstruct'', ushort_t),
     (''dkl_pad'', Array (LEN_DKL_PAD VTOC_8) uchar_t), (''dkl_rpm'', ushort_t),
     (''dkl_pcyl'', ushort_t), (''dkl_apc'', ushort_t), (''dkl_obs1'', ushort_t),
     (''dkl_obs2'', ushort_t), (''dkl_intrlv'', ushort_t), (''dkl_ncyl'', ushort_t),
     (''dkl_acyl'', ushort_t), (''dkl_nhead'', ushort_t), (''dkl_nsect'', ushort_t),
     (''dkl_obs3'', ushort_t), (''dkl_obs4'', ushort_t),
     (''dkl_map'', Array (NDKMAP VTOC_8) dk_map32),
     (''dkl_magic'', ushort_t), (''dkl_cksum'', ushort_t)]"

definition fk_label :: c_type where
  "fk_label = struct
    [(''fkl_type'', uchar_t), (''fkl_magich'', uchar_t), (''fkl_magicl'', uchar_t), (''filler'', uchar_t)]"

subsection \<open>The stored device id\<close>

definition DK_DEVID_BLKSIZE :: nat where "DK_DEVID_BLKSIZE = 512"
definition DK_DEVID_SIZE :: nat where "DK_DEVID_SIZE = DK_DEVID_BLKSIZE - sizeof uchar_t * 7"

definition dk_devid :: c_type where
  "dk_devid = struct
    [(''dkd_rev_hi'', uchar_t), (''dkd_rev_lo'', uchar_t), (''dkd_flags'', uchar_t),
     (''dkd_devid'', Array DK_DEVID_SIZE uchar_t), (''dkd_checksum3'', uchar_t),
     (''dkd_checksum2'', uchar_t), (''dkd_checksum1'', uchar_t), (''dkd_checksum0'', uchar_t)]"

text \<open>The checksum bytes, most significant first.\<close>

record dkd_checksum =
  dkd_checksum3 :: u8
  dkd_checksum2 :: u8
  dkd_checksum1 :: u8
  dkd_checksum0 :: u8

text \<open>The shifts are of \<^verbatim>\<open>int\<close>s and the sums wrap as the compilers have them.\<close>

definition DKD_GETCHKSUM :: "dkd_checksum \<Rightarrow> c_int" where
  "DKD_GETCHKSUM d =
    push_bit 24 (ucast (dkd_checksum3 d)) + push_bit 16 (ucast (dkd_checksum2 d))
    + push_bit 8 (ucast (dkd_checksum1 d)) + ucast (dkd_checksum0 d)"

text \<open>
  \<^verbatim>\<open>hiword\<close>, \<^verbatim>\<open>loword\<close>, \<^verbatim>\<open>hibyte\<close> and \<^verbatim>\<open>lobyte\<close> are not defined in the
  headers here; they are arguments.
\<close>

definition DKD_FORMCHKSUM ::
  "(c_int \<Rightarrow> u16) \<Rightarrow> (c_int \<Rightarrow> u16) \<Rightarrow> (u16 \<Rightarrow> u8) \<Rightarrow> (u16 \<Rightarrow> u8) \<Rightarrow> c_int \<Rightarrow> dkd_checksum" where
  "DKD_FORMCHKSUM hiword loword hibyte lobyte c =
    \<lparr>dkd_checksum3 = hibyte (hiword c), dkd_checksum2 = lobyte (hiword c),
     dkd_checksum1 = hibyte (loword c), dkd_checksum0 = lobyte (loword c)\<rparr>"

subsection \<open>The master boot block\<close>

definition BOOTSZ :: nat where "BOOTSZ = 440"
definition FD_NUMPART :: nat where "FD_NUMPART = 4"
definition MBB_MAGIC :: u16 where "MBB_MAGIC = 0xAA55"
definition FDISK_PART_TABLE_START :: nat where "FDISK_PART_TABLE_START = 446"

definition ipart :: c_type where
  "ipart = struct
    [(''bootid'', uchar_t), (''beghead'', uchar_t), (''begsect'', uchar_t), (''begcyl'', uchar_t),
     (''systid'', uchar_t), (''endhead'', uchar_t), (''endsect'', uchar_t), (''endcyl'', uchar_t),
     (''relsect'', uint_t), (''numsect'', uint_t)]"

definition mboot :: c_type where
  "mboot = struct
    [(''bootinst'', Array BOOTSZ uchar_t), (''win_volserno_lo'', ushort_t),
     (''win_volserno_hi'', ushort_t), (''reserved'', ushort_t),
     (''parts'', Array (FD_NUMPART * sizeof ipart) uchar_t), (''signature'', ushort_t)]"

text \<open>The values of \<^verbatim>\<open>systid\<close>, with their names.\<close>

definition systid_values :: "(string \<times> nat) list" where
  "systid_values =
    [(''UNUSED'', 0), (''DOSOS12'', 1), (''PCIXOS'', 2), (''DOSOS16'', 4), (''EXTDOS'', 5),
     (''DOSHUGE'', 6), (''FDISK_IFS'', 7), (''FDISK_AIXBOOT'', 8), (''FDISK_AIXDATA'', 9),
     (''FDISK_OS2BOOT'', 10), (''FDISK_WINDOWS'', 11), (''FDISK_EXT_WIN'', 12), (''FDISK_FAT95'', 14),
     (''FDISK_EXTLBA'', 15), (''DIAGPART'', 18), (''FDISK_LINUX'', 65), (''FDISK_LINUXDSWAP'', 66),
     (''FDISK_LINUXDNAT'', 67), (''FDISK_CPM'', 82), (''DOSDATA'', 86), (''OTHEROS'', 98),
     (''UNIXOS'', 99), (''FDISK_NOVELL2'', 100), (''FDISK_NOVELL3'', 101), (''FDISK_QNX4'', 119),
     (''FDISK_QNX42'', 120), (''FDISK_QNX43'', 121), (''SUNIXOS'', 130), (''FDISK_LINUXNAT'', 131),
     (''FDISK_NTFSVOL1'', 134), (''FDISK_NTFSVOL2'', 135), (''FDISK_BSD'', 165),
     (''FDISK_NEXTSTEP'', 167), (''FDISK_BSDIFS'', 183), (''FDISK_BSDISWAP'', 184), (''X86BOOT'', 190),
     (''SUNIXOS2'', 191), (''EFI_PMBR'', 238), (''EFI_FS'', 239)]"

lemmas label_defs = dk_map_def dk_map32_def dk_map2_def dkl_partition_def dk_devid_def ipart_def
  mboot_def struct_def align_up_def offsetof_def packed_def LEN_DKL_ASCII_def LEN_DKL_VVOL_def
  DK_LABEL_SIZE_def DK_DEVID_BLKSIZE_def DK_DEVID_SIZE_def BOOTSZ_def FD_NUMPART_def
  FDISK_PART_TABLE_START_def

subsection \<open>Properties\<close>

lemma label_16:
  "sizeof (dk_label VTOC_16) = DK_LABEL_SIZE \<and> packed (dk_label VTOC_16) \<and>
   offsetof (dk_label VTOC_16) ''dkl_magic'' = Some 508 \<and> offsetof (dk_label VTOC_16) ''dkl_cksum'' = Some 510"
  by code_simp

lemma label_8:
  "sizeof (dk_label VTOC_8) = DK_LABEL_SIZE \<and> packed (dk_label VTOC_8) \<and>
   offsetof (dk_label VTOC_8) ''dkl_magic'' = Some 508 \<and> offsetof (dk_label VTOC_8) ''dkl_cksum'' = Some 510"
  by code_simp

text \<open>
  Both variants of the disk label fill a sector of 512 bytes exactly, the padding field
  computed for them closes the gap with no padding of the compiler's between the fields of the
  label, and the magic number and the checksum are the last two 16-bit words of the sector.
\<close>

theorem dk_label_fills_sector:
  "sizeof (dk_label f) = DK_LABEL_SIZE \<and> packed (dk_label f) \<and>
   offsetof (dk_label f) ''dkl_magic'' = Some 508 \<and> offsetof (dk_label f) ''dkl_cksum'' = Some 510"
  using label_16 label_8 by (cases f) simp_all

text \<open>
  The master boot block and the stored device id fill a sector exactly; a partition entry
  has 16 bytes, and the partition table of the boot block starts at the byte the firmware
  expects, after boot code that leaves the Windows disk id alone, and ends before the signature
  in the last two bytes.
\<close>

theorem boot_block_layout:
  "sizeof mboot = 512 \<and> sizeof ipart = 16 \<and> packed mboot \<and> packed ipart \<and>
   offsetof mboot ''parts'' = Some FDISK_PART_TABLE_START \<and> offsetof mboot ''signature'' = Some 510 \<and>
   offsetof mboot ''win_volserno_lo'' = Some BOOTSZ \<and>
   sizeof dk_devid = DK_DEVID_BLKSIZE \<and> packed dk_devid \<and> distinct (map snd systid_values) \<and>
   list_all (\<lambda>(n, v). v < 256) systid_values"
  by (simp add: label_defs Let_def systid_values_def del: One_nat_def)

text \<open>
  Reading the device-id checksum gives back the number it was formed from, for every 32-bit
  number, given word and byte extractors that do what their names say.
\<close>

theorem devid_checksum_roundtrip:
  assumes "hiword = (\<lambda>c. ucast (drop_bit 16 c))" and "loword = (\<lambda>c. ucast c)"
    and "hibyte = (\<lambda>w. ucast (drop_bit 8 w))" and "lobyte = (\<lambda>w. ucast w)"
  shows "DKD_GETCHKSUM (DKD_FORMCHKSUM hiword loword hibyte lobyte c) = c"
proof -
  let ?b3 = "push_bit 24 (ucast (ucast (drop_bit 8 (ucast (drop_bit 16 c) :: u16)) :: u8)) :: c_int"
  let ?b2 = "push_bit 16 (ucast (ucast (ucast (drop_bit 16 c) :: u16) :: u8)) :: c_int"
  let ?b1 = "push_bit 8 (ucast (ucast (drop_bit 8 (ucast c :: u16)) :: u8)) :: c_int"
  let ?b0 = "ucast (ucast (ucast c :: u16) :: u8) :: c_int"
  have "?b3 + ?b2 + ?b1 + ?b0 = c"
  proof -
    have add_or: "x + y = x OR y" if "x AND y = 0" for x y :: c_int
      using word_plus_and_or [of x y] that by simp
    have "?b3 AND ?b2 = 0" "(?b3 OR ?b2) AND ?b1 = 0" "(?b3 OR ?b2 OR ?b1) AND ?b0 = 0"
      by (auto intro!: bit_word_eqI simp: bit_simps)
    then have "?b3 + ?b2 + ?b1 + ?b0 = ?b3 OR ?b2 OR ?b1 OR ?b0" by (simp add: add_or or.assoc)
    also have "\<dots> = c" by (rule bit_word_eqI) (auto simp: bit_simps)
    finally show ?thesis .
  qed
  then show ?thesis unfolding assms by (simp add: DKD_GETCHKSUM_def DKD_FORMCHKSUM_def)
qed

theorem devid_checksum_roundtrip_witness:
  "DKD_GETCHKSUM (DKD_FORMCHKSUM (\<lambda>c. ucast (drop_bit 16 c)) (\<lambda>c. ucast c)
     (\<lambda>w. ucast (drop_bit 8 w)) (\<lambda>w. ucast w) 0xDEADBEEF) = 0xDEADBEEF"
  by (rule devid_checksum_roundtrip [OF refl refl refl refl])

end
