(* ===== verification/DiskIoctl.thy ===== *)
theory DiskIoctl
  imports DiskLabel
begin

text \<open>
  The ioctl interfaces of \<^verbatim>\<open>src/surgeon/compat/sys/dkio.h\<close> and
  \<^verbatim>\<open>src/surgeon/compat/sys/mhd.h\<close>: the request codes, one list per group of the source,
  and the argument structures as layout descriptions. The theorems show that no two requests
  share a code and each is in the range its comment reserves, and that the arguments that have
  a 32-bit form (\<^verbatim>\<open>_SYSCALL32\<close>, \<^verbatim>\<open>_MULTI_DATAMODEL\<close>) have there the layout a 32-bit
  caller gives them.
\<close>

subsection \<open>Disk requests\<close>

definition DKIOC :: u32 where "DKIOC = push_bit 8 0x04"

text \<open>The request codes, by group, as the source lists them.\<close>

definition dkioc_generic :: "(string \<times> u32) list" where
  "dkioc_generic =
    [(''DKIOCGGEOM'', DKIOC OR 1), (''DKIOCINFO'', DKIOC OR 3), (''DKIOCEJECT'', DKIOC OR 6),
     (''DKIOCGVTOC'', DKIOC OR 11), (''DKIOCSVTOC'', DKIOC OR 12)]"

definition dkioc_cache :: "(string \<times> u32) list" where
  "dkioc_cache =
    [(''DKIOCFLUSHWRITECACHE'', DKIOC OR 34), (''DKIOCGETWCE'', DKIOC OR 36),
     (''DKIOCSETWCE'', DKIOC OR 37)]"

definition dkioc_format :: "(string \<times> u32) list" where
  "dkioc_format =
    [(''DKIOCSGEOM'', DKIOC OR 2), (''DKIOCSAPART'', DKIOC OR 4), (''DKIOCGAPART'', DKIOC OR 5),
     (''DKIOCG_PHYGEOM'', DKIOC OR 32), (''DKIOCG_VIRTGEOM'', DKIOC OR 33)]"

definition dkioc_removable :: "(string \<times> u32) list" where
  "dkioc_removable =
    [(''DKIOCLOCK'', DKIOC OR 7), (''DKIOCUNLOCK'', DKIOC OR 8), (''DKIOCSTATE'', DKIOC OR 13),
     (''DKIOCREMOVABLE'', DKIOC OR 16), (''DKIOCHOTPLUGGABLE'', DKIOC OR 35),
     (''DKIOCADDBAD'', DKIOC OR 20), (''DKIOCGETDEF'', DKIOC OR 21)]"

definition dkioc_media :: "(string \<times> u32) list" where
  "dkioc_media =
    [(''DKIOCPARTINFO'', DKIOC OR 22), (''DKIOC_EBP_ENABLE'', DKIOC OR 40),
     (''DKIOC_EBP_DISABLE'', DKIOC OR 41), (''DKIOCGMEDIAINFO'', DKIOC OR 42),
     (''DKIOCGMBOOT'', DKIOC OR 43), (''DKIOCSMBOOT'', DKIOC OR 44),
     (''DKIOCGTEMPERATURE'', DKIOC OR 45)]"

definition dkioc_volume :: "(string \<times> u32) list" where
  "dkioc_volume =
    [(''DKIOCSETEFI'', DKIOC OR 17), (''DKIOCGETEFI'', DKIOC OR 18), (''DKIOCPARTITION'', DKIOC OR 9),
     (''DKIOCGETVOLCAP'', DKIOC OR 25), (''DKIOCSETVOLCAP'', DKIOC OR 26), (''DKIOCDMR'', DKIOC OR 27)]"

definition dkioc_device :: "(string \<times> u32) list" where
  "dkioc_device = [(''DKIOC_GETDISKID'', DKIOC OR 46), (''DKIOC_UPDATEFW'', DKIOC OR 47)]"

definition dkioc_all :: "(string \<times> u32) list" where
  "dkioc_all = dkioc_generic @ dkioc_cache @ dkioc_format @ dkioc_removable @ dkioc_media @
     dkioc_volume @ dkioc_device"

subsection \<open>Arguments of the disk requests\<close>

definition DK_DEVLEN :: nat where "DK_DEVLEN = 16"

definition dk_cinfo :: c_type where
  "dk_cinfo = struct
    [(''dki_cname'', Array DK_DEVLEN uchar_t), (''dki_ctype'', ushort_t), (''dki_flags'', ushort_t),
     (''dki_cnum'', ushort_t), (''dki_addr'', uint_t), (''dki_space'', uint_t), (''dki_prio'', uint_t),
     (''dki_vec'', uint_t), (''dki_dname'', Array DK_DEVLEN uchar_t), (''dki_unit'', uint_t),
     (''dki_partition'', ushort_t), (''dki_maxtransfer'', ushort_t)]"

definition dk_allmap :: "vtoc_format \<Rightarrow> c_type" where
  "dk_allmap f = struct [(''dka_map'', Array (NDKMAP f) dk_map)]"

definition dk_allmap32 :: "vtoc_format \<Rightarrow> c_type" where
  "dk_allmap32 f = struct [(''dka_map'', Array (NDKMAP f) dk_map32)]"

definition dk_geom :: c_type where
  "dk_geom = struct
    [(''dkg_ncyl'', ushort_t), (''dkg_acyl'', ushort_t), (''dkg_bcyl'', ushort_t),
     (''dkg_nhead'', ushort_t), (''dkg_obs1'', ushort_t), (''dkg_nsect'', ushort_t),
     (''dkg_intrlv'', ushort_t), (''dkg_obs2'', ushort_t), (''dkg_obs3'', ushort_t),
     (''dkg_apc'', ushort_t), (''dkg_rpm'', ushort_t), (''dkg_pcyl'', ushort_t),
     (''dkg_write_reinstruct'', ushort_t), (''dkg_read_reinstruct'', ushort_t),
     (''dkg_extra'', Array 7 ushort_t)]"

definition dk_callback :: c_type where
  "dk_callback = struct
    [(''dkc_callback'', pointer_t), (''dkc_cookie'', pointer_t), (''dkc_flag'', uint_t)]"

definition defect_header :: c_type where
  "defect_header = struct [(''head'', uint_t), (''buffer'', pointer_t)]"

definition defect_header32 :: c_type where
  "defect_header32 = struct [(''head'', uint_t), (''buffer'', uint_t)]"

definition part_info :: c_type where
  "part_info = struct [(''p_start'', uint64_t), (''p_length'', uint_t)]"

definition part_info32 :: c_type where
  "part_info32 = struct [(''p_start'', uint_t), (''p_length'', uint_t)]"

datatype dkio_state = DKIO_NONE | DKIO_EJECTED | DKIO_INSERTED | DKIO_DEV_GONE

record dk_temperature =
  dkt_flags :: u32
  dkt_cur_temp :: u16
  dkt_ref_temp :: u16

definition DKT_INVALID_TEMP :: int where "DKT_INVALID_TEMP = 0xFFFF"

text \<open>
  A driver stores the marker into a \<^verbatim>\<open>short\<close>; a caller that compares the field with the
  marker compares \<^verbatim>\<open>int\<close>s, the field sign-extended.
\<close>

definition set_invalid :: "dk_temperature \<Rightarrow> dk_temperature" where
  "set_invalid t = t\<lparr>dkt_cur_temp := of_int DKT_INVALID_TEMP\<rparr>"

definition reads_invalid :: "dk_temperature \<Rightarrow> bool" where
  "reads_invalid t \<longleftrightarrow> sint (dkt_cur_temp t) = DKT_INVALID_TEMP"

definition dk_minfo :: c_type where
  "dk_minfo = struct
    [(''dki_media_type'', uint_t), (''dki_lbsize'', uint_t), (''dki_capacity'', uint64_t)]"

text \<open>The media types: those of SFF 8090, and those of other rewritable media.\<close>

definition optical_media :: "(string \<times> nat) list" where
  "optical_media =
    [(''DK_REMOVABLE_DISK'', 0x02), (''DK_MO_ERASABLE'', 0x03), (''DK_MO_WRITEONCE'', 0x04),
     (''DK_AS_MO'', 0x05), (''DK_CDROM'', 0x08), (''DK_CDR'', 0x09), (''DK_CDRW'', 0x0A),
     (''DK_DVDROM'', 0x10), (''DK_DVDR'', 0x11), (''DK_DVDRAM'', 0x12)]"

definition magnetic_media :: "(string \<times> nat) list" where
  "magnetic_media =
    [(''DK_FIXED_DISK'', 0x10001), (''DK_FLOPPY'', 0x10002), (''DK_ZIP'', 0x10003), (''DK_JAZ'', 0x10004)]"

definition controller_types :: "(string \<times> nat) list" where
  "controller_types =
    [(''DKC_UNKNOWN'', 0), (''DKC_CDROM'', 1), (''DKC_WDC2880'', 2), (''DKC_XXX_0'', 3), (''DKC_XXX_1'', 4),
     (''DKC_DSD5215'', 5), (''DKC_ACB4000'', 7), (''DKC_MD21'', 8), (''DKC_XXX_2'', 9),
     (''DKC_NCRFLOPPY'', 10), (''DKC_SMSFLOPPY'', 12), (''DKC_SCSI_CCS'', 13), (''DKC_INTEL82072'', 14),
     (''DKC_MD'', 16), (''DKC_INTEL82077'', 19), (''DKC_DIRECT'', 20), (''DKC_PCMCIA_MEM'', 21),
     (''DKC_PCMCIA_ATA'', 22), (''DKC_VBD'', 23)]"

definition DKC_CUSTOMER_BASE :: nat where "DKC_CUSTOMER_BASE = 1024"

definition volcap :: c_type where
  "volcap = struct [(''vc_info'', uint_t), (''vc_set'', uint_t)]"

definition VOL_SIDENAME :: nat where "VOL_SIDENAME = 256"

definition vol_directed_rd :: c_type where
  "vol_directed_rd = struct
    [(''vdr_flags'', uint_t), (''vdr_offset'', uint64_t), (''vdr_nbytes'', uint64_t),
     (''vdr_bytesread'', uint64_t), (''vdr_data'', pointer_t), (''vdr_side'', uint_t),
     (''vdr_side_name'', Array VOL_SIDENAME uchar_t)]"

text \<open>
  The 32-bit form. \<open>lla\<close> and \<open>lla32\<close> are the alignments of \<^verbatim>\<open>long long\<close> here and in
  the 32-bit world; \<^verbatim>\<open>#pragma pack(4)\<close> caps the alignment of every member at 4. The fields
  in the order of the source, with the alignment their 64-bit member gets.
\<close>

definition rd32_fields :: "nat \<Rightarrow> c_type" where
  "rd32_fields a = struct
    [(''vdr_flags'', uint_t), (''vdr_offset'', Scalar 8 a), (''vdr_nbytes'', uint_t),
     (''vdr_bytesread'', uint_t), (''vdr_data'', uint_t), (''vdr_side'', uint_t),
     (''vdr_side_name'', Array VOL_SIDENAME uchar_t)]"

definition vol_directed_rd32 :: "nat \<Rightarrow> nat \<Rightarrow> c_type" where
  "vol_directed_rd32 lla lla32 = rd32_fields (if lla = 8 \<and> lla32 = 4 then min 4 lla else lla)"

definition ata_disk_id :: c_type where
  "ata_disk_id = struct
    [(''dkd_amodel'', Array 40 uchar_t), (''dkd_afwver'', Array 8 uchar_t), (''dkd_aserial'', Array 20 uchar_t)]"

definition scsi_disk_id :: c_type where
  "scsi_disk_id = struct
    [(''dkd_svendor'', Array 8 uchar_t), (''dkd_sproduct'', Array 16 uchar_t),
     (''dkd_sfwver'', Array 4 uchar_t), (''dkd_sserial'', Array 12 uchar_t)]"

definition dk_disk_id :: c_type where
  "dk_disk_id = struct
    [(''dkd_dtype'', uint_t),
     (''disk_id'', Union (CLayout.fields [(''ata_disk_id'', ata_disk_id), (''scsi_disk_id'', scsi_disk_id)]))]"

definition dk_updatefw :: c_type where
  "dk_updatefw = struct [(''dku_ptrbuf'', pointer_t), (''dku_size'', uint_t), (''dku_type'', uchar_t)]"

definition dk_updatefw_32 :: c_type where
  "dk_updatefw_32 = struct [(''dku_ptrbuf'', uint_t), (''dku_size'', uint_t), (''dku_type'', uchar_t)]"

subsection \<open>Multi-host requests\<close>

definition MHIOC :: u32 where "MHIOC = push_bit 8 (of_char (CHR ''M''))"

definition mhioc_all :: "(string \<times> u32) list" where
  "mhioc_all =
    [(''MHIOCENFAILFAST'', MHIOC OR 1), (''MHIOCTKOWN'', MHIOC OR 2), (''MHIOCRELEASE'', MHIOC OR 3),
     (''MHIOCSTATUS'', MHIOC OR 4), (''MHIOCGRP_INKEYS'', MHIOC OR 5), (''MHIOCGRP_INRESV'', MHIOC OR 6),
     (''MHIOCGRP_REGISTER'', MHIOC OR 7), (''MHIOCGRP_RESERVE'', MHIOC OR 8),
     (''MHIOCGRP_PREEMPTANDABORT'', MHIOC OR 9), (''MHIOCGRP_PREEMPT'', MHIOC OR 10),
     (''MHIOCGRP_CLEAR'', MHIOC OR 11), (''MHIOCGRP_REGISTERANDIGNOREKEY'', MHIOC OR 14),
     (''MHIOCQRESERVE'', MHIOC OR 12), (''MHIOCREREGISTERDEVID'', MHIOC OR 13)]"

definition mhioctkown :: c_type where
  "mhioctkown = struct
    [(''reinstate_resv_delay'', uint_t), (''min_ownership_delay'', uint_t), (''max_ownership_delay'', uint_t)]"

definition MHIOC_RESV_KEY_SIZE :: nat where "MHIOC_RESV_KEY_SIZE = 8"

definition mhioc_resv_key :: c_type where
  "mhioc_resv_key = struct [(''key'', Array MHIOC_RESV_KEY_SIZE uchar_t)]"

text \<open>The lists handed to the driver; \<open>p\<close> is the pointer type, of 8 bytes or of 4.\<close>

definition mhioc_key_list :: "c_type \<Rightarrow> c_type" where
  "mhioc_key_list p = struct [(''listsize'', uint_t), (''listlen'', uint_t), (''list'', p)]"

definition mhioc_inkeys :: "c_type \<Rightarrow> c_type" where
  "mhioc_inkeys p = struct [(''generation'', uint_t), (''li'', p)]"

definition mhioc_resv_desc :: c_type where
  "mhioc_resv_desc = struct
    [(''key'', mhioc_resv_key), (''type'', uchar_t), (''scope'', uchar_t), (''scope_specific_addr'', uint_t)]"

definition mhioc_resv_desc_list :: "c_type \<Rightarrow> c_type" where
  "mhioc_resv_desc_list p = struct [(''listsize'', uint_t), (''listlen'', uint_t), (''list'', p)]"

definition mhioc_inresvs :: "c_type \<Rightarrow> c_type" where
  "mhioc_inresvs p = struct [(''generation'', uint_t), (''li'', p)]"

definition mhioc_register :: c_type where
  "mhioc_register = struct [(''oldkey'', mhioc_resv_key), (''newkey'', mhioc_resv_key), (''aptpl'', uint_t)]"

definition mhioc_preemptandabort :: c_type where
  "mhioc_preemptandabort = struct [(''resvdesc'', mhioc_resv_desc), (''victim_key'', mhioc_resv_key)]"

definition mhioc_registerandignorekey :: c_type where
  "mhioc_registerandignorekey = struct [(''newkey'', mhioc_resv_key), (''aptpl'', uint_t)]"

subsection \<open>Properties\<close>

lemmas dkioc_defs = dkioc_generic_def dkioc_cache_def dkioc_format_def dkioc_removable_def
  dkioc_media_def dkioc_volume_def dkioc_device_def dkioc_all_def DKIOC_def

text \<open>
  A request code names one request. No two requests of the two headers have the same code;
  every disk request has the group byte 4 and a number in the range 0 to 50 the header reserves
  for generic requests, every multi-host request has the group byte \<^verbatim>\<open>M\<close>.
\<close>

theorem ioctl_codes_unique:
  "distinct (map snd (dkioc_all @ mhioc_all)) \<and>
   list_all (\<lambda>(n, c). drop_bit 8 c = 4 \<and> c AND 0xff \<le> 50) dkioc_all \<and>
   list_all (\<lambda>(n, c). drop_bit 8 c = of_char (CHR ''M'')) mhioc_all"
  by (simp add: dkioc_defs mhioc_all_def MHIOC_def)

text \<open>
  The 32-bit directed read has, under every combination of alignments the header tells
  apart, the layout a 32-bit program gives it, in which the 64-bit offset is aligned as that
  program aligns it; without the pragma it would not on a 64-bit kernel serving i386 programs.
\<close>

theorem directed_rd32_layout:
  assumes "(lla, lla32) \<in> {(4, 4), (8, 8), (8, 4)}"
  shows "vol_directed_rd32 lla lla32 = rd32_fields lla32 \<and>
    offsetof (rd32_fields 4) ''vdr_offset'' = Some 4 \<and> sizeof (rd32_fields 4) = 284 \<and> packed (rd32_fields 4) \<and>
    offsetof (rd32_fields 8) ''vdr_offset'' = Some 8 \<and> sizeof (rd32_fields 8) = 288"
  using assms
  by (auto simp: vol_directed_rd32_def rd32_fields_def struct_def offsetof_def packed_def align_up_def
      Let_def VOL_SIDENAME_def)

theorem directed_rd32_layout_witness: "sizeof (vol_directed_rd32 8 4) = 284"
  using directed_rd32_layout [of 8 4] by simp

text \<open>
  The marker for an invalid temperature does not survive being stored. A \<^verbatim>\<open>short\<close> never
  compares equal to it, whatever the driver stored.
\<close>

theorem invalid_temperature_unreadable: "\<not> reads_invalid t \<and> \<not> reads_invalid (set_invalid t)"
proof -
  have "sint w < 0xFFFF" for w :: u16
    using sint_lt [of w] by simp
  then show ?thesis by (simp add: reads_invalid_def DKT_INVALID_TEMP_def order_less_le)
qed

text \<open>
  The media types split where the comment says: those of SFF 8090 are below \<^verbatim>\<open>0xffff\<close>
  and the others above, no value is used twice, and the controller types stay below the range
  reserved for customers.
\<close>

lemma media_types_split:
  "list_all (\<lambda>(n, v). 0 < v \<and> v \<le> 0xfffe) optical_media \<and> list_all (\<lambda>(n, v). 0xfffe < v) magnetic_media \<and>
   distinct (map snd (optical_media @ magnetic_media)) \<and> distinct (map snd controller_types) \<and>
   list_all (\<lambda>(n, v). v < DKC_CUSTOMER_BASE) controller_types"
  by (simp add: optical_media_def magnetic_media_def controller_types_def DKC_CUSTOMER_BASE_def)

lemma disk_id_layout:
  "sizeof dk_disk_id = 4 + max (sizeof ata_disk_id) (sizeof scsi_disk_id) \<and>
   offsetof dk_disk_id ''disk_id'' = Some 4 \<and> sizeof ata_disk_id = 40 + 8 + 20 \<and>
   sizeof scsi_disk_id = 8 + 16 + 4 + 12 \<and> packed dk_disk_id"
  by (simp add: dk_disk_id_def ata_disk_id_def scsi_disk_id_def struct_def offsetof_def packed_def
      align_up_def Let_def)

text \<open>
  The arguments that are copied between programs of different pointer sizes keep the fields
  before the first pointer where they were, and a list argument is 16 bytes or 12.
\<close>

lemma mhioc_lists:
  "offsetof (mhioc_key_list pointer_t) ''list'' = Some 8" "offsetof (mhioc_key_list uint_t) ''list'' = Some 8"
  "sizeof (mhioc_key_list pointer_t) = 16" "sizeof (mhioc_key_list uint_t) = 12"
  "mhioc_resv_desc_list p = mhioc_key_list p" "mhioc_inresvs p = mhioc_inkeys p"
  "offsetof (mhioc_inkeys pointer_t) ''li'' = Some 8" "offsetof (mhioc_inkeys uint_t) ''li'' = Some 4"
  "sizeof mhioc_resv_desc = 16" "sizeof mhioc_register = 20"
  by (simp_all add: mhioc_key_list_def mhioc_inkeys_def mhioc_resv_desc_list_def mhioc_inresvs_def
      mhioc_resv_desc_def mhioc_register_def mhioc_resv_key_def MHIOC_RESV_KEY_SIZE_def struct_def
      offsetof_def align_up_def Let_def)

lemmas layout_defs = struct_def packed_def align_up_def Let_def

lemma dk_cinfo_padded: "sizeof dk_cinfo = 64" "\<not> packed dk_cinfo"
  by (simp_all add: dk_cinfo_def DK_DEVLEN_def layout_defs)

lemma dk_geom_size: "sizeof dk_geom = 42" "packed dk_geom"
  by (simp_all add: dk_geom_def layout_defs del: One_nat_def)

lemma dk_minfo_size: "sizeof dk_minfo = 16" "packed dk_minfo"
  by (simp_all add: dk_minfo_def layout_defs)

lemma dk_allmap_sizes: "sizeof (dk_allmap f) = 2 * sizeof (dk_allmap32 f)"
  by (simp add: dk_allmap_def dk_allmap32_def dk_map_def dk_map32_def layout_defs)

lemma part_info_sizes: "sizeof part_info = 16" "sizeof part_info32 = 8"
  by (simp_all add: part_info_def part_info32_def layout_defs)

end
