(* ===== verification/Acl.thy ===== *)
theory Acl
  imports CLayout
begin

text \<open>
  The access-control vocabulary of \<^verbatim>\<open>src/surgeon/compat/sys/acl.h\<close> and
  \<^verbatim>\<open>src/surgeon/compat/sys/acl_impl.h\<close>: entry types, permission bits, inheritance flags and
  the masks the header composes from them, with the operators of the source. The theorems say
  what the composed masks mean in terms of single permissions.
\<close>

subsection \<open>POSIX-draft entries\<close>

definition USER_OBJ :: u32 where "USER_OBJ = 0x01"
definition USER :: u32 where "USER = 0x02"
definition GROUP_OBJ :: u32 where "GROUP_OBJ = 0x04"
definition GROUP :: u32 where "GROUP = 0x08"
definition CLASS_OBJ :: u32 where "CLASS_OBJ = 0x10"
definition OTHER_OBJ :: u32 where "OTHER_OBJ = 0x20"
definition ACL_DEFAULT :: u32 where "ACL_DEFAULT = 0x1000"

definition DEF_USER_OBJ :: u32 where "DEF_USER_OBJ = ACL_DEFAULT OR USER_OBJ"
definition DEF_USER :: u32 where "DEF_USER = ACL_DEFAULT OR USER"
definition DEF_GROUP_OBJ :: u32 where "DEF_GROUP_OBJ = ACL_DEFAULT OR GROUP_OBJ"
definition DEF_GROUP :: u32 where "DEF_GROUP = ACL_DEFAULT OR GROUP"
definition DEF_CLASS_OBJ :: u32 where "DEF_CLASS_OBJ = ACL_DEFAULT OR CLASS_OBJ"
definition DEF_OTHER_OBJ :: u32 where "DEF_OTHER_OBJ = ACL_DEFAULT OR OTHER_OBJ"

definition aclent_t :: c_type where
  "aclent_t = struct [(''a_type'', uint_t), (''a_id'', uint_t), (''a_perm'', ushort_t)]"

definition ace_t :: c_type where
  "ace_t = struct
    [(''a_who'', uint_t), (''a_access_mask'', uint_t), (''a_flags'', ushort_t), (''a_type'', ushort_t)]"

definition ace_object_t :: c_type where
  "ace_object_t = struct
    [(''a_who'', uint_t), (''a_access_mask'', uint_t), (''a_flags'', ushort_t), (''a_type'', ushort_t),
     (''a_obj_type'', Array 16 uchar_t), (''a_inherit_obj_type'', Array 16 uchar_t)]"

datatype acl_type = ACLENT_T | ACE_T

definition acl_info :: c_type where
  "acl_info = struct
    [(''acl_type'', uint_t), (''acl_cnt'', uint_t), (''acl_entry_size'', uint_t), (''acl_flags'', uint_t),
     (''acl_aclp'', pointer_t)]"

definition ACL_IS_TRIVIAL :: u32 where "ACL_IS_TRIVIAL = 0x10000"
definition ACL_IS_DIR :: u32 where "ACL_IS_DIR = 0x20000"

subsection \<open>NFSv4-style entries: permissions\<close>

definition ACE_READ_DATA :: u32 where "ACE_READ_DATA = 0x00000001"
definition ACE_LIST_DIRECTORY :: u32 where "ACE_LIST_DIRECTORY = 0x00000001"
definition ACE_WRITE_DATA :: u32 where "ACE_WRITE_DATA = 0x00000002"
definition ACE_ADD_FILE :: u32 where "ACE_ADD_FILE = 0x00000002"
definition ACE_APPEND_DATA :: u32 where "ACE_APPEND_DATA = 0x00000004"
definition ACE_ADD_SUBDIRECTORY :: u32 where "ACE_ADD_SUBDIRECTORY = 0x00000004"
definition ACE_READ_NAMED_ATTRS :: u32 where "ACE_READ_NAMED_ATTRS = 0x00000008"
definition ACE_WRITE_NAMED_ATTRS :: u32 where "ACE_WRITE_NAMED_ATTRS = 0x00000010"
definition ACE_EXECUTE :: u32 where "ACE_EXECUTE = 0x00000020"
definition ACE_TRAVERSE :: u32 where "ACE_TRAVERSE = 0x00000020"
definition ACE_DELETE_CHILD :: u32 where "ACE_DELETE_CHILD = 0x00000040"
definition ACE_READ_ATTRIBUTES :: u32 where "ACE_READ_ATTRIBUTES = 0x00000080"
definition ACE_WRITE_ATTRIBUTES :: u32 where "ACE_WRITE_ATTRIBUTES = 0x00000100"
definition ACE_DELETE :: u32 where "ACE_DELETE = 0x00010000"
definition ACE_READ_ACL :: u32 where "ACE_READ_ACL = 0x00020000"
definition ACE_WRITE_ACL :: u32 where "ACE_WRITE_ACL = 0x00040000"
definition ACE_WRITE_OWNER :: u32 where "ACE_WRITE_OWNER = 0x00080000"
definition ACE_SYNCHRONIZE :: u32 where "ACE_SYNCHRONIZE = 0x00100000"

text \<open>The masks, as the source composes them.\<close>

definition ACE_ALL_PERMS :: u32 where
  "ACE_ALL_PERMS = ACE_READ_DATA OR ACE_LIST_DIRECTORY OR ACE_WRITE_DATA OR
     ACE_ADD_FILE OR ACE_APPEND_DATA OR ACE_ADD_SUBDIRECTORY OR ACE_READ_NAMED_ATTRS OR
     ACE_WRITE_NAMED_ATTRS OR ACE_EXECUTE OR ACE_DELETE_CHILD OR ACE_READ_ATTRIBUTES OR
     ACE_WRITE_ATTRIBUTES OR ACE_DELETE OR ACE_READ_ACL OR ACE_WRITE_ACL OR
     ACE_WRITE_OWNER OR ACE_SYNCHRONIZE"

definition ACE_ALL_WRITE_PERMS :: u32 where
  "ACE_ALL_WRITE_PERMS = ACE_WRITE_DATA OR ACE_APPEND_DATA OR ACE_WRITE_ATTRIBUTES OR
     ACE_WRITE_NAMED_ATTRS OR ACE_WRITE_ACL OR ACE_WRITE_OWNER OR ACE_DELETE OR ACE_DELETE_CHILD"

definition ACE_READ_PERMS :: u32 where
  "ACE_READ_PERMS = ACE_READ_DATA OR ACE_READ_ACL OR ACE_READ_ATTRIBUTES OR ACE_READ_NAMED_ATTRS"

definition ACE_WRITE_PERMS :: u32 where
  "ACE_WRITE_PERMS = ACE_WRITE_DATA OR ACE_APPEND_DATA OR ACE_WRITE_ATTRIBUTES OR ACE_WRITE_NAMED_ATTRS"

definition ACE_MODIFY_PERMS :: u32 where
  "ACE_MODIFY_PERMS = ACE_READ_DATA OR ACE_LIST_DIRECTORY OR ACE_WRITE_DATA OR
     ACE_ADD_FILE OR ACE_APPEND_DATA OR ACE_ADD_SUBDIRECTORY OR ACE_READ_NAMED_ATTRS OR
     ACE_WRITE_NAMED_ATTRS OR ACE_EXECUTE OR ACE_DELETE_CHILD OR ACE_READ_ATTRIBUTES OR
     ACE_WRITE_ATTRIBUTES OR ACE_DELETE OR ACE_READ_ACL OR ACE_SYNCHRONIZE"

subsection \<open>Flags and entry types\<close>

definition ACE_FILE_INHERIT_ACE :: u16 where "ACE_FILE_INHERIT_ACE = 0x0001"
definition ACE_DIRECTORY_INHERIT_ACE :: u16 where "ACE_DIRECTORY_INHERIT_ACE = 0x0002"
definition ACE_NO_PROPAGATE_INHERIT_ACE :: u16 where "ACE_NO_PROPAGATE_INHERIT_ACE = 0x0004"
definition ACE_INHERIT_ONLY_ACE :: u16 where "ACE_INHERIT_ONLY_ACE = 0x0008"
definition ACE_SUCCESSFUL_ACCESS_ACE_FLAG :: u16 where "ACE_SUCCESSFUL_ACCESS_ACE_FLAG = 0x0010"
definition ACE_FAILED_ACCESS_ACE_FLAG :: u16 where "ACE_FAILED_ACCESS_ACE_FLAG = 0x0020"
definition ACE_IDENTIFIER_GROUP :: u16 where "ACE_IDENTIFIER_GROUP = 0x0040"
definition ACE_INHERITED_ACE :: u16 where "ACE_INHERITED_ACE = 0x0080"
definition ACE_OWNER :: u16 where "ACE_OWNER = 0x1000"
definition ACE_GROUP :: u16 where "ACE_GROUP = 0x2000"
definition ACE_EVERYONE :: u16 where "ACE_EVERYONE = 0x4000"

definition ACE_NFSV4_SUP_FLAGS :: u16 where
  "ACE_NFSV4_SUP_FLAGS = ACE_FILE_INHERIT_ACE OR ACE_DIRECTORY_INHERIT_ACE OR
     ACE_NO_PROPAGATE_INHERIT_ACE OR ACE_INHERIT_ONLY_ACE OR ACE_IDENTIFIER_GROUP"

definition ACE_TYPE_FLAGS :: u16 where
  "ACE_TYPE_FLAGS = ACE_OWNER OR ACE_GROUP OR ACE_EVERYONE OR ACE_IDENTIFIER_GROUP"

definition ACE_INHERIT_FLAGS :: u16 where
  "ACE_INHERIT_FLAGS = ACE_FILE_INHERIT_ACE OR ACE_DIRECTORY_INHERIT_ACE OR
     ACE_NO_PROPAGATE_INHERIT_ACE OR ACE_INHERIT_ONLY_ACE"

definition ACL_AUTO_INHERIT :: u32 where "ACL_AUTO_INHERIT = 0x0001"
definition ACL_PROTECTED :: u32 where "ACL_PROTECTED = 0x0002"
definition ACL_DEFAULTED :: u32 where "ACL_DEFAULTED = 0x0004"
definition ACL_FLAGS_ALL :: u32 where
  "ACL_FLAGS_ALL = ACL_AUTO_INHERIT OR ACL_PROTECTED OR ACL_DEFAULTED"

text \<open>The types of an entry, in both groups of the source, and the mask over them.\<close>

definition ace_types :: "(string \<times> u16) list" where
  "ace_types =
    [(''ACE_ACCESS_ALLOWED_ACE_TYPE'', 0x0000), (''ACE_ACCESS_DENIED_ACE_TYPE'', 0x0001),
     (''ACE_SYSTEM_AUDIT_ACE_TYPE'', 0x0002), (''ACE_SYSTEM_ALARM_ACE_TYPE'', 0x0003)]"

definition ace_cifs_types :: "(string \<times> u16) list" where
  "ace_cifs_types =
    [(''ACE_ACCESS_ALLOWED_COMPOUND_ACE_TYPE'', 0x04), (''ACE_ACCESS_ALLOWED_OBJECT_ACE_TYPE'', 0x05),
     (''ACE_ACCESS_DENIED_OBJECT_ACE_TYPE'', 0x06), (''ACE_SYSTEM_AUDIT_OBJECT_ACE_TYPE'', 0x07),
     (''ACE_SYSTEM_ALARM_OBJECT_ACE_TYPE'', 0x08), (''ACE_ACCESS_ALLOWED_CALLBACK_ACE_TYPE'', 0x09),
     (''ACE_ACCESS_DENIED_CALLBACK_ACE_TYPE'', 0x0A),
     (''ACE_ACCESS_ALLOWED_CALLBACK_OBJECT_ACE_TYPE'', 0x0B),
     (''ACE_ACCESS_DENIED_CALLBACK_OBJECT_ACE_TYPE'', 0x0C),
     (''ACE_SYSTEM_AUDIT_CALLBACK_ACE_TYPE'', 0x0D), (''ACE_SYSTEM_ALARM_CALLBACK_ACE_TYPE'', 0x0E),
     (''ACE_SYSTEM_AUDIT_CALLBACK_OBJECT_ACE_TYPE'', 0x0F),
     (''ACE_SYSTEM_ALARM_CALLBACK_OBJECT_ACE_TYPE'', 0x10)]"

definition ACE_ALL_TYPES :: u16 where "ACE_ALL_TYPES = 0x001F"

subsection \<open>Commands and errors\<close>

definition acl_cmds :: "(string \<times> nat) list" where
  "acl_cmds =
    [(''GETACL'', 1), (''SETACL'', 2), (''GETACLCNT'', 3), (''ACE_GETACL'', 4), (''ACE_SETACL'', 5),
     (''ACE_GETACLCNT'', 6)]"

definition acl_errors :: "(string \<times> nat) list" where
  "acl_errors =
    [(''GRP_ERROR'', 1), (''USER_ERROR'', 2), (''OTHER_ERROR'', 3), (''CLASS_ERROR'', 4),
     (''DUPLICATE_ERROR'', 5), (''MISS_ERROR'', 6), (''MEM_ERROR'', 7), (''ENTRY_ERROR'', 8)]"

definition eacl_errors :: "(string \<times> nat) list" where
  "eacl_errors =
    map (\<lambda>(n, v). (''EACL_'' @ n, v)) acl_errors @
    [(''EACL_INHERIT_ERROR'', 9), (''EACL_FLAGS_ERROR'', 10), (''EACL_PERM_MASK_ERROR'', 11),
     (''EACL_COUNT_ERROR'', 12), (''EACL_INVALID_SLOT'', 13), (''EACL_NO_ACL_ENTRY'', 14),
     (''EACL_DIFF_TYPE'', 15), (''EACL_INVALID_USER_GROUP'', 16), (''EACL_INVALID_STR'', 17),
     (''EACL_FIELD_NOT_BLANK'', 18), (''EACL_INVALID_ACCESS_TYPE'', 19), (''EACL_UNKNOWN_DATA'', 20),
     (''EACL_MISSING_FIELDS'', 21), (''EACL_INHERIT_NOTDIR'', 22)]"

subsection \<open>Properties\<close>

lemmas ace_perm_defs = ACE_READ_DATA_def ACE_LIST_DIRECTORY_def ACE_WRITE_DATA_def ACE_ADD_FILE_def
  ACE_APPEND_DATA_def ACE_ADD_SUBDIRECTORY_def ACE_READ_NAMED_ATTRS_def ACE_WRITE_NAMED_ATTRS_def
  ACE_EXECUTE_def ACE_TRAVERSE_def ACE_DELETE_CHILD_def ACE_READ_ATTRIBUTES_def
  ACE_WRITE_ATTRIBUTES_def ACE_DELETE_def ACE_READ_ACL_def ACE_WRITE_ACL_def ACE_WRITE_OWNER_def
  ACE_SYNCHRONIZE_def

lemmas ace_mask_defs = ACE_ALL_PERMS_def ACE_ALL_WRITE_PERMS_def ACE_READ_PERMS_def ACE_WRITE_PERMS_def
  ACE_MODIFY_PERMS_def

lemmas ace_flag_defs = ACE_FILE_INHERIT_ACE_def ACE_DIRECTORY_INHERIT_ACE_def
  ACE_NO_PROPAGATE_INHERIT_ACE_def ACE_INHERIT_ONLY_ACE_def ACE_SUCCESSFUL_ACCESS_ACE_FLAG_def
  ACE_FAILED_ACCESS_ACE_FLAG_def ACE_IDENTIFIER_GROUP_def ACE_INHERITED_ACE_def ACE_OWNER_def
  ACE_GROUP_def ACE_EVERYONE_def ACE_NFSV4_SUP_FLAGS_def ACE_TYPE_FLAGS_def ACE_INHERIT_FLAGS_def

text \<open>
  The permission masks mean what they are named for, for every request \<open>m\<close> within the
  permissions there are. Modify grants everything except changing the list and the owner. What
  is not a write of any kind is a read permission, execute or synchronize. Read and write
  permissions are disjoint, and the write permissions are within modify.
\<close>

theorem ace_masks:
  "(m AND ACE_ALL_PERMS) AND NOT ACE_MODIFY_PERMS = m AND (ACE_WRITE_ACL OR ACE_WRITE_OWNER) \<and>
   (m AND ACE_ALL_PERMS) AND NOT ACE_ALL_WRITE_PERMS =
     m AND (ACE_READ_PERMS OR ACE_EXECUTE OR ACE_SYNCHRONIZE) \<and>
   ACE_READ_PERMS AND ACE_ALL_WRITE_PERMS = 0 \<and> ACE_WRITE_PERMS AND NOT ACE_MODIFY_PERMS = 0"
proof -
  have all: "ACE_ALL_PERMS = 0x1F01FF" "ACE_MODIFY_PERMS = 0x1301FF" "ACE_ALL_WRITE_PERMS = 0xD0156"
    "ACE_READ_PERMS = 0x20089" "ACE_WRITE_PERMS = 0x116"
    by (simp_all add: ace_mask_defs ace_perm_defs)
  have "ACE_ALL_PERMS AND NOT ACE_MODIFY_PERMS = ACE_WRITE_ACL OR ACE_WRITE_OWNER"
    "ACE_ALL_PERMS AND NOT ACE_ALL_WRITE_PERMS = ACE_READ_PERMS OR ACE_EXECUTE OR ACE_SYNCHRONIZE"
    "ACE_READ_PERMS AND ACE_ALL_WRITE_PERMS = 0" "ACE_WRITE_PERMS AND NOT ACE_MODIFY_PERMS = 0"
    by (simp_all add: all ace_perm_defs)
  then show ?thesis by (simp add: and.assoc)
qed

text \<open>
  A permission and its directory name are the same bit; apart from these pairs the permission
  bits, and the flag bits, are distinct single bits. Who an entry is for and how it is
  inherited are independent flags. The type mask covers every type.
\<close>

lemma ace_bits:
  "ACE_READ_DATA = ACE_LIST_DIRECTORY \<and> ACE_WRITE_DATA = ACE_ADD_FILE \<and>
   ACE_APPEND_DATA = ACE_ADD_SUBDIRECTORY \<and> ACE_EXECUTE = ACE_TRAVERSE"
  by (simp add: ace_perm_defs)

lemma ace_flags_apart:
  "ACE_TYPE_FLAGS AND ACE_INHERIT_FLAGS = 0" "ACE_INHERIT_FLAGS AND NOT ACE_NFSV4_SUP_FLAGS = 0"
  by (simp_all add: ace_flag_defs)

lemma ace_types_masked:
  "list_all (\<lambda>(n, t). t AND NOT ACE_ALL_TYPES = 0) (ace_types @ ace_cifs_types)"
  "distinct (map snd (ace_types @ ace_cifs_types))"
  by (simp_all add: ace_types_def ace_cifs_types_def ACE_ALL_TYPES_def)

text \<open>
  The default flag of a POSIX-draft entry can be taken off again, and the flags kept in
  \<^verbatim>\<open>acl_flags\<close> do not overlap.
\<close>

lemma acl_default_strips:
  "list_all (\<lambda>(d, t). d AND NOT ACL_DEFAULT = t \<and> t AND ACL_DEFAULT = 0)
    [(DEF_USER_OBJ, USER_OBJ), (DEF_USER, USER), (DEF_GROUP_OBJ, GROUP_OBJ), (DEF_GROUP, GROUP),
     (DEF_CLASS_OBJ, CLASS_OBJ), (DEF_OTHER_OBJ, OTHER_OBJ)]"
  by (simp add: DEF_USER_OBJ_def DEF_USER_def DEF_GROUP_OBJ_def DEF_GROUP_def DEF_CLASS_OBJ_def
      DEF_OTHER_OBJ_def ACL_DEFAULT_def USER_OBJ_def USER_def GROUP_OBJ_def GROUP_def CLASS_OBJ_def
      OTHER_OBJ_def)

lemma acl_flags_apart: "ACL_FLAGS_ALL AND (ACL_IS_TRIVIAL OR ACL_IS_DIR) = 0"
  by (simp add: ACL_FLAGS_ALL_def ACL_AUTO_INHERIT_def ACL_PROTECTED_def ACL_DEFAULTED_def
      ACL_IS_TRIVIAL_def ACL_IS_DIR_def)

lemma acl_errors_distinct:
  "distinct (map snd eacl_errors)" "distinct (map snd acl_cmds)"
  "map snd eacl_errors = [1..<23]"
  by (simp_all add: eacl_errors_def acl_errors_def acl_cmds_def upt_rec)

lemma acl_entry_sizes:
  "sizeof aclent_t = 12" "sizeof ace_t = 12" "packed ace_t" "sizeof ace_object_t = 44" "sizeof acl_info = 24"
  by (simp_all add: aclent_t_def ace_t_def ace_object_t_def acl_info_def struct_def packed_def
      align_up_def Let_def del: One_nat_def)

end
