(* ===== verification/Kstat.thy ===== *)
theory Kstat
  imports CLayout
begin

text \<open>
  The kernel-statistics interface of \<^verbatim>\<open>src/surgeon/compat/sys/kstat.h\<close>: its records as layout
  descriptions over the length \<^verbatim>\<open>KSTAT_STRLEN\<close> of a name, the flags, the type code of a
  \<^verbatim>\<open>long\<close>, the lock macros and the request codes as C expands them.
\<close>

subsection \<open>Request codes\<close>

definition KSTAT_IOC_BASE :: u32 where "KSTAT_IOC_BASE = push_bit 8 (of_char (CHR ''K''))"

text \<open>
  The request macros expand to an \<^verbatim>\<open>|\<close> without parentheses around it. As an argument of a
  call the expansion is the code; next to \<^verbatim>\<open>==\<close>, which binds tighter, it is not: a test
  \<^verbatim>\<open>cmd == KSTAT_IOC_READ\<close> is \<^verbatim>\<open>(cmd == KSTAT_IOC_BASE) | 0x02\<close>.
\<close>

datatype kstat_ioc = KSTAT_IOC_CHAIN_ID | KSTAT_IOC_READ | KSTAT_IOC_WRITE

fun ioc_number :: "kstat_ioc \<Rightarrow> u32" where
  "ioc_number KSTAT_IOC_CHAIN_ID = 0x01"
| "ioc_number KSTAT_IOC_READ = 0x02"
| "ioc_number KSTAT_IOC_WRITE = 0x03"

definition ioc_argument :: "kstat_ioc \<Rightarrow> u32" where
  "ioc_argument r = KSTAT_IOC_BASE OR ioc_number r"

definition ioc_compare :: "u32 \<Rightarrow> kstat_ioc \<Rightarrow> u32" where
  "ioc_compare cmd r = (if cmd = KSTAT_IOC_BASE then 1 else 0) OR ioc_number r"

subsection \<open>Records\<close>

definition KSTAT_STRLEN :: nat where "KSTAT_STRLEN = 255"

text \<open>The records, for any length of a name.\<close>

definition kstat_t :: "nat \<Rightarrow> c_type" where
  "kstat_t n = struct
    [(''ks_crtime'', uint64_t), (''ks_next'', pointer_t), (''ks_kid'', uint_t),
     (''ks_module'', Array n uchar_t), (''ks_resv'', uchar_t), (''ks_instance'', uint_t),
     (''ks_name'', Array n uchar_t), (''ks_type'', uchar_t), (''ks_class'', Array n uchar_t),
     (''ks_flags'', uchar_t), (''ks_data'', pointer_t), (''ks_ndata'', uint_t),
     (''ks_data_size'', uint64_t), (''ks_snaptime'', uint64_t), (''ks_update'', pointer_t),
     (''ks_private'', pointer_t), (''ks_snapshot'', pointer_t), (''ks_lock'', pointer_t)]"

text \<open>The value of a named statistic; \<^verbatim>\<open>long\<close> has 8 bytes under \<^verbatim>\<open>_LP64\<close>.\<close>

definition kstat_addr :: c_type where
  "kstat_addr = Union (fields [(''ptr'', pointer_t), (''__pad'', Array 8 uchar_t)])"

definition kstat_str :: c_type where
  "kstat_str = struct [(''addr'', kstat_addr), (''len'', uint_t)]"

definition kstat_value :: c_type where
  "kstat_value = Union (fields
    [(''c'', Array 16 uchar_t), (''i32'', uint_t), (''ui32'', uint_t), (''str'', kstat_str),
     (''i64'', uint64_t), (''ui64'', uint64_t), (''l'', uint64_t), (''ul'', uint64_t),
     (''ll'', uint64_t), (''ull'', uint64_t), (''f'', uint_t), (''d'', uint64_t)])"

definition kstat_named_t :: "nat \<Rightarrow> c_type" where
  "kstat_named_t n = struct
    [(''name'', Array n uchar_t), (''data_type'', uchar_t), (''value'', kstat_value)]"

definition KSTAT_NUM_INTRS :: nat where "KSTAT_NUM_INTRS = 5"

definition kstat_intr_t :: c_type where
  "kstat_intr_t = struct [(''intrs'', Array KSTAT_NUM_INTRS uint_t)]"

datatype kstat_intr =
    KSTAT_INTR_HARD | KSTAT_INTR_SOFT | KSTAT_INTR_WATCHDOG | KSTAT_INTR_SPURIOUS | KSTAT_INTR_MULTSVC

fun intr_index :: "kstat_intr \<Rightarrow> nat" where
  "intr_index KSTAT_INTR_HARD = 0"
| "intr_index KSTAT_INTR_SOFT = 1"
| "intr_index KSTAT_INTR_WATCHDOG = 2"
| "intr_index KSTAT_INTR_SPURIOUS = 3"
| "intr_index KSTAT_INTR_MULTSVC = 4"

definition kstat_io_t :: c_type where
  "kstat_io_t = struct
    [(''nread'', uint64_t), (''nwritten'', uint64_t), (''reads'', uint_t), (''writes'', uint_t),
     (''wtime'', uint64_t), (''wlentime'', uint64_t), (''wlastupdate'', uint64_t), (''rtime'', uint64_t),
     (''rlentime'', uint64_t), (''rlastupdate'', uint64_t), (''wcnt'', uint_t), (''rcnt'', uint_t)]"

definition kstat_timer_t :: "nat \<Rightarrow> c_type" where
  "kstat_timer_t n = struct
    [(''name'', Array n uchar_t), (''resv'', uchar_t), (''num_events'', uint64_t),
     (''elapsed_time'', uint64_t), (''min_time'', uint64_t), (''max_time'', uint64_t),
     (''start_time'', uint64_t), (''stop_time'', uint64_t)]"

subsection \<open>Type codes and flags\<close>

definition KSTAT_DATA_INT32 :: nat where "KSTAT_DATA_INT32 = 1"
definition KSTAT_DATA_UINT32 :: nat where "KSTAT_DATA_UINT32 = 2"
definition KSTAT_DATA_INT64 :: nat where "KSTAT_DATA_INT64 = 3"
definition KSTAT_DATA_UINT64 :: nat where "KSTAT_DATA_UINT64 = 4"

text \<open>
  \<^verbatim>\<open>KSTAT_DATA_LONG\<close> and \<^verbatim>\<open>KSTAT_DATA_ULONG\<close> under \<^verbatim>\<open>_LP64\<close> and
  \<^verbatim>\<open>_KERNEL\<close>.
\<close>

definition KSTAT_DATA_LONG :: "bool \<Rightarrow> bool \<Rightarrow> nat" where
  "KSTAT_DATA_LONG lp64 krnl =
    (if \<not> lp64 then KSTAT_DATA_INT32 else if \<not> krnl then KSTAT_DATA_INT64 else 7)"

definition KSTAT_DATA_ULONG :: "bool \<Rightarrow> bool \<Rightarrow> nat" where
  "KSTAT_DATA_ULONG lp64 krnl =
    (if \<not> lp64 then KSTAT_DATA_UINT32 else if \<not> krnl then KSTAT_DATA_UINT64 else 8)"

definition kstat_flags :: "(string \<times> u8) list" where
  "kstat_flags =
    [(''KSTAT_FLAG_VIRTUAL'', 0x01), (''KSTAT_FLAG_VAR_SIZE'', 0x02), (''KSTAT_FLAG_WRITABLE'', 0x04),
     (''KSTAT_FLAG_PERSISTENT'', 0x08), (''KSTAT_FLAG_DORMANT'', 0x10), (''KSTAT_FLAG_INVALID'', 0x20),
     (''KSTAT_FLAG_LONGSTRINGS'', 0x40), (''KSTAT_FLAG_NO_HEADERS'', 0x80)]"

subsection \<open>Locking\<close>

text \<open>
  The lock macros: a statistic without a lock is not locked. \<open>enter\<close> and \<open>exit\<close> are the
  kernel's mutex operations on a world \<open>'w\<close>.
\<close>

definition KSTAT_ENTER :: "('l \<Rightarrow> 'w \<Rightarrow> 'w) \<Rightarrow> 'l option \<Rightarrow> 'w \<Rightarrow> 'w" where
  "KSTAT_ENTER enter ks_lock w = (case ks_lock of None \<Rightarrow> w | Some lp \<Rightarrow> enter lp w)"

definition KSTAT_EXIT :: "('l \<Rightarrow> 'w \<Rightarrow> 'w) \<Rightarrow> 'l option \<Rightarrow> 'w \<Rightarrow> 'w" where
  "KSTAT_EXIT exit ks_lock w = (case ks_lock of None \<Rightarrow> w | Some lp \<Rightarrow> exit lp w)"

subsection \<open>Properties\<close>

lemma value_size: "sizeof kstat_value = 16" "alignof kstat_value = 8"
  by (simp_all add: kstat_value_def kstat_str_def kstat_addr_def struct_def align_up_def)

lemma align_up_mult: "a dvd n \<Longrightarrow> 0 < a \<Longrightarrow> align_up n a = n"
proof -
  assume "a dvd n" "0 < a"
  then obtain k where k: "n = a * k" by blast
  have "(n + a - 1) div a = k"
    by (rule div_nat_eqI) (use k \<open>0 < a\<close> in auto)
  then show ?thesis by (simp add: align_up_def k mult.commute)
qed

lemma align_up_1 [simp]: "align_up n (Suc 0) = n"
  by (simp add: align_up_def)

text \<open>
  The length of a name is right as the comment on it says. For every length of the form
  \<open>16 * n - 1\<close>, the 255 of the source among them, a named statistic and a timer have no
  padding, every value starts on a boundary of 16 and is 16 bytes, so that an array of them is
  an array of 16-byte units.
\<close>

theorem kstat_strlen_packs:
  assumes "len = 16 * n - 1" and "0 < n"
  shows "packed (kstat_named_t len) \<and> offsetof (kstat_named_t len) ''value'' = Some (16 * n) \<and>
    sizeof (kstat_named_t len) = 16 * (n + 1) \<and> packed (kstat_timer_t len) \<and>
    16 dvd sizeof (kstat_timer_t len) \<and> (\<exists>k. KSTAT_STRLEN = 16 * k - 1 \<and> 0 < k)"
proof -
  have len: "len + 1 = 16 * n" using assms by simp
  have dvd: "8 dvd len + 1" unfolding len by simp
  have up: "align_up (Suc len) 8 = 16 * n" "align_up (16 * n + 8 * k) 8 = 16 * n + 8 * k"
    "align_up (8 * k + 16 * n) 8 = 8 * k + 16 * n" for k
    using align_up_mult [OF dvd] len align_up_mult [of 8 "16 * n + 8 * k"]
    by (simp_all add: add.commute)
  have named: "packed (kstat_named_t len)" "offsetof (kstat_named_t len) ''value'' = Some (16 * n)"
    "sizeof (kstat_named_t len) = 16 * (n + 1)"
    using up(1) up(2) [of 2] len value_size
    by (simp_all add: kstat_named_t_def struct_def packed_def offsetof_def Let_def)
  have timer: "sizeof (kstat_timer_t len) = 16 * n + 48" "packed (kstat_timer_t len)"
    using up(1) up(2,3) [of 1] up(2,3) [of 2] up(2,3) [of 3] up(2,3) [of 4] up(2,3) [of 5]
      up(2,3) [of 6] len
    by (simp_all add: kstat_timer_t_def struct_def packed_def Let_def)
  have "16 dvd 16 * n + (48 :: nat)" by (intro dvd_add) simp_all
  then have "16 dvd sizeof (kstat_timer_t len)" by (simp add: timer(1))
  moreover have "\<exists>k. KSTAT_STRLEN = 16 * k - 1 \<and> 0 < k"
    by (rule exI [of _ 16]) (simp add: KSTAT_STRLEN_def)
  ultimately show ?thesis using named timer by blast
qed

theorem kstat_strlen_packs_witness:
  "packed (kstat_named_t KSTAT_STRLEN) \<and> sizeof (kstat_named_t KSTAT_STRLEN) = 272"
  using kstat_strlen_packs [of KSTAT_STRLEN 16] by (simp add: KSTAT_STRLEN_def)

text \<open>
  Comparing a request with one of the request macros is always true, whatever the request,
  since the macros have no parentheses; passed to \<^verbatim>\<open>ioctl\<close> they are three different
  codes.
\<close>

theorem kstat_ioc_compare_true:
  "ioc_compare cmd r \<noteq> 0 \<and> (ioc_argument r = ioc_argument s \<longleftrightarrow> r = s)"
  by (cases r; cases s) (simp_all add: ioc_compare_def ioc_argument_def KSTAT_IOC_BASE_def)

lemma kstat_long_width:
  "KSTAT_DATA_LONG lp64 False = (if lp64 then KSTAT_DATA_INT64 else KSTAT_DATA_INT32)"
  "KSTAT_DATA_LONG lp64 k \<noteq> KSTAT_DATA_ULONG lp64 k"
  by (simp_all add: KSTAT_DATA_LONG_def KSTAT_DATA_ULONG_def KSTAT_DATA_INT32_def KSTAT_DATA_INT64_def
      KSTAT_DATA_UINT32_def KSTAT_DATA_UINT64_def)

text \<open>The flags are the eight bits of \<^verbatim>\<open>ks_flags\<close>, each used once.\<close>

lemma kstat_flag_bits: "map snd kstat_flags = map (\<lambda>i. push_bit i 1) [0..<8]"
  by (simp add: kstat_flags_def upt_rec)

lemma intr_in_range: "intr_index i < KSTAT_NUM_INTRS" "inj intr_index"
proof -
  show "intr_index i < KSTAT_NUM_INTRS" by (cases i) (simp_all add: KSTAT_NUM_INTRS_def)
  show "inj intr_index"
  proof (rule injI)
    fix x y assume "intr_index x = intr_index y"
    then show "x = y" by (cases x; cases y) simp_all
  qed
qed

lemma kstat_lock_balanced:
  assumes "\<And>l w. exit l (enter l w) = w"
  shows "KSTAT_EXIT exit l (KSTAT_ENTER enter l w) = w"
  using assms by (simp add: KSTAT_ENTER_def KSTAT_EXIT_def split: option.splits)

end
