(* ===== verification/Posix.thy ===== *)
theory Posix
  imports CLayout Assert
begin

text \<open>
  The small functions of the compatibility layer that wrap calls of the C library and the
  system: \<^verbatim>\<open>sys/stack.h\<close>, \<^verbatim>\<open>os/linux/sys/stat.h\<close>, \<^verbatim>\<open>os/freebsd/sys/stat.h\<close>,
  \<^verbatim>\<open>rpc/xdr.h\<close>, \<^verbatim>\<open>sys/wmsum.h\<close>, \<^verbatim>\<open>sys/types32.h\<close>, both \<^verbatim>\<open>sys/mnttab.h\<close> and
  \<^verbatim>\<open>sys/kmem.h\<close>, all under \<^verbatim>\<open>src/surgeon/compat\<close>. The calls they make are arguments.
\<close>

subsection \<open>The bounds of a thread's stack\<close>

record stack =
  ss_sp :: u64
  ss_size :: u64
  ss_flags :: c_int

text \<open>
  The thread library: what asking for a thread's attributes returns, what reading the stack
  out of them returns and writes, and how many attribute objects are alive.
\<close>

record pthread =
  getattr_np_rc :: c_int
  attr_getstack :: "u64 \<times> u64 \<Rightarrow> c_int \<times> u64 \<times> u64"
  live_attrs :: nat

definition stack_getbounds :: "pthread \<Rightarrow> stack \<Rightarrow> c_int \<times> stack \<times> pthread" where
  "stack_getbounds P sp =
    (if getattr_np_rc P \<noteq> 0 then (getattr_np_rc P, sp, P)
     else
       (let P = P\<lparr>live_attrs := live_attrs P + 1\<rparr>;
            (rc, base, sz) = attr_getstack P (ss_sp sp, ss_size sp);
            sp = sp\<lparr>ss_sp := base, ss_size := sz\<rparr>;
            sp = (if rc = 0 then sp\<lparr>ss_flags := 0\<rparr> else sp);
            P = P\<lparr>live_attrs := live_attrs P - 1\<rparr>
        in (rc, sp, P)))"

definition thr_stksegment :: "pthread \<Rightarrow> stack \<Rightarrow> c_int \<times> stack \<times> pthread" where
  "thr_stksegment P sp =
    (let (rc, sp, P) = stack_getbounds P sp in
     if rc \<noteq> 0 then (rc, sp, P)
     else (rc, sp\<lparr>ss_sp := ss_sp sp + ss_size sp, ss_flags := 0\<rparr>, P))"

subsection \<open>The size of a device\<close>

record stat64 =
  st_mode :: u32
  st_size :: u64

definition S_IFMT :: u32 where "S_IFMT = 0xF000"
definition S_ISBLK :: "u32 \<Rightarrow> bool" where "S_ISBLK m \<longleftrightarrow> m AND S_IFMT = 0x6000"
definition S_ISCHR :: "u32 \<Rightarrow> bool" where "S_ISCHR m \<longleftrightarrow> m AND S_IFMT = 0x2000"

text \<open>
  \<open>fstat\<close> returns its code and the structure it filled in; \<open>size_ioctl\<close>, given the size in
  the structure, its code and the size left there.
\<close>

definition fstat64_blk :: "c_int \<times> stat64 \<Rightarrow> (u64 \<Rightarrow> c_int \<times> u64) \<Rightarrow> c_int \<times> stat64" where
  "fstat64_blk fstat size_ioctl =
    (let (rc, st) = fstat in
     if rc = - 1 then (- 1, st)
     else if S_ISBLK (st_mode st)
          then (let (rc, n) = size_ioctl (st_size st); st = st\<lparr>st_size := n\<rparr> in
                if rc \<noteq> 0 then (- 1, st) else (0, st))
     else (0, st))"

definition fstat64_FreeBSD :: "c_int \<times> stat64 \<Rightarrow> (u64 \<Rightarrow> c_int \<times> u64) \<Rightarrow> c_int \<times> stat64" where
  "fstat64_FreeBSD fstat size_ioctl =
    (let (ret, sb) = fstat in
     if ret = 0 \<and> S_ISCHR (st_mode sb) then (ret, sb\<lparr>st_size := snd (size_ioctl (st_size sb))\<rparr>)
     else (ret, sb))"

definition fstat64_blk_FreeBSD :: "c_int \<times> stat64 \<Rightarrow> (u64 \<Rightarrow> c_int \<times> u64) \<Rightarrow> c_int \<times> stat64" where
  "fstat64_blk_FreeBSD fstat size_ioctl =
    (let (rc, st) = fstat64_FreeBSD fstat size_ioctl in
     if rc = - 1 then (- 1, st)
     else if S_ISBLK (st_mode st)
          then (let (rc, n) = size_ioctl (st_size st); st = st\<lparr>st_size := n\<rparr> in
                if rc \<noteq> 0 then (- 1, st) else (0, st))
     else (0, st))"

subsection \<open>XDR control\<close>

definition XDR_GET_BYTES_AVAIL :: c_int where "XDR_GET_BYTES_AVAIL = 1"

record xdr_bytesrec =
  xc_is_last_record :: bool
  xc_num_avail :: u64

text \<open>\<open>None\<close> is the process stopped by the assertion.\<close>

definition xdr_control :: "bool \<Rightarrow> bool \<Rightarrow> u64 \<Rightarrow> c_int \<Rightarrow> (bool \<times> xdr_bytesrec) option" where
  "xdr_control ndebug assert_ok x_handy request =
    (if continues assert_ok
          (ASSERT3U ndebug (scast request) C_EQ (scast XDR_GET_BYTES_AVAIL) ''request'' ''XDR_GET_BYTES_AVAIL'')
     then Some (True, \<lparr>xc_is_last_record = True, xc_num_avail = x_handy\<rparr>)
     else None)"

subsection \<open>Sums\<close>

text \<open>\<^verbatim>\<open>wmsum_t\<close> is an \<^verbatim>\<open>aggsum_t\<close>; each operation is the one of that name.\<close>

record 's aggsum =
  aggsum_init :: "u64 \<Rightarrow> 's"
  aggsum_fini :: "'s \<Rightarrow> 's"
  aggsum_value :: "'s \<Rightarrow> u64"
  aggsum_add :: "'s \<Rightarrow> u64 \<Rightarrow> 's"

definition wmsum_init :: "'s aggsum \<Rightarrow> u64 \<Rightarrow> 's" where "wmsum_init A v = aggsum_init A v"
definition wmsum_fini :: "'s aggsum \<Rightarrow> 's \<Rightarrow> 's" where "wmsum_fini A ws = aggsum_fini A ws"
definition wmsum_value :: "'s aggsum \<Rightarrow> 's \<Rightarrow> u64" where "wmsum_value A ws = aggsum_value A ws"
definition wmsum_add :: "'s aggsum \<Rightarrow> 's \<Rightarrow> u64 \<Rightarrow> 's" where "wmsum_add A ws delta = aggsum_add A ws delta"

subsection \<open>Times at 32 bits\<close>

text \<open>\<^verbatim>\<open>sys/types32.h\<close>; \<^verbatim>\<open>time32_t\<close> is \<^verbatim>\<open>int32_t\<close>.\<close>

definition time32_t :: c_type where "time32_t = Scalar 4 4"

definition timeval32 :: c_type where
  "timeval32 = struct [(''tv_sec'', time32_t), (''tv_usec'', Scalar 4 4)]"

definition timespec32 :: c_type where
  "timespec32 = struct [(''tv_sec'', time32_t), (''tv_nsec'', Scalar 4 4)]"

definition itimerspec32 :: c_type where
  "itimerspec32 = struct [(''it_interval'', timespec32), (''it_value'', timespec32)]"

subsection \<open>The mount table\<close>

definition mnttab :: c_type where
  "mnttab = struct
    [(''mnt_special'', pointer_t), (''mnt_mountp'', pointer_t), (''mnt_fstype'', pointer_t),
     (''mnt_mntopts'', pointer_t)]"

definition extmnttab :: c_type where
  "extmnttab = struct
    [(''mnt_special'', pointer_t), (''mnt_mountp'', pointer_t), (''mnt_fstype'', pointer_t),
     (''mnt_mntopts'', pointer_t), (''mnt_major'', uint_t), (''mnt_minor'', uint_t)]"

text \<open>The same structures in the header for FreeBSD.\<close>

definition mnttab_FreeBSD :: c_type where
  "mnttab_FreeBSD = struct
    [(''mnt_special'', pointer_t), (''mnt_mountp'', pointer_t), (''mnt_fstype'', pointer_t),
     (''mnt_mntopts'', pointer_t)]"

definition extmnttab_FreeBSD :: c_type where
  "extmnttab_FreeBSD = struct
    [(''mnt_special'', pointer_t), (''mnt_mountp'', pointer_t), (''mnt_fstype'', pointer_t),
     (''mnt_mntopts'', pointer_t), (''mnt_major'', uint_t), (''mnt_minor'', uint_t)]"

text \<open>
  The option string is read through the pointer at the offset \<^verbatim>\<open>mnt_mntopts\<close> has in
  \<^verbatim>\<open>struct mnttab\<close>, whatever the object behind the pointer is; \<open>hasmntopt\<close> is the C
  library's, on a list of options.
\<close>

definition sol_hasmntopt :: "(u64 \<Rightarrow> string \<Rightarrow> u64) \<Rightarrow> (nat \<Rightarrow> u64) \<Rightarrow> string \<Rightarrow> u64 option" where
  "sol_hasmntopt hasmntopt obj opt =
    map_option (\<lambda>off. hasmntopt (obj off) opt) (offsetof mnttab ''mnt_mntopts'')"

subsection \<open>Kernel memory\<close>

definition KM_SLEEP :: c_int where "KM_SLEEP = 0"
definition KM_NOSLEEP :: c_int where "KM_NOSLEEP = 1"

definition kmem_alloc :: "(u64 \<Rightarrow> 'h \<Rightarrow> u64 \<times> 'h) \<Rightarrow> u64 \<Rightarrow> c_int \<Rightarrow> 'h \<Rightarrow> u64 \<times> 'h" where
  "kmem_alloc malloc sz flags h = malloc sz h"

definition kmem_free :: "(u64 \<Rightarrow> 'h \<Rightarrow> 'h) \<Rightarrow> u64 \<Rightarrow> u64 \<Rightarrow> 'h \<Rightarrow> 'h" where
  "kmem_free free p sz h = free p h"

subsection \<open>Properties\<close>

text \<open>
  The stack segment of a thread. When it is found, the address returned is the high end: it
  is the low end plus the size, modulo the address space; when it is not, the error of the
  failing call is returned. No attribute object is leaked either way.
\<close>

theorem thr_stksegment_high_end:
  "case thr_stksegment P sp of (rc, sp', P') \<Rightarrow>
     live_attrs P' = live_attrs P \<and>
     rc = (if getattr_np_rc P \<noteq> 0 then getattr_np_rc P
           else fst (attr_getstack (P\<lparr>live_attrs := live_attrs P + 1\<rparr>) (ss_sp sp, ss_size sp))) \<and>
     (if rc = 0
      then (case stack_getbounds P sp of (_, low, _) \<Rightarrow>
              ss_sp sp' - ss_size sp' = ss_sp low \<and> ss_size sp' = ss_size low \<and> ss_flags sp' = 0)
      else sp' = fst (snd (stack_getbounds P sp)))"
  by (auto simp: thr_stksegment_def stack_getbounds_def Let_def split: prod.splits if_splits)

text \<open>
  A block device is never reported with a wrong size. On Linux the call succeeds only with
  the size the device gave, and fails when the device gave none; on any file the two systems'
  functions agree unless the file is a character device, whose size FreeBSD reads as well
  without looking whether that worked.
\<close>

theorem fstat64_blk_size:
  "(case fstat64_blk (rc, st) io of (r, st') \<Rightarrow>
      r \<in> {0, - 1} \<and>
      (r = 0 \<longleftrightarrow> rc \<noteq> - 1 \<and> (if S_ISBLK (st_mode st) then fst (io (st_size st)) = 0 else True)) \<and>
      (if r = 0
       then st_size st' = (if S_ISBLK (st_mode st) then snd (io (st_size st)) else st_size st)
       else True)) \<and>
   (if S_ISCHR (st_mode st) \<and> rc = 0
    then fstat64_blk_FreeBSD (rc, st) io = (0, st\<lparr>st_size := snd (io (st_size st))\<rparr>)
    else fstat64_blk_FreeBSD (rc, st) io = fstat64_blk (rc, st) io)"
proof -
  have "S_ISCHR m \<Longrightarrow> \<not> S_ISBLK m" for m
    by (simp add: S_ISCHR_def S_ISBLK_def)
  then show ?thesis
    by (auto simp: fstat64_blk_def fstat64_blk_FreeBSD_def fstat64_FreeBSD_def Let_def split: prod.splits)
qed

text \<open>
  A sum is the sum. If the underlying sums start at their initial value and add what they
  are told, then after any additions the value of a \<^verbatim>\<open>wmsum\<close> is the initial value plus
  all of them modulo \<open>2 ^ 64\<close>.
\<close>

theorem wmsum_is_sum:
  assumes "\<And>v. aggsum_value A (aggsum_init A v) = v"
    and "\<And>s d. aggsum_value A (aggsum_add A s d) = aggsum_value A s + d"
  shows "wmsum_value A (foldl (wmsum_add A) (wmsum_init A v) ds) = v + sum_list ds"
proof -
  have "wmsum_value A (foldl (wmsum_add A) s ds) = wmsum_value A s + sum_list ds" for s
    by (induction ds arbitrary: s) (simp_all add: wmsum_value_def wmsum_add_def assms(2))
  then show ?thesis by (simp add: wmsum_value_def wmsum_init_def assms(1))
qed

definition plain_sums :: "u64 aggsum" where
  "plain_sums = \<lparr>aggsum_init = id, aggsum_fini = id, aggsum_value = id, aggsum_add = (+)\<rparr>"

theorem wmsum_is_sum_witness:
  "wmsum_value plain_sums (foldl (wmsum_add plain_sums) (wmsum_init plain_sums 10) [5, - 20]) = - 5"
proof -
  have "aggsum_value plain_sums (aggsum_init plain_sums v) = v"
    "aggsum_value plain_sums (aggsum_add plain_sums s d) = aggsum_value plain_sums s + d" for v s d
    by (simp_all add: plain_sums_def)
  from wmsum_is_sum [of plain_sums 10 "[5, - 20]", OF this] show ?thesis by simp
qed

text \<open>
  On FreeBSD too a pointer to the extended structure serves as one to the plain structure, and
  both systems lay out the mount table alike.
\<close>

lemma extmnttab_FreeBSD_extends:
  "list_all (\<lambda>(f, off, s). offsetof extmnttab_FreeBSD f = Some off) (layout (struct_fields mnttab_FreeBSD) 0)"
  "layout (struct_fields mnttab_FreeBSD) 0 = layout (struct_fields mnttab) 0"
  by (simp_all add: mnttab_def mnttab_FreeBSD_def extmnttab_FreeBSD_def struct_def offsetof_def align_up_def Let_def)

text \<open>The times that cross between programs of both widths have no padding and no field wider than 32 bits.\<close>

lemma times32_packed:
  "sizeof timeval32 = 8" "sizeof timespec32 = 8" "sizeof itimerspec32 = 2 * sizeof timespec32"
  "alignof itimerspec32 = 4" "offsetof itimerspec32 ''it_value'' = Some 8"
  by (simp_all add: timeval32_def timespec32_def itimerspec32_def time32_t_def struct_def offsetof_def align_up_def Let_def)

text \<open>
  An extended mount-table entry can be used as a plain one. Every field of the plain
  structure is at the same offset in the extended one, so the options of an extended entry are
  found through the plain structure.
\<close>

theorem extmnttab_extends:
  "list_all (\<lambda>(f, off, s). offsetof extmnttab f = Some off) (layout (struct_fields mnttab) 0) \<and>
   sol_hasmntopt h obj opt = map_option (\<lambda>off. h (obj off) opt) (offsetof extmnttab ''mnt_mntopts'')"
  by (simp add: mnttab_def extmnttab_def sol_hasmntopt_def struct_def offsetof_def align_up_def Let_def)

text \<open>
  A wrong request to \<^verbatim>\<open>xdr_control\<close> is stopped in a build with assertions, and
  answered as if it had been the right one in a build without.
\<close>

theorem xdr_control_requests:
  "xdr_control ndebug False x request =
     (if ndebug \<or> request = XDR_GET_BYTES_AVAIL
      then Some (True, \<lparr>xc_is_last_record = True, xc_num_avail = x\<rparr>) else None)"
proof -
  have low: "ucast (scast r :: u64) = r" for r :: c_int
    by (rule bit_word_eqI) (auto simp: bit_simps)
  have "uint (scast request :: u64) = uint (scast (1 :: c_int) :: u64) \<longleftrightarrow> request = 1"
    using low [of request] low [of 1] by (metis word_uint_eq_iff)
  then show ?thesis
    by (simp add: xdr_control_def ASSERT3U_def VERIFY3U_def continues_def XDR_GET_BYTES_AVAIL_def)
qed

end
