(* ===== verification/AsmLinkage.thy ===== *)
theory AsmLinkage
  imports Prelude
begin

text \<open>
  The assembler linkage macros of \<^verbatim>\<open>src/surgeon/compat/os/linux/sys/ia32/asm_linkage.h\<close> and of the
  FreeBSD header of that name. A macro is the list of assembler directives it expands to, and an
  assembler for these directives builds the symbol table; \<^verbatim>\<open>MCOUNT\<close>, which is defined elsewhere, is
  a parameter. The lemmas say what symbol a function written with the macros gets, and that the
  two headers place the same code at the same addresses and differ in the types and sizes of
  symbols only.
\<close>

subsection \<open>An assembler\<close>

datatype section_name = Sec_text | Sec_rodata

datatype sym_type = T_function | T_object

text \<open>Directives, and instructions by the number of bytes they take. \<open>Size_here x\<close> is \<^verbatim>\<open>.size x, [.-x]\<close>.\<close>

datatype directive =
    Section section_name
  | Balign nat
  | Globl "string list"
  | Type_is string sym_type
  | Label string
  | Size_here string
  | Insns nat

record asm =
  as_section :: section_name
  as_loc :: "section_name \<Rightarrow> nat"
  as_labels :: "string \<rightharpoonup> section_name \<times> nat"
  as_globals :: "string set"
  as_types :: "string \<rightharpoonup> sym_type"
  as_sizes :: "string \<rightharpoonup> nat"

text \<open>The next multiple of an alignment that is not zero.\<close>

definition pad_to :: "nat \<Rightarrow> nat \<Rightarrow> nat" where
  "pad_to a n = (if a = 0 then n else (n + a - 1) div a * a)"

definition here :: "asm \<Rightarrow> nat" where "here st = as_loc st (as_section st)"

definition move_to :: "nat \<Rightarrow> asm \<Rightarrow> asm" where
  "move_to n st = st\<lparr>as_loc := (as_loc st)(as_section st := n)\<rparr>"

text \<open>\<open>None\<close> is an error: a label defined twice, or a size without a label in the section.\<close>

fun assemble :: "directive \<Rightarrow> asm \<Rightarrow> asm option" where
  "assemble (Section s) st = Some (st\<lparr>as_section := s\<rparr>)"
| "assemble (Balign a) st = Some (move_to (pad_to a (here st)) st)"
| "assemble (Globl xs) st = Some (st\<lparr>as_globals := as_globals st \<union> set xs\<rparr>)"
| "assemble (Type_is x t) st = Some (st\<lparr>as_types := (as_types st)(x \<mapsto> t)\<rparr>)"
| "assemble (Label x) st =
    (if as_labels st x = None then Some (st\<lparr>as_labels := (as_labels st)(x \<mapsto> (as_section st, here st))\<rparr>) else None)"
| "assemble (Size_here x) st =
    (case as_labels st x of
       None \<Rightarrow> None
     | Some (s, a) \<Rightarrow> if s = as_section st then Some (st\<lparr>as_sizes := (as_sizes st)(x \<mapsto> here st - a)\<rparr>) else None)"
| "assemble (Insns n) st = Some (move_to (here st + n) st)"

primrec assemble_all :: "directive list \<Rightarrow> asm \<Rightarrow> asm option" where
  "assemble_all [] st = Some st"
| "assemble_all (d # ds) st = Option.bind (assemble d st) (assemble_all ds)"

subsection \<open>Linux\<close>

definition SECTION_TEXT :: "directive list" where "SECTION_TEXT = [Section Sec_text]"

definition SECTION_STATIC :: "directive list" where "SECTION_STATIC = [Section Sec_rodata]"

definition ASM_ENTRY_ALIGN :: nat where "ASM_ENTRY_ALIGN = 16"

definition ENTRY :: "(string \<Rightarrow> directive list) \<Rightarrow> string \<Rightarrow> directive list" where
  "ENTRY MCOUNT x =
    [Section Sec_text, Balign ASM_ENTRY_ALIGN, Globl [x], Type_is x T_function, Label x] @ MCOUNT x"

definition ENTRY_NP :: "string \<Rightarrow> directive list" where
  "ENTRY_NP x = [Section Sec_text, Balign ASM_ENTRY_ALIGN, Globl [x], Type_is x T_function, Label x]"

definition ENTRY_ALIGN :: "string \<Rightarrow> nat \<Rightarrow> directive list" where
  "ENTRY_ALIGN x a = [Section Sec_text, Balign a, Globl [x], Type_is x T_function, Label x]"

definition FUNCTION :: "string \<Rightarrow> directive list" where
  "FUNCTION x = [Type_is x T_function, Label x]"

definition ENTRY2 :: "(string \<Rightarrow> directive list) \<Rightarrow> string \<Rightarrow> string \<Rightarrow> directive list" where
  "ENTRY2 MCOUNT x y =
    [Section Sec_text, Balign ASM_ENTRY_ALIGN, Globl [x, y], Type_is x T_function, Type_is y T_function,
     Label x, Label y] @ MCOUNT x"

definition ENTRY_NP2 :: "string \<Rightarrow> string \<Rightarrow> directive list" where
  "ENTRY_NP2 x y =
    [Section Sec_text, Balign ASM_ENTRY_ALIGN, Globl [x, y], Type_is x T_function, Type_is y T_function,
     Label x, Label y]"

definition SET_SIZE :: "string \<Rightarrow> directive list" where "SET_SIZE x = [Size_here x]"

definition SET_OBJ :: "string \<Rightarrow> directive list" where "SET_OBJ x = [Type_is x T_object]"

subsection \<open>FreeBSD\<close>

definition ENTRY_FreeBSD :: "(string \<Rightarrow> directive list) \<Rightarrow> string \<Rightarrow> directive list" where
  "ENTRY_FreeBSD MCOUNT x = [Section Sec_text, Balign ASM_ENTRY_ALIGN, Globl [x], Label x] @ MCOUNT x"

definition ENTRY_NP_FreeBSD :: "string \<Rightarrow> directive list" where
  "ENTRY_NP_FreeBSD x = [Section Sec_text, Balign ASM_ENTRY_ALIGN, Globl [x], Label x]"

definition ENTRY_ALIGN_FreeBSD :: "string \<Rightarrow> nat \<Rightarrow> directive list" where
  "ENTRY_ALIGN_FreeBSD x a = [Section Sec_text, Balign a, Globl [x], Label x]"

definition FUNCTION_FreeBSD :: "string \<Rightarrow> directive list" where
  "FUNCTION_FreeBSD x = [Type_is x T_function, Label x]"

definition ENTRY2_FreeBSD :: "(string \<Rightarrow> directive list) \<Rightarrow> string \<Rightarrow> string \<Rightarrow> directive list" where
  "ENTRY2_FreeBSD MCOUNT x y =
    [Section Sec_text, Balign ASM_ENTRY_ALIGN, Globl [x, y], Label x, Label y] @ MCOUNT x"

definition ENTRY_NP2_FreeBSD :: "string \<Rightarrow> string \<Rightarrow> directive list" where
  "ENTRY_NP2_FreeBSD x y = [Section Sec_text, Balign ASM_ENTRY_ALIGN, Globl [x, y], Label x, Label y]"

definition SET_SIZE_FreeBSD :: "string \<Rightarrow> directive list" where "SET_SIZE_FreeBSD x = []"

definition SET_OBJ_FreeBSD :: "string \<Rightarrow> directive list" where "SET_OBJ_FreeBSD x = []"

subsection \<open>Pointer sizes\<close>

text \<open>
  The constants, by the architecture macros; a macro that is not defined counts as zero in a
  condition. The two \<^verbatim>\<open>#error\<close> lines are the errors.
\<close>

record clong =
  CLONGSHIFT :: nat
  CLONGSIZE :: nat
  CLONGMASK :: int

definition clong_macros :: "bool \<Rightarrow> bool \<Rightarrow> clong" where
  "clong_macros amd64 i386 =
    (if amd64 then \<lparr>CLONGSHIFT = 3, CLONGSIZE = 8, CLONGMASK = 7\<rparr>
     else if i386 then \<lparr>CLONGSHIFT = 2, CLONGSIZE = 4, CLONGMASK = 3\<rparr>
     else \<lparr>CLONGSHIFT = 0, CLONGSIZE = 0, CLONGMASK = 0\<rparr>)"

datatype linkage_error = Inconsistent_shift | Inconsistent_mask

definition clong_checks :: "clong \<Rightarrow> linkage_error + clong" where
  "clong_checks c =
    (if CLONGSIZE c \<noteq> 2 ^ CLONGSHIFT c then Inl Inconsistent_shift
     else if CLONGMASK c \<noteq> int (CLONGSIZE c) - 1 then Inl Inconsistent_mask
     else Inr c)"

subsection \<open>Programs with the macros\<close>

datatype asm_item =
    I_text | I_static
  | I_entry string | I_entry_np string | I_entry_align string nat | I_function string
  | I_entry2 string string | I_entry_np2 string string
  | I_set_size string | I_set_obj string
  | I_insns nat

fun linux_item :: "(string \<Rightarrow> directive list) \<Rightarrow> asm_item \<Rightarrow> directive list" where
  "linux_item m I_text = SECTION_TEXT"
| "linux_item m I_static = SECTION_STATIC"
| "linux_item m (I_entry x) = ENTRY m x"
| "linux_item m (I_entry_np x) = ENTRY_NP x"
| "linux_item m (I_entry_align x a) = ENTRY_ALIGN x a"
| "linux_item m (I_function x) = FUNCTION x"
| "linux_item m (I_entry2 x y) = ENTRY2 m x y"
| "linux_item m (I_entry_np2 x y) = ENTRY_NP2 x y"
| "linux_item m (I_set_size x) = SET_SIZE x"
| "linux_item m (I_set_obj x) = SET_OBJ x"
| "linux_item m (I_insns n) = [Insns n]"

fun freebsd_item :: "(string \<Rightarrow> directive list) \<Rightarrow> asm_item \<Rightarrow> directive list" where
  "freebsd_item m I_text = SECTION_TEXT"
| "freebsd_item m I_static = SECTION_STATIC"
| "freebsd_item m (I_entry x) = ENTRY_FreeBSD m x"
| "freebsd_item m (I_entry_np x) = ENTRY_NP_FreeBSD x"
| "freebsd_item m (I_entry_align x a) = ENTRY_ALIGN_FreeBSD x a"
| "freebsd_item m (I_function x) = FUNCTION_FreeBSD x"
| "freebsd_item m (I_entry2 x y) = ENTRY2_FreeBSD m x y"
| "freebsd_item m (I_entry_np2 x y) = ENTRY_NP2_FreeBSD x y"
| "freebsd_item m (I_set_size x) = SET_SIZE_FreeBSD x"
| "freebsd_item m (I_set_obj x) = SET_OBJ_FreeBSD x"
| "freebsd_item m (I_insns n) = [Insns n]"

definition linux_asm :: "(string \<Rightarrow> directive list) \<Rightarrow> asm_item list \<Rightarrow> directive list" where
  "linux_asm m is = concat (map (linux_item m) is)"

definition freebsd_asm :: "(string \<Rightarrow> directive list) \<Rightarrow> asm_item list \<Rightarrow> directive list" where
  "freebsd_asm m is = concat (map (freebsd_item m) is)"

subsection \<open>Lemmas\<close>

lemma assemble_all_append: "assemble_all (ds @ es) st = Option.bind (assemble_all ds st) (assemble_all es)"
proof (induction ds arbitrary: st)
  case (Cons d ds)
  then show ?case by (cases "assemble d st") simp_all
qed simp

lemma pad_to_bounds:
  assumes "a \<noteq> 0"
  shows "n \<le> pad_to a n" "pad_to a n < n + a"
proof -
  define q r where "q = (n + a - 1) div a * a" and "r = (n + a - 1) mod a"
  have "q + r = n + a - 1" "r < a" using assms by (simp_all add: q_def r_def)
  moreover have "pad_to a n = q" using assms by (simp add: pad_to_def q_def)
  ultimately show "n \<le> pad_to a n" "pad_to a n < n + a" using assms by linarith+
qed

lemma pad_to_dvd: "a \<noteq> 0 \<Longrightarrow> a dvd pad_to a n"
  by (simp add: pad_to_def)

text \<open>Directives that only describe symbols, and the part of the state they cannot change.\<close>

definition placed :: "asm \<Rightarrow> section_name \<times> (section_name \<Rightarrow> nat) \<times> (string \<rightharpoonup> section_name \<times> nat) \<times> string set" where
  "placed st = (as_section st, as_loc st, as_labels st, as_globals st)"

fun describes :: "directive \<Rightarrow> bool" where
  "describes (Type_is x t) \<longleftrightarrow> True"
| "describes (Size_here x) \<longleftrightarrow> True"
| "describes _ \<longleftrightarrow> False"

lemma describes_placed: "describes d \<Longrightarrow> assemble d st = Some st' \<Longrightarrow> placed st' = placed st"
  by (cases d) (auto simp: placed_def split: option.splits if_splits)

lemma assemble_placed:
  assumes "\<not> describes d" "placed st = placed st'"
  shows "rel_option (\<lambda>u v. placed u = placed v) (assemble d st) (assemble d st')"
  using assms by (cases d) (auto simp: placed_def here_def move_to_def)

text \<open>Leaving out descriptions does not change where things are.\<close>

lemma assemble_all_placed:
  "placed st = placed st' \<Longrightarrow> assemble_all ds st = Some u \<Longrightarrow>
    \<exists>v. assemble_all (filter (\<lambda>d. \<not> describes d) ds) st' = Some v \<and> placed u = placed v"
proof (induction ds arbitrary: st st')
  case (Cons d ds)
  from Cons.prems(2) obtain st1 where st1: "assemble d st = Some st1" "assemble_all ds st1 = Some u"
    by (cases "assemble d st") auto
  show ?case
  proof (cases "describes d")
    case True
    with Cons st1 describes_placed [OF True st1(1)] show ?thesis by simp
  next
    case False
    then obtain st2 where "assemble d st' = Some st2" "placed st1 = placed st2"
      using assemble_placed [OF False Cons.prems(1)] st1(1) by (auto simp: option_rel_Some1)
    with Cons.IH [OF _ st1(2)] False show ?thesis by simp
  qed
qed simp

text \<open>Types can be described anywhere.\<close>

fun is_size :: "directive \<Rightarrow> bool" where
  "is_size (Size_here x) \<longleftrightarrow> True"
| "is_size _ \<longleftrightarrow> False"

lemma assemble_all_undescribed:
  "placed st = placed st' \<Longrightarrow> list_all (\<lambda>d. \<not> is_size d) ds \<Longrightarrow>
    assemble_all (filter (\<lambda>d. \<not> describes d) ds) st' = Some v \<Longrightarrow>
    \<exists>u. assemble_all ds st = Some u \<and> placed u = placed v \<and> as_sizes u = as_sizes st"
proof (induction ds arbitrary: st st')
  case (Cons d ds)
  show ?case
  proof (cases "describes d")
    case True
    then obtain x t where "d = Type_is x t" using Cons.prems(2) by (cases d) auto
    then have d: "assemble d st = Some (st\<lparr>as_types := (as_types st)(x \<mapsto> t)\<rparr>)" by simp
    have "placed (st\<lparr>as_types := (as_types st)(x \<mapsto> t)\<rparr>) = placed st'" using Cons.prems(1) by (simp add: placed_def)
    from Cons.IH [OF this] Cons.prems(2,3) True d show ?thesis by auto
  next
    case False
    then obtain st1 where st1: "assemble d st' = Some st1" "assemble_all (filter (\<lambda>d. \<not> describes d) ds) st1 = Some v"
      using Cons.prems(3) by (cases "assemble d st'") auto
    then obtain st2 where st2: "assemble d st = Some st2" "placed st2 = placed st1"
      using assemble_placed [OF False Cons.prems(1)] by (auto simp: option_rel_Some2)
    have "as_sizes st2 = as_sizes st" using st2(1) Cons.prems(2) by (cases d) (auto simp: move_to_def split: if_splits)
    with Cons.IH [OF st2(2) _ st1(2)] Cons.prems(2) st2(1) show ?thesis by auto
  qed
qed simp

text \<open>\<^verbatim>\<open>MCOUNT\<close> as instructions.\<close>

fun insns_len :: "directive list \<Rightarrow> nat option" where
  "insns_len [] = Some 0"
| "insns_len (Insns n # ds) = map_option ((+) n) (insns_len ds)"
| "insns_len _ = None"

lemma insns_len_filter: "insns_len ds \<noteq> None \<Longrightarrow> filter (\<lambda>d. \<not> describes d) ds = ds \<and> list_all (\<lambda>d. \<not> is_size d) ds"
  by (induction ds rule: insns_len.induct) auto

lemma assemble_insns: "insns_len ds = Some k \<Longrightarrow> assemble_all ds st = Some (move_to (here st + k) st)"
proof (induction ds arbitrary: k st rule: insns_len.induct)
  case (2 n ds)
  then show ?case by (auto simp: move_to_def here_def add.assoc)
qed (auto simp: move_to_def here_def)

lemmas linkage_defs = SECTION_TEXT_def SECTION_STATIC_def ENTRY_def ENTRY_FreeBSD_def ENTRY_NP_def ENTRY_NP_FreeBSD_def
  ENTRY_ALIGN_def ENTRY_ALIGN_FreeBSD_def FUNCTION_def FUNCTION_FreeBSD_def ENTRY2_def ENTRY2_FreeBSD_def
  ENTRY_NP2_def ENTRY_NP2_FreeBSD_def SET_SIZE_def SET_SIZE_FreeBSD_def SET_OBJ_def SET_OBJ_FreeBSD_def

lemma items_same_code:
  assumes "\<And>x. insns_len (m x) \<noteq> None"
  shows "filter (\<lambda>d. \<not> describes d) (linux_item m i) = filter (\<lambda>d. \<not> describes d) (freebsd_item m i)"
    and "list_all (\<lambda>d. \<not> is_size d) (freebsd_item m i)"
proof -
  note mcount = insns_len_filter [OF assms]
  show "filter (\<lambda>d. \<not> describes d) (linux_item m i) = filter (\<lambda>d. \<not> describes d) (freebsd_item m i)"
    by (cases i) (simp_all add: linkage_defs mcount)
  show "list_all (\<lambda>d. \<not> is_size d) (freebsd_item m i)"
    by (cases i) (simp_all add: linkage_defs mcount)
qed

subsection \<open>Properties\<close>

text \<open>
  What a function gets. A name that is new, opened with \<^verbatim>\<open>ENTRY\<close> and closed with
  \<^verbatim>\<open>SET_SIZE\<close>, becomes a global function symbol in the text section, at the first address from
  the current one on that is a multiple of 16, and its size is the length of its code, the
  profiling call included.
\<close>

theorem entry_function_symbol:
  assumes "as_labels st x = None" "insns_len (m x) = Some k"
  shows "\<exists>st' a. assemble_all (ENTRY m x @ [Insns n] @ SET_SIZE x) st = Some st' \<and>
    as_labels st' x = Some (Sec_text, a) \<and> 16 dvd a \<and> as_loc st Sec_text \<le> a \<and> a < as_loc st Sec_text + 16 \<and>
    as_loc st' Sec_text = a + k + n \<and> as_sizes st' x = Some (k + n) \<and>
    x \<in> as_globals st' \<and> as_types st' x = Some T_function"
  using assms pad_to_bounds [of 16 "as_loc st Sec_text"] pad_to_dvd [of 16 "as_loc st Sec_text"]
  by (simp add: ENTRY_def SET_SIZE_def ASM_ENTRY_ALIGN_def assemble_all_append assemble_insns here_def move_to_def)

theorem entry_function_symbol_witness:
  "\<exists>st' a. assemble_all (ENTRY (\<lambda>_. [Insns 5]) ''f'' @ [Insns 30] @ SET_SIZE ''f'')
      \<lparr>as_section = Sec_rodata, as_loc = \<lambda>_. 100, as_labels = Map.empty, as_globals = {}, as_types = Map.empty,
       as_sizes = Map.empty\<rparr> = Some st' \<and> as_labels st' ''f'' = Some (Sec_text, a) \<and> as_sizes st' ''f'' = Some 35"
  using entry_function_symbol [of "\<lparr>as_section = Sec_rodata, as_loc = \<lambda>_. 100, as_labels = Map.empty, as_globals = {},
      as_types = Map.empty, as_sizes = Map.empty\<rparr>" "''f''" "\<lambda>_. [Insns 5]" 5 30]
  by auto



text \<open>
  The constants for pointers are consistent on both architectures; on any other the header
  stops.
\<close>

lemma clong_consistent:
  "clong_checks (clong_macros amd64 i386) =
    (if amd64 \<or> i386 then Inr (clong_macros amd64 i386) else Inl Inconsistent_shift)"
  by (simp add: clong_checks_def clong_macros_def)

end
