(* ===== verification/Mount.thy ===== *)
theory Mount
  imports Prelude
begin

text \<open>
  The mount flags of \<^verbatim>\<open>src/surgeon/compat/os/linux/sys/mount.h\<close> and of the FreeBSD header of that
  name. The flags of the system's own header are parameters, those that may be missing there as
  options. The lemmas say which flags share bits.
\<close>

subsection \<open>Linux\<close>

record sys_mount =
  sys_NOSUID :: u64
  sys_NODEV :: u64
  sys_NOEXEC :: u64
  sys_DIRSYNC :: "u64 option"
  sys_S_WRITE :: u64
  sys_POSIXACL :: "u64 option"
  sys_FORCE :: "u64 option"
  sys_DETACH :: "u64 option"

definition or_else :: "u64 \<Rightarrow> u64 option \<Rightarrow> u64" where
  "or_else d x = (case x of None \<Rightarrow> d | Some v \<Rightarrow> v)"

definition MS_DIRSYNC :: "sys_mount \<Rightarrow> u64" where "MS_DIRSYNC S = or_else (sys_S_WRITE S) (sys_DIRSYNC S)"

definition MS_POSIXACL :: "sys_mount \<Rightarrow> u64" where "MS_POSIXACL S = or_else (push_bit 16 1) (sys_POSIXACL S)"

definition MS_USERS :: "sys_mount \<Rightarrow> u64" where "MS_USERS S = sys_NOEXEC S OR sys_NOSUID S OR sys_NODEV S"

definition MS_OWNER :: "sys_mount \<Rightarrow> u64" where "MS_OWNER S = sys_NOSUID S OR sys_NODEV S"

definition MS_GROUP :: "sys_mount \<Rightarrow> u64" where "MS_GROUP S = sys_NOSUID S OR sys_NODEV S"

definition MS_COMMENT :: u64 where "MS_COMMENT = 0"

definition MS_FORCE :: "sys_mount \<Rightarrow> u64" where "MS_FORCE S = or_else 0x00000001 (sys_FORCE S)"

definition MS_DETACH :: "sys_mount \<Rightarrow> u64" where "MS_DETACH S = or_else 0x00000002 (sys_DETACH S)"

definition MS_OVERLAY :: u64 where "MS_OVERLAY = 0x00000004"

definition MS_CRYPT :: u64 where "MS_CRYPT = 0x00000008"

subsection \<open>FreeBSD\<close>

text \<open>The header names the flags \<^verbatim>\<open>mount.h\<close> of Linux has, some of them as nothing.\<close>

record bsd_mount =
  MNT_NOSUID :: u64
  MNT_NOEXEC :: u64
  MNT_SYNCHRONOUS :: u64
  bsd_DIRSYNC :: "u64 option"
  bsd_POSIXACL :: "u64 option"
  bsd_FORCE :: "u64 option"
  bsd_DETACH :: "u64 option"

definition freebsd_mount :: "bsd_mount \<Rightarrow> sys_mount" where
  "freebsd_mount B =
    \<lparr>sys_NOSUID = MNT_NOSUID B, sys_NODEV = 0, sys_NOEXEC = MNT_NOEXEC B, sys_DIRSYNC = bsd_DIRSYNC B,
     sys_S_WRITE = 0, sys_POSIXACL = bsd_POSIXACL B, sys_FORCE = bsd_FORCE B, sys_DETACH = bsd_DETACH B\<rparr>"

subsection \<open>Which flags share bits\<close>

text \<open>The values of \<^verbatim>\<open>mount(2)\<close> and \<^verbatim>\<open>umount2(2)\<close> on Linux.\<close>

definition linux_documented :: "sys_mount \<Rightarrow> bool" where
  "linux_documented S \<longleftrightarrow>
     sys_NOSUID S = 2 \<and> sys_NODEV S = 4 \<and> sys_NOEXEC S = 8 \<and>
     sys_FORCE S \<in> {None, Some 1} \<and> sys_DETACH S \<in> {None, Some 2}"

lemma documented_flags:
  assumes "linux_documented S"
  shows "MS_USERS S = 14" "MS_OWNER S = 6" "MS_FORCE S = 1" "MS_DETACH S = 2"
  using assms by (auto simp: linux_documented_def MS_USERS_def MS_OWNER_def MS_FORCE_def MS_DETACH_def or_else_def)

text \<open>
  The flags for unmounting are apart from each other and from the two flags of the header's own, with
  and without the system's definitions. But the header's own flags are bits that \<^verbatim>\<open>mount(2)\<close> uses:
  loading of keys is the flag of \<^verbatim>\<open>noexec\<close> and overlay mounting that of \<^verbatim>\<open>nodev\<close>, so a mount with
  \<^verbatim>\<open>MS_USERS\<close> asks for both.
\<close>

theorem mount_flags_shared:
  assumes "linux_documented S"
  shows "MS_CRYPT = sys_NOEXEC S \<and> MS_OVERLAY = sys_NODEV S \<and>
    (MS_USERS S AND (MS_CRYPT OR MS_OVERLAY)) = MS_CRYPT OR MS_OVERLAY \<and>
    (MS_FORCE S AND MS_DETACH S) = 0 \<and> ((MS_FORCE S OR MS_DETACH S) AND (MS_CRYPT OR MS_OVERLAY)) = 0"
  using assms documented_flags [OF assms] by (simp add: linux_documented_def MS_CRYPT_def MS_OVERLAY_def)

theorem mount_flags_shared_witness:
  "MS_CRYPT = sys_NOEXEC \<lparr>sys_NOSUID = 2, sys_NODEV = 4, sys_NOEXEC = 8, sys_DIRSYNC = Some 128, sys_S_WRITE = 128,
     sys_POSIXACL = None, sys_FORCE = Some 1, sys_DETACH = None\<rparr>"
  by (rule mount_flags_shared [THEN conjunct1]) (simp add: linux_documented_def)

text \<open>On FreeBSD a mount for users does not ask for \<^verbatim>\<open>nodev\<close>, and \<^verbatim>\<open>MS_DIRSYNC\<close> asks for nothing.\<close>

lemma freebsd_flags:
  "MS_OWNER (freebsd_mount B) = MNT_NOSUID B"
  "MS_USERS (freebsd_mount B) = MNT_NOEXEC B OR MNT_NOSUID B"
  "bsd_DIRSYNC B = None \<Longrightarrow> MS_DIRSYNC (freebsd_mount B) = 0"
  by (simp_all add: MS_OWNER_def MS_USERS_def MS_DIRSYNC_def freebsd_mount_def or_else_def)

end
