(* ===== verification/Spec2Isabelle.thy ===== *)
theory Spec2Isabelle
  imports Rescan Simd Byteorder Sysmacros IsaDefs Umem Hrtime Uio CmnErr DiskLabel DiskIoctl Acl
    Kstat Posix AsmLinkage Mount
begin

text \<open>
  \<^bold>\<open>zhaxx: surgery on the meta-objset of a ZFS pool.\<close>

  \<^bold>\<open>The program.\<close> zhaxx repairs a pool whose meta-objset (MOS) has dangling references. Two
  tools share a text file, the plan. The scanner (\<^verbatim>\<open>src/scan/zhaxx-scan\<close>, Python) reads
  \<^verbatim>\<open>zdb\<close> dumps, checks references, and writes a plan of operations with their
  preconditions. The surgeon (\<^verbatim>\<open>src/surgeon/zhaxx.c\<close>, C, linked with libzpool) parses the
  plan, asks for consent, imports the pool, checks every precondition, applies all operations in
  one sync task (which checks them all again first), and exports the pool. It is compiled
  against the compatibility headers of \<^verbatim>\<open>src/surgeon/compat\<close>.

  \<^bold>\<open>The surgeon.\<close> The theories follow the order of the code.
  \<^item> \<^verbatim>\<open>CString\<close> has the C library functions the parser uses (\<^verbatim>\<open>strstr\<close>,
    \<^verbatim>\<open>strtoull\<close> with its sign, base and range rules, \<^verbatim>\<open>strcasecmp\<close>, \<^verbatim>\<open>fgets\<close> with
    its buffer limit, embedded NUL characters).
  \<^item> \<^verbatim>\<open>Plan\<close> has \<^verbatim>\<open>op_t\<close>, \<^verbatim>\<open>kv_u64\<close>, \<^verbatim>\<open>kv_str\<close> and \<^verbatim>\<open>parse_plan\<close>,
    every error message an error value with its line number. Its lemmas: parsed operations are
    well formed and within the bounds of their buffers, the loop reads the lines of the file,
    each mandatory field is really there.
  \<^item> \<^verbatim>\<open>Libzpool\<close> is the interface to the MOS: a record of the entry points the surgeon calls
    and the locale \<open>mos_contract\<close> of what it relies on.
  \<^item> \<^verbatim>\<open>Surgery\<close> has \<^verbatim>\<open>check_op\<close> with its messages, and \<^verbatim>\<open>apply_sync\<close> as its two
    passes. Its lemmas: the checks decide what they say, the task is all or nothing, and under
    the contract each operation reaches its goal and leaves the rest alone.
  \<^item> \<^verbatim>\<open>MosStore\<close> is a MOS as a map of objects; it interprets \<open>mos_contract\<close>, runs the
    example plan, and holds the properties of completed plans.
  \<^item> \<^verbatim>\<open>MainRun\<close> has \<^verbatim>\<open>do_import\<close> and \<^verbatim>\<open>main\<close>, with libzpool as the record
    \<open>zpool_env\<close> under the locale \<open>zpool_contract\<close>, and every call with an effect and every
    message in a trace. Its lemmas: every trace is a path of the life cycle \<open>life_step\<close>, dump
    mode writes nothing, the storage changes all or nothing, what each exit code means.

  \<^bold>\<open>The scanner.\<close>
  \<^item> \<^verbatim>\<open>PlanEmit\<close> has the plan lines and the plan file the scanner writes, and shows that the
    surgeon reads back what was meant, and where it does not.
  \<^item> \<^verbatim>\<open>PyRegex\<close> has what the scanner uses of Python's \<^verbatim>\<open>re\<close> and \<^verbatim>\<open>str\<close>: a backtracking
    matcher, shown to find a match when there is one, and the one that greedy and lazy repetitions
    prefer; \<^verbatim>\<open>splitlines\<close>, \<^verbatim>\<open>split\<close>, \<^verbatim>\<open>strip\<close>.
  \<^item> \<^verbatim>\<open>ZdbDump\<close> has the regular expressions of \<^verbatim>\<open>src/scan/zhaxx-scan\<close> and \<^verbatim>\<open>parse_obj_dump\<close>,
    and the printed dumps of \<^verbatim>\<open>src/tests/fixtures.py\<close>. Its lemmas: parsed dumps are well formed,
    printed dumps are read back, an entry line divides in one way, an error word in a name makes
    its table unreadable.
  \<^item> \<^verbatim>\<open>Scanner\<close> has class \<^verbatim>\<open>Scanner\<close> of \<^verbatim>\<open>src/scan/zhaxx-scan\<close>, one definition per
    check with its findings and operations, and \<^verbatim>\<open>dedupe_ops\<close>; the dumps are a function from
    object numbers. The locales \<open>check_invariant\<close> and \<open>scan_invariant\<close> carry a property of the
    scanner's state through every check and through the walk; their interpretations show that
    every operation rests on what the dumps show and goes with a critical finding.
  \<^item> \<^verbatim>\<open>ScanWalk\<close> shows that the recursive walk returns, and that a scan is clean exactly when the
    MOS is consistent, a property of the dumps stated without the scanner.
  \<^item> \<^verbatim>\<open>ScanPlan\<close> joins scanner and surgeon: the locale \<open>dumps_describe\<close> says that dumps show a
    given MOS, and under it planned operations pass the surgeon's checks. It scans the fixtures of
    \<^verbatim>\<open>src/tests/fixtures.py\<close> (the first gives exactly \<^verbatim>\<open>src/plans/example-orphan-clone.plan\<close>)
    and sources that show flaws of the checks.
  \<^item> \<^verbatim>\<open>DumpSource\<close> has \<^verbatim>\<open>ZdbSource\<close> and \<^verbatim>\<open>DumpDirSource\<close>. The locale \<open>dump_source\<close> is what the
    checks rely on, that an object has one dump during a scan; both sources interpret it. Its
    lemmas: a capture is replayed as it was read, the fixtures as files are the fixtures as
    dumps, and a dump that is missing is followed into the plan.
  \<^item> \<^verbatim>\<open>ScanMain\<close> has \<^verbatim>\<open>main\<close> of \<^verbatim>\<open>src/scan/zhaxx-scan\<close>: source, scan, sorted report, files, exit
    status, with every way to end. Its lemmas: what the exit status means, that the plan file
    holds the plan of the scan, and when the report is lost. The property of this theory joins it
    with \<^verbatim>\<open>main\<close> of the surgeon.
  \<^item> \<^verbatim>\<open>ScanLocal\<close> shows what a scan can depend on: the locale \<open>view_agrees\<close> compares two sources
    that agree on the objects reachable from the object directory, and every check gives the same
    on both; so a capture of those objects is scanned like the pool.
  \<^item> \<^verbatim>\<open>Rescan\<close> has the cycle of both tools: the locale \<open>rescan_describes\<close> extends
    \<open>dumps_describe\<close>, and after a completed run a second scan plans nothing of the plan again. The
    fixture is repaired and then scanned without findings.

  \<^bold>\<open>The compatibility layer.\<close> \<^verbatim>\<open>Assert\<close> (\<^verbatim>\<open>assert.h\<close>), \<^verbatim>\<open>Simd\<close>
  (\<^verbatim>\<open>sys/simd.h\<close>), \<^verbatim>\<open>Byteorder\<close> and \<^verbatim>\<open>Sysmacros\<close>
  (\<^verbatim>\<open>os/linux/sys\<close>), \<^verbatim>\<open>IsaDefs\<close> (\<^verbatim>\<open>sys/isa_defs.h\<close>, the preprocessor's
  branches as functions on the set of macros), \<^verbatim>\<open>Umem\<close> (\<^verbatim>\<open>umem.h\<close>, its retry loops
  as partial functions), \<^verbatim>\<open>Hrtime\<close> (\<^verbatim>\<open>sys/time.h\<close>), \<^verbatim>\<open>Uio\<close>
  (\<^verbatim>\<open>sys/uio.h\<close>), \<^verbatim>\<open>CmnErr\<close> (\<^verbatim>\<open>sys/cmn_err.h\<close>, any interleaving of threads
  as a step relation), \<^verbatim>\<open>Acl\<close> (\<^verbatim>\<open>sys/acl.h\<close>, \<^verbatim>\<open>sys/acl_impl.h\<close>),
  \<^verbatim>\<open>Posix\<close> (\<^verbatim>\<open>sys/stack.h\<close>, the two \<^verbatim>\<open>sys/stat.h\<close>, \<^verbatim>\<open>rpc/xdr.h\<close>,
  \<^verbatim>\<open>sys/wmsum.h\<close>, \<^verbatim>\<open>sys/types32.h\<close>, the two \<^verbatim>\<open>sys/mnttab.h\<close>, \<^verbatim>\<open>sys/kmem.h\<close>), \<^verbatim>\<open>Mount\<close> (the two
  \<^verbatim>\<open>sys/mount.h\<close>), \<^verbatim>\<open>AsmLinkage\<close> (the two \<^verbatim>\<open>sys/ia32/asm_linkage.h\<close>, macros as lists of directives
  for an assembler that builds the symbol table). The structures
  that cross an interface are described in \<^verbatim>\<open>CLayout\<close>, which computes sizes and offsets:
  \<^verbatim>\<open>DiskLabel\<close> (\<^verbatim>\<open>sys/dklabel.h\<close>, \<^verbatim>\<open>sys/dktp/fdisk.h\<close>), \<^verbatim>\<open>DiskIoctl\<close>
  (\<^verbatim>\<open>sys/dkio.h\<close>, \<^verbatim>\<open>sys/mhd.h\<close>), \<^verbatim>\<open>Kstat\<close> (\<^verbatim>\<open>sys/kstat.h\<close>).

  \<^bold>\<open>Bounds and termination.\<close> One definition has a bound: the walk of the scanner, which is
  recursive in the code, takes the depth its recursion may reach; any depth above the number of
  readable directories is enough, and all of those give the same result (\<open>scan_terminates\<close>). The
  plan loop and the argument loop terminate by the length of what is left to read, the vector
  search of \<^verbatim>\<open>Uio\<close> by the vectors left, the matcher of \<^verbatim>\<open>PyRegex\<close> by the items and the text
  left. The allocation loops of \<^verbatim>\<open>Umem\<close> need not end when
  memory never comes; they are \<open>partial_function\<close>s whose value \<open>None\<close> is not ending, and their
  lemmas say when they end. The C integers have their widths throughout and the plan's numbers
  are 64-bit words; the scanner's numbers are unbounded, as Python's are.

  \<^bold>\<open>Not modelled.\<close> libzpool, libnvpair and the C library's allocation and thread functions are
  not in the repository: they are parameters, and so is \<^verbatim>\<open>zdb\<close>, whose text is ASCII in the
  model. The scanner's options are taken as \<^verbatim>\<open>argparse\<close> leaves them, the lines of its report
  and its JSON file are values and not text, and notes of \<^verbatim>\<open>--verbose\<close> are left out. Headers with
  prototypes only (\<^verbatim>\<open>atomic.h\<close>, \<^verbatim>\<open>sys/list.h\<close>, \<^verbatim>\<open>libshare.h\<close> and the
  redirecting headers) have no behaviour to model. Of the assembler linkage the
  spellings of prefixes and constants for different assemblers are left out. \<^verbatim>\<open>os/freebsd/sys/byteorder.h\<close> repeats the Linux macros modelled here.
  Scripts, tests and documents are not part of the program.
\<close>

section \<open>The two tools together\<close>



end
